(* ===== verification/Go_Prelude.thy ===== *)
theory Go_Prelude
imports Main "HOL-Library.Char_ord" "HOL-Library.List_Lexorder"
begin

text \<open>
  The part of Go and of its standard library that the components use, and the
  lemmas they share.

  \<^item> Errors: a Go \<open>error\<close> result is a \<open>string option\<close> (\<open>None\<close> is nil), a pair of a value
    and an error is a sum. \<open>first_err\<close> runs a list of checks up to the first error.
  \<^item> Integers: \<open>int\<close> and \<open>int64\<close> values are HOL integers; \<open>wrap64\<close> is written where the
    code's arithmetic can leave the 64-bit range. \<open>quot64\<close> is Go's truncating division.
  \<^item> Strings are byte lists; slices that may be nil are option lists.
  \<^item> Maps with string keys are association lists kept strictly sorted by key, so that
    equality of two maps is equality of the lists.
\<close>

named_theorems err_iff \<open>when a sequence of checks gives no error\<close>
named_theorems inv_intros \<open>operations keep the invariant of their component\<close>

type_synonym err = "string option"
type_synonym 'a result = "string + 'a"
type_synonym 'a slice = "'a list option"
type_synonym 'v gomap = "(string \<times> 'v) list"

subsection \<open>Checks and errors\<close>

primrec first_err :: "err list \<Rightarrow> err" where
  "first_err [] = None"
| "first_err (e # es) = (case e of None \<Rightarrow> first_err es | Some m \<Rightarrow> Some m)"

definition fail_if :: "bool \<Rightarrow> string \<Rightarrow> err" where
  "fail_if b m = (if b then Some m else None)"

definition guarded :: "bool \<Rightarrow> err list \<Rightarrow> err" where
  "guarded b es = (if b then first_err es else None)"

definition elems :: "'a slice \<Rightarrow> 'a list" where
  "elems s = (case s of None \<Rightarrow> [] | Some xs \<Rightarrow> xs)"

subsection \<open>Integers\<close>

definition wrap64 :: "int \<Rightarrow> int" where
  "wrap64 x = (x + 2 ^ 63) mod 2 ^ 64 - 2 ^ 63"

definition quot64 :: "int \<Rightarrow> int \<Rightarrow> int" where
  "quot64 a b = (if (0 \<le> a) = (0 \<le> b) then \<bar>a\<bar> div \<bar>b\<bar> else - (\<bar>a\<bar> div \<bar>b\<bar>))"

definition digit :: "nat \<Rightarrow> char" where
  "digit n = char_of (48 + n)"

function utoa :: "nat \<Rightarrow> string" where
  "utoa n = (if n < 10 then [digit n] else utoa (n div 10) @ [digit (n mod 10)])"
  by pat_completeness auto
termination by (relation "measure id") auto

definition itoa :: "int \<Rightarrow> string" where
  "itoa i = (if i < 0 then ''-'' @ utoa (nat (- i)) else utoa (nat i))"

subsection \<open>Strings\<close>

definition HasPrefix :: "string \<Rightarrow> string \<Rightarrow> bool" where
  "HasPrefix s p = (take (length p) s = p)"

definition HasSuffix :: "string \<Rightarrow> string \<Rightarrow> bool" where
  "HasSuffix s p = HasPrefix (rev s) (rev p)"

fun Contains :: "string \<Rightarrow> string \<Rightarrow> bool" where
  "Contains [] p = (p = [])"
| "Contains (c # s) p = (HasPrefix (c # s) p \<or> Contains s p)"

definition ContainsAny :: "string \<Rightarrow> string \<Rightarrow> bool" where
  "ContainsAny s cs = list_ex (\<lambda>c. c \<in> set cs) s"

definition TrimPrefix :: "string \<Rightarrow> string \<Rightarrow> string" where
  "TrimPrefix s p = (if HasPrefix s p then drop (length p) s else s)"

definition TrimSuffix :: "string \<Rightarrow> string \<Rightarrow> string" where
  "TrimSuffix s p = (if HasSuffix s p then take (length s - length p) s else s)"

text \<open>The UTF-8 encodings of the code points that \<open>unicode.IsSpace\<close> accepts.\<close>

definition space_runes :: "string list" where
  "space_runes =
     [[CHR 0x09], [CHR 0x0A], [CHR 0x0B], [CHR 0x0C], [CHR 0x0D], [CHR 0x20],
      [CHR 0xC2, CHR 0x85], [CHR 0xC2, CHR 0xA0], [CHR 0xE1, CHR 0x9A, CHR 0x80],
      [CHR 0xE2, CHR 0x80, CHR 0xA8], [CHR 0xE2, CHR 0x80, CHR 0xA9],
      [CHR 0xE2, CHR 0x80, CHR 0xAF], [CHR 0xE2, CHR 0x81, CHR 0x9F],
      [CHR 0xE3, CHR 0x80, CHR 0x80]]
     @ map (\<lambda>n. [CHR 0xE2, CHR 0x80, char_of (128 + n)]) [0..<11]"

function strip :: "string list \<Rightarrow> string \<Rightarrow> string" where
  "strip ps s = (case List.find (\<lambda>p. p \<noteq> [] \<and> HasPrefix s p) ps of
                   None \<Rightarrow> s | Some p \<Rightarrow> strip ps (drop (length p) s))"
  by pat_completeness auto
termination
proof (relation "measure (length \<circ> snd)")
  fix ps :: "string list" and s p
  assume "List.find (\<lambda>p. p \<noteq> [] \<and> HasPrefix s p) ps = Some p"
  then have "p \<noteq> []" "take (length p) s = p"
    by (auto simp: HasPrefix_def find_Some_iff)
  then show "((ps, drop (length p) s), (ps, s)) \<in> measure (length \<circ> snd)"
    by (cases s) auto
qed simp

definition TrimLeftSpace :: "string \<Rightarrow> string" where
  "TrimLeftSpace s = strip space_runes s"

definition TrimSpace :: "string \<Rightarrow> string" where
  "TrimSpace s = rev (strip (map rev space_runes) (rev (TrimLeftSpace s)))"

definition to_lower_char :: "char \<Rightarrow> char" where
  "to_lower_char c = (let n = of_char c :: nat in if 65 \<le> n \<and> n \<le> 90 then char_of (n + 32) else c)"

text \<open>\<open>strings.ToLower\<close> on ASCII letters; bytes of multi-byte runes are left alone.\<close>

definition ToLower :: "string \<Rightarrow> string" where
  "ToLower = map to_lower_char"

fun split_on :: "char \<Rightarrow> string \<Rightarrow> string list" where
  "split_on c [] = [[]]"
| "split_on c (x # s) = (if x = c then [] # split_on c s
                          else (case split_on c s of [] \<Rightarrow> [[x]] | w # ws \<Rightarrow> (x # w) # ws))"

fun join_with :: "string \<Rightarrow> string list \<Rightarrow> string" where
  "join_with sep [] = []"
| "join_with sep [w] = w"
| "join_with sep (w # v # ws) = w @ sep @ join_with sep (v # ws)"

subsection \<open>Paths\<close>

text \<open>
  \<open>filepath.Clean\<close> on Unix: the components of the path in order, kept on a stack (innermost first);
  empty components and \<open>.\<close> are dropped, \<open>..\<close> removes the component before it.
\<close>

fun clean_comps :: "bool \<Rightarrow> string list \<Rightarrow> string list \<Rightarrow> string list" where
  "clean_comps rooted st [] = rev st"
| "clean_comps rooted st (c # cs) =
     (if c = [] \<or> c = ''.'' then clean_comps rooted st cs
      else if c = ''..'' then
        (case st of [] \<Rightarrow> clean_comps rooted (if rooted then [] else [''..'']) cs
         | t # ts \<Rightarrow> if t = ''..'' then clean_comps rooted (''..'' # st) cs else clean_comps rooted ts cs)
      else clean_comps rooted (c # st) cs)"

definition path_Clean :: "string \<Rightarrow> string" where
  "path_Clean p =
     (let rooted = HasPrefix p ''/'';
          r = (if rooted then ''/'' else []) @ join_with ''/'' (clean_comps rooted [] (split_on (CHR ''/'') p))
      in if r = [] then ''.'' else r)"

subsection \<open>Maps\<close>

fun map_put :: "string \<Rightarrow> 'v \<Rightarrow> 'v gomap \<Rightarrow> 'v gomap" where
  "map_put k v [] = [(k, v)]"
| "map_put k v (p # m) = (if k < fst p then (k, v) # p # m
                           else if k = fst p then (k, v) # m else p # map_put k v m)"

definition map_del :: "string \<Rightarrow> 'v gomap \<Rightarrow> 'v gomap" where
  "map_del k m = filter (\<lambda>p. fst p \<noteq> k) m"

definition map_ok :: "'v gomap \<Rightarrow> bool" where
  "map_ok m = (sorted (map fst m) \<and> distinct (map fst m))"

text \<open>\<open>for k, v := range src { dst[k] = v }\<close>\<close>

definition map_copy :: "'v gomap \<Rightarrow> 'v gomap \<Rightarrow> 'v gomap" where
  "map_copy dst src = fold (\<lambda>(k, v) m. map_put k v m) src dst"

subsection \<open>Lemmas on checks\<close>

lemma first_err_None [err_iff, simp]: "first_err es = None \<longleftrightarrow> (\<forall>e \<in> set es. e = None)"
  by (induction es) (auto split: option.splits)

lemma first_err_Some: "first_err es = Some m \<Longrightarrow> Some m \<in> set es"
  by (induction es) (auto split: option.splits)

lemma fail_if_None [err_iff, simp]: "fail_if b m = None \<longleftrightarrow> \<not> b"
  by (simp add: fail_if_def)

lemma guarded_None [err_iff, simp]: "guarded b es = None \<longleftrightarrow> (b \<longrightarrow> (\<forall>e \<in> set es. e = None))"
  by (simp add: guarded_def)

lemma elems_simps [simp]: "elems None = []" "elems (Some xs) = xs"
  by (simp_all add: elems_def)

lemma wrap64_id [simp]: "- (2 ^ 63) \<le> x \<Longrightarrow> x < 2 ^ 63 \<Longrightarrow> wrap64 x = x"
  by (simp add: wrap64_def)

lemma wrap64_range: "- (2 ^ 63) \<le> wrap64 x" "wrap64 x < 2 ^ 63"
  by (simp_all add: wrap64_def)

declare first_err.simps [simp del]
declare utoa.simps [simp del]
declare strip.simps [simp del]

subsection \<open>Lemmas on strings\<close>

lemma HasPrefix_iff: "HasPrefix s p \<longleftrightarrow> (\<exists>t. s = p @ t)"
  by (metis HasPrefix_def append_eq_conv_conj append_take_drop_id)

lemma Contains_iff: "Contains s p \<longleftrightarrow> (\<exists>a b. s = a @ p @ b)"
proof (induction s)
  case IH: (Cons c s)
  show ?case
  proof
    assume "Contains (c # s) p"
    then consider b where "c # s = [] @ p @ b" | a b where "c # s = (c # a) @ p @ b"
      using IH by (auto simp: HasPrefix_iff)
    then show "\<exists>a b. c # s = a @ p @ b" by cases blast+
  next
    assume "\<exists>a b. c # s = a @ p @ b"
    then obtain a b where ab: "c # s = a @ p @ b" by blast
    show "Contains (c # s) p"
    proof (cases a)
      case Nil
      with ab have "HasPrefix (c # s) p" by (auto simp: HasPrefix_iff)
      then show ?thesis by simp
    next
      case (Cons d a')
      with ab have "s = a' @ p @ b" by simp
      then have "Contains s p" using IH by blast
      then show ?thesis by simp
    qed
  qed
qed auto

lemma Contains_append1: "Contains s p \<Longrightarrow> Contains (s @ t) p"
  by (metis Contains_iff append_assoc)

lemma Contains_append2: "Contains t p \<Longrightarrow> Contains (s @ t) p"
  by (metis Contains_iff append_assoc)

lemma ContainsAny_iff: "ContainsAny s cs \<longleftrightarrow> (\<exists>c \<in> set s. c \<in> set cs)"
  by (simp add: ContainsAny_def list_ex_iff)

lemma split_on_nonempty [simp]: "split_on c s \<noteq> []"
  by (induction s) (auto split: list.splits)

lemma join_split_on: "join_with [c] (split_on c s) = s"
proof (induction s)
  case (Cons x s)
  obtain w ws where w: "split_on c s = w # ws"
    by (cases "split_on c s") auto
  with Cons show ?case by (cases ws) auto
qed simp

subsection \<open>Lemmas on maps\<close>

lemma map_of_put [simp]: "map_of (map_put k v m) = (map_of m)(k \<mapsto> v)"
  by (induction m) (auto simp: fun_eq_iff)

lemma keys_put [simp]: "fst ` set (map_put k v m) = insert k (fst ` set m)"
  by (induction m) auto

lemma map_of_del [simp]: "map_of (map_del k m) = (map_of m)(k := None)"
  by (induction m) (auto simp: map_del_def fun_eq_iff)

lemma map_ok_Nil [inv_intros, simp]: "map_ok []"
  by (simp add: map_ok_def)

lemma map_ok_put [inv_intros]: "map_ok m \<Longrightarrow> map_ok (map_put k v m)"
proof (induction m)
  case (Cons p m)
  have keys: "set (map fst (map_put k v m)) = insert k (set (map fst m))"
    using keys_put [of k v m] by simp
  show ?case using Cons keys by (fastforce simp: map_ok_def)
qed (simp add: map_ok_def)

lemma map_ok_del [inv_intros]: "map_ok m \<Longrightarrow> map_ok (map_del k m)"
  by (auto simp: map_ok_def map_del_def sorted_filter distinct_map_filter)

lemma map_ok_copy [inv_intros]: "map_ok dst \<Longrightarrow> map_ok (map_copy dst src)"
  unfolding map_copy_def
  by (induction src arbitrary: dst) (auto intro: map_ok_put)

lemma map_of_copy:
  assumes "distinct (map fst src)"
  shows "map_of (map_copy dst src) = map_of dst ++ map_of src"
  using assms unfolding map_copy_def
proof (induction src arbitrary: dst)
  case (Cons p src)
  obtain k v where p: "p = (k, v)" by (cases p)
  have k: "map_of src k = None"
    using Cons.prems p by (simp add: map_of_eq_None_iff)
  have IH: "map_of (fold (\<lambda>(k, v) m. map_put k v m) src d) = map_of d ++ map_of src" for d
    using Cons by simp
  show ?case
    using k by (auto simp: p IH fun_eq_iff map_add_def split: option.splits)
qed simp

lemma map_ok_distinct [simp]: "map_ok m \<Longrightarrow> distinct (map fst m)"
  by (simp add: map_ok_def)

text \<open>A sorted association list is determined by its lookup function.\<close>

lemma map_ok_ext:
  assumes "map_ok m" "map_ok n" "map_of m = map_of n"
  shows "m = n"
proof -
  have "set m = set n"
    using assms by (auto simp: map_ok_def dest: map_of_eq_Some_iff)
  moreover have "map fst m = map fst n"
    using assms calculation
    by (intro sorted_distinct_set_unique) (auto simp: map_ok_def)
  moreover have "inj_on fst (set m \<union> set n)"
    using assms calculation(1) by (simp add: map_ok_def distinct_map)
  ultimately show ?thesis
    using map_inj_on by blast
qed

subsection \<open>Loops that update one key at a time\<close>

lemma fold_keyed:
  assumes "\<And>k s j. look (step k s) j = (if j = k then u k (look s k) else look s j)"
    and "distinct ks"
  shows "look (fold step ks s) j = (if j \<in> set ks then u j (look s j) else look s j)"
  using assms(2)
proof (induction ks arbitrary: s)
  case (Cons k ks)
  then have "look (fold step ks (step k s)) j =
      (if j \<in> set ks then u j (look (step k s) j) else look (step k s) j)" by simp
  then show ?case using Cons.prems by (auto simp: assms(1))
qed simp

lemma fold_keyed_outer:
  assumes "\<And>m s. ks (A m s) = ks s"
    and "\<And>m s. ks s = K \<Longrightarrow> look (A m s) j = u m (look s j)"
    and "ks s = K"
  shows "look (fold A ms s) j = fold u ms (look s j)"
  using assms(3)
proof (induction ms arbitrary: s)
  case (Cons m ms)
  then have "look (fold A ms (A m s)) j = fold u ms (look (A m s) j)" by (simp add: assms(1))
  then show ?case using Cons.prems assms(2) by simp
qed simp

lemma fold_frame: "(\<And>x s. g (f x s) = g s) \<Longrightarrow> g (fold f xs s) = g s"
  by (induction xs arbitrary: s) auto

lemma fold_map_filter:
  "fold (\<lambda>x p. case g x of None \<Rightarrow> p | Some v \<Rightarrow> f v p) xs p = fold f (List.map_filter g xs) p"
  by (induction xs arbitrary: p) (auto simp: List.map_filter_def split: option.splits)

text \<open>An index expression: \<open>None\<close> is the out-of-range panic.\<close>

definition slice_at :: "'a list \<Rightarrow> int \<Rightarrow> 'a option" where
  "slice_at xs i = (if 0 \<le> i \<and> i < int (length xs) then Some (xs ! nat i) else None)"

lemma slice_at_Some [simp]: "0 \<le> i \<Longrightarrow> i < int (length xs) \<Longrightarrow> slice_at xs i = Some (xs ! nat i)"
  by (simp add: slice_at_def)

lemma wrap64_add_left [simp]: "wrap64 (wrap64 a + b) = wrap64 (a + b)"
proof -
  have "((a + 2 ^ 63) mod 2 ^ 64 + b) mod 2 ^ 64 = (a + 2 ^ 63 + b) mod (2 ^ 64 :: int)"
    by (rule mod_add_left_eq)
  then show ?thesis by (simp add: wrap64_def algebra_simps)
qed

lemma length_map_put: "map_ok m \<Longrightarrow> length (map_put k v m) = (if map_of m k = None then length m + 1 else length m)"
proof -
  assume ok: "map_ok m"
  have "length (map_put k v m) = card (fst ` set (map_put k v m))"
    using map_ok_distinct [OF map_ok_put [OF ok]] by (metis distinct_card length_map list.set_map)
  also have "\<dots> = card (insert k (fst ` set m))" by simp
  also have "\<dots> = (if map_of m k = None then length m + 1 else length m)"
    using map_ok_distinct [OF ok] distinct_card [of "map fst m"]
    by (simp add: map_of_eq_None_iff card_insert_if)
  finally show ?thesis .
qed

lemma map_of_filter_entries:
  "distinct (map fst m) \<Longrightarrow> map_of (filter P m) k = (case map_of m k of None \<Rightarrow> None | Some v \<Rightarrow> if P (k, v) then Some v else None)"
  by (induction m) (auto simp: map_of_eq_None_iff image_iff split: option.splits)

definition hex_digit :: "nat \<Rightarrow> char" where
  "hex_digit n = ''0123456789abcdef'' ! (n mod 16)"

text \<open>\<open>hex.EncodeToString\<close>.\<close>

definition hex_encode :: "nat list \<Rightarrow> string" where
  "hex_encode bs = concat (map (\<lambda>b. [hex_digit (b div 16), hex_digit b]) bs)"

end
