(* ===== verification/Float64.thy ===== *)
theory Float64
imports Complex_Main Go_Prelude
begin

text \<open>
  Go's \<open>float64\<close> as IEEE 754 binary64 with round-to-nearest-even. A finite value is the
  rational number it stands for; the two zeros are identified, so a quotient by zero has the
  sign of its numerator. \<open>rnd\<close> is executable, and the lemmas give what the collector relies
  on: rounding keeps the sign, keeps the order, and is exact on integers up to \<open>2 ^ 53\<close>.
\<close>

datatype float64 = NaN | PInf | NInf | Fin rat

subsection \<open>Rounding\<close>

fun blen :: "nat \<Rightarrow> nat" where
  "blen n = (if n = 0 then 0 else Suc (blen (n div 2)))"

definition ilog2 :: "rat \<Rightarrow> int" where
  "ilog2 a = (let (p, d) = quotient_of a;
                  k = int (blen (nat p)) - int (blen (nat d))
              in if 2 powi k \<le> a then k else k - 1)"

definition half_even :: "rat \<Rightarrow> int" where
  "half_even q = (let n = \<lfloor>q\<rfloor>; r = q - of_int n in
     if r < 1 / 2 then n else if r > 1 / 2 then n + 1 else if even n then n else n + 1)"

definition ulp_exp :: "rat \<Rightarrow> int" where
  "ulp_exp a = max (ilog2 a - 52) (- 1074)"

definition rnd_pos :: "rat \<Rightarrow> rat" where
  "rnd_pos a = of_int (half_even (a / 2 powi ulp_exp a)) * 2 powi ulp_exp a"

definition f64_limit :: rat where "f64_limit = 2 ^ 1024"

definition rnd :: "rat \<Rightarrow> float64" where
  "rnd q = (if q = 0 then Fin 0
            else if rnd_pos \<bar>q\<bar> \<ge> f64_limit then (if q > 0 then PInf else NInf)
            else Fin (sgn q * rnd_pos \<bar>q\<bar>))"

declare blen.simps [simp del]

subsection \<open>Operations\<close>

definition fneg :: "float64 \<Rightarrow> float64" where
  "fneg x = (case x of NaN \<Rightarrow> NaN | PInf \<Rightarrow> NInf | NInf \<Rightarrow> PInf | Fin a \<Rightarrow> Fin (- a))"

fun fadd :: "float64 \<Rightarrow> float64 \<Rightarrow> float64" where
  "fadd (Fin a) (Fin b) = rnd (a + b)"
| "fadd NaN y = NaN"
| "fadd x NaN = NaN"
| "fadd PInf NInf = NaN"
| "fadd NInf PInf = NaN"
| "fadd PInf y = PInf"
| "fadd NInf y = NInf"
| "fadd x y = y"

definition fsub :: "float64 \<Rightarrow> float64 \<Rightarrow> float64" where
  "fsub x y = fadd x (fneg y)"

text \<open>The sign of a non-NaN value, zero counting as positive.\<close>

definition fpos :: "float64 \<Rightarrow> bool" where
  "fpos x = (case x of NaN \<Rightarrow> False | PInf \<Rightarrow> True | NInf \<Rightarrow> False | Fin a \<Rightarrow> a \<ge> 0)"

definition finf :: "bool \<Rightarrow> float64" where
  "finf pos = (if pos then PInf else NInf)"

fun fmul :: "float64 \<Rightarrow> float64 \<Rightarrow> float64" where
  "fmul (Fin a) (Fin b) = rnd (a * b)"
| "fmul NaN y = NaN"
| "fmul x NaN = NaN"
| "fmul x y = (if x = Fin 0 \<or> y = Fin 0 then NaN else finf (fpos x = fpos y))"

fun fdiv :: "float64 \<Rightarrow> float64 \<Rightarrow> float64" where
  "fdiv (Fin a) (Fin b) = (if b = 0 then (if a = 0 then NaN else finf (a > 0)) else rnd (a / b))"
| "fdiv NaN y = NaN"
| "fdiv x NaN = NaN"
| "fdiv (Fin a) y = Fin 0"
| "fdiv x (Fin b) = finf (fpos x = (b \<ge> 0))"
| "fdiv x y = NaN"

fun flt :: "float64 \<Rightarrow> float64 \<Rightarrow> bool" where
  "flt (Fin a) (Fin b) = (a < b)"
| "flt NaN y = False"
| "flt x NaN = False"
| "flt NInf y = (y \<noteq> NInf)"
| "flt x PInf = (x \<noteq> PInf)"
| "flt x y = False"

definition feq :: "float64 \<Rightarrow> float64 \<Rightarrow> bool" where
  "feq x y = (x = y \<and> x \<noteq> NaN)"

definition fle :: "float64 \<Rightarrow> float64 \<Rightarrow> bool" where
  "fle x y = (flt x y \<or> feq x y)"

definition of_int64 :: "int \<Rightarrow> float64" where
  "of_int64 i = rnd (of_int i)"

definition fzero :: float64 where "fzero = Fin 0"

text \<open>Truncation to \<open>int64\<close>; out of range and for NaN the value amd64 gives.\<close>

definition to_int64 :: "float64 \<Rightarrow> int" where
  "to_int64 x = (case x of
      Fin a \<Rightarrow> (let t = (if a \<ge> 0 then \<lfloor>a\<rfloor> else - \<lfloor>- a\<rfloor>) in
                if - (2 ^ 63) \<le> t \<and> t < 2 ^ 63 then t else - (2 ^ 63))
    | _ \<Rightarrow> - (2 ^ 63))"

definition math_Floor :: "float64 \<Rightarrow> float64" where
  "math_Floor x = (case x of Fin a \<Rightarrow> Fin (of_int \<lfloor>a\<rfloor>) | _ \<Rightarrow> x)"

definition math_Ceil :: "float64 \<Rightarrow> float64" where
  "math_Ceil x = (case x of Fin a \<Rightarrow> Fin (of_int \<lceil>a\<rceil>) | _ \<Rightarrow> x)"

text \<open>Half away from zero.\<close>

definition math_Round :: "float64 \<Rightarrow> float64" where
  "math_Round x = (case x of
      Fin a \<Rightarrow> Fin (if a \<ge> 0 then of_int \<lfloor>a + 1 / 2\<rfloor> else - of_int \<lfloor>- a + 1 / 2\<rfloor>)
    | _ \<Rightarrow> x)"

subsection \<open>Lemmas on rounding\<close>

lemma blen_bounds: "0 < n \<Longrightarrow> 2 ^ (blen n - 1) \<le> n \<and> n < 2 ^ blen n"
proof (induction n rule: blen.induct)
  case (1 n)
  show ?case
  proof (cases "n = 1")
    case False
    with 1 have "2 ^ (blen (n div 2) - 1) \<le> n div 2 \<and> n div 2 < 2 ^ blen (n div 2)" by simp
    moreover have "0 < blen (n div 2)"
      using 1 False by (subst blen.simps) auto
    ultimately show ?thesis
      using 1 False by (subst (1 2) blen.simps) (cases "blen (n div 2)"; auto)
  qed (simp add: blen.simps)
qed

lemma powi_mono2: "i \<le> j \<Longrightarrow> (2::rat) powi i \<le> 2 powi j"
  by (simp add: power_int_increasing)

lemma powi_less2: "(2::rat) powi i < 2 powi j \<Longrightarrow> i < j"
  by (meson leD leI powi_mono2)

lemma powi_less_iff2 [simp]: "(2::rat) powi i < 2 powi j \<longleftrightarrow> i < j"
  using power_int_strict_increasing [of i j "2::rat"] powi_less2 by auto

lemma powi_le_iff2 [simp]: "(2::rat) powi i \<le> 2 powi j \<longleftrightarrow> i \<le> j"
  by (simp flip: not_less)

lemma powi_plus2: "(2::rat) powi i * 2 powi j = 2 powi (i + j)"
  by (rule power_int_add [symmetric]) simp

lemma blen_bounds_rat:
  assumes "0 < p"
  shows "2 powi (int (blen (nat p)) - 1) \<le> (of_int p :: rat)"
    and "(of_int p :: rat) < 2 powi int (blen (nat p))"
proof -
  obtain n where p: "p = int n" using assms by (metis pos_int_cases)
  have n: "0 < n" using assms p by simp
  have len: "0 < blen n" using n by (subst blen.simps) simp
  have b: "2 ^ (blen n - 1) \<le> n" "n < 2 ^ blen n" using blen_bounds [OF n] by auto
  have "(of_nat (2 ^ (blen n - 1)) :: rat) \<le> of_nat n" using b(1) by (simp only: of_nat_le_iff)
  moreover have "(2::rat) powi (int (blen n) - 1) = of_nat (2 ^ (blen n - 1))"
    using len by (cases "blen n") simp_all
  ultimately show "2 powi (int (blen (nat p)) - 1) \<le> (of_int p :: rat)" by (simp add: p)
  have "(of_nat n :: rat) < of_nat (2 ^ blen n)" using b(2) by (simp only: of_nat_less_iff)
  then show "(of_int p :: rat) < 2 powi int (blen (nat p))" by (simp add: p)
qed

lemma quotient_blen:
  assumes "0 < a" "quotient_of a = (p, d)"
  shows "2 powi (int (blen (nat p)) - int (blen (nat d)) - 1) < a"
    and "a < 2 powi (int (blen (nat p)) - int (blen (nat d)) + 1)"
proof -
  define i j where "i = int (blen (nat p))" and "j = int (blen (nat d))"
  have d: "0 < d" using quotient_of_denom_pos assms(2) by blast
  have a: "a = of_int p / of_int d" using quotient_of_div assms(2) by blast
  have p: "0 < p" using assms(1) d by (simp add: a zero_less_divide_iff)
  have d0: "(0::rat) < of_int d" using d by simp
  note bp = blen_bounds_rat [OF p, folded i_def] and bd = blen_bounds_rat [OF d, folded j_def]
  have "2 powi (i - j - 1) * (of_int d :: rat) < 2 powi (i - j - 1) * 2 powi j"
    by (rule mult_strict_left_mono [OF bd(2)]) simp
  also have "\<dots> = 2 powi (i - 1)" by (simp only: powi_plus2) simp
  also have "\<dots> \<le> of_int p" by (rule bp(1))
  finally show "2 powi (int (blen (nat p)) - int (blen (nat d)) - 1) < a"
    unfolding a i_def [symmetric] j_def [symmetric] by (simp only: pos_less_divide_eq [OF d0])
  have "of_int p < (2::rat) powi i" by (rule bp(2))
  also have "\<dots> = 2 powi (i - j + 1) * 2 powi (j - 1)" by (simp only: powi_plus2) simp
  also have "\<dots> \<le> 2 powi (i - j + 1) * of_int d"
    by (rule mult_left_mono [OF bd(1)]) simp
  finally show "a < 2 powi (int (blen (nat p)) - int (blen (nat d)) + 1)"
    unfolding a i_def [symmetric] j_def [symmetric] by (simp only: pos_divide_less_eq [OF d0])
qed

lemma ilog2_bounds:
  assumes "0 < a"
  shows "2 powi ilog2 a \<le> a" "a < 2 powi (ilog2 a + 1)"
proof -
  obtain p d where q: "quotient_of a = (p, d)" by (cases "quotient_of a")
  show "2 powi ilog2 a \<le> a" "a < 2 powi (ilog2 a + 1)"
    using quotient_blen [OF assms q] by (auto simp: ilog2_def q Let_def)
qed

lemma ilog2_eqI: "2 powi k \<le> a \<Longrightarrow> a < 2 powi (k + 1) \<Longrightarrow> ilog2 a = k"
proof -
  assume k: "2 powi k \<le> a" "a < 2 powi (k + 1)"
  then have a: "0 < a" by (meson less_le_trans zero_less_numeral zero_less_power_int)
  have "2 powi k < (2::rat) powi (ilog2 a + 1)" "2 powi ilog2 a < (2::rat) powi (k + 1)"
    using k ilog2_bounds [OF a] by (meson le_less_trans)+
  then show ?thesis by simp
qed

lemma ilog2_mono: "0 < a \<Longrightarrow> a \<le> b \<Longrightarrow> ilog2 a \<le> ilog2 b"
proof -
  assume "0 < a" "a \<le> b"
  then have "2 powi ilog2 a < (2::rat) powi (ilog2 b + 1)"
    by (meson ilog2_bounds le_less_trans less_le_trans order_trans)
  then show ?thesis by simp
qed

lemma half_even_le: "q \<le> of_int n \<Longrightarrow> half_even q \<le> n"
  by (auto simp: half_even_def Let_def floor_le_iff)

lemma half_even_ge: "of_int n \<le> q \<Longrightarrow> n \<le> half_even q"
proof -
  assume "of_int n \<le> q"
  then have "n \<le> \<lfloor>q\<rfloor>" by (simp add: le_floor_iff)
  then show ?thesis by (simp add: half_even_def Let_def)
qed

lemma half_even_of_int [simp]: "half_even (of_int n) = n"
  by (simp add: half_even_def)

lemma half_even_mono: "p \<le> q \<Longrightarrow> half_even p \<le> half_even q"
proof -
  assume pq: "p \<le> q"
  show ?thesis
  proof (cases "\<lfloor>p\<rfloor> = \<lfloor>q\<rfloor>")
    case True
    define n where "n = \<lfloor>q\<rfloor>"
    have "p - of_int n \<le> q - of_int n" using pq by simp
    then show ?thesis
      unfolding half_even_def Let_def True n_def [symmetric] by simp
  next
    case False
    with pq have "\<lfloor>p\<rfloor> + 1 \<le> \<lfloor>q\<rfloor>" using floor_mono [of p q] by linarith
    moreover have "half_even p \<le> \<lfloor>p\<rfloor> + 1" by (simp add: half_even_def Let_def)
    moreover have "\<lfloor>q\<rfloor> \<le> half_even q" by (simp add: half_even_def Let_def)
    ultimately show ?thesis by linarith
  qed
qed

lemma ulp_scale_bound:
  assumes "0 < a" shows "a / 2 powi ulp_exp a \<le> 2 ^ 53"
proof -
  have "a \<le> 2 powi (ilog2 a + 1)" using ilog2_bounds(2) [OF assms] by simp
  also have "\<dots> \<le> 2 powi (53 + ulp_exp a)" by (simp add: ulp_exp_def)
  also have "\<dots> = 2 ^ 53 * 2 powi ulp_exp a" by (simp add: power_int_add)
  finally show ?thesis by (simp add: pos_divide_le_eq)
qed

lemma rnd_pos_upper:
  assumes "0 < a" shows "rnd_pos a \<le> 2 powi (53 + ulp_exp a)"
proof -
  have "half_even (a / 2 powi ulp_exp a) \<le> 2 ^ 53"
    using ulp_scale_bound [OF assms] by (intro half_even_le) simp
  then have "of_int (half_even (a / 2 powi ulp_exp a)) \<le> (2 ^ 53 :: rat)"
    by (metis of_int_le_iff of_int_numeral of_int_power)
  then show ?thesis
    by (simp add: rnd_pos_def power_int_add mult_right_mono)
qed

lemma rnd_pos_lower:
  assumes "0 < a" "2 powi (52 + ulp_exp a) \<le> a" shows "2 powi (52 + ulp_exp a) \<le> rnd_pos a"
proof -
  have "(2::rat) ^ 52 \<le> a / 2 powi ulp_exp a"
    using assms(2) by (simp add: power_int_add pos_le_divide_eq)
  then have "2 ^ 52 \<le> half_even (a / 2 powi ulp_exp a)"
    by (intro half_even_ge) simp
  then have "(2 ^ 52 :: rat) \<le> of_int (half_even (a / 2 powi ulp_exp a))"
    by (metis of_int_le_iff of_int_numeral of_int_power)
  then show ?thesis
    by (simp add: rnd_pos_def power_int_add mult_right_mono)
qed

lemma rnd_pos_nonneg: "0 < a \<Longrightarrow> 0 \<le> rnd_pos a"
  using half_even_ge [of 0 "a / 2 powi ulp_exp a"] by (simp add: rnd_pos_def)

theorem rnd_pos_mono:
  assumes "0 < a" "a \<le> b" shows "rnd_pos a \<le> rnd_pos b"
proof (cases "ulp_exp a = ulp_exp b")
  case True
  have "half_even (a / 2 powi ulp_exp b) \<le> half_even (b / 2 powi ulp_exp b)"
    using assms by (intro half_even_mono) (simp add: divide_right_mono)
  then show ?thesis
    unfolding rnd_pos_def True by (simp add: mult_right_mono)
next
  case False
  have lt: "ulp_exp a < ulp_exp b"
    using False ilog2_mono [OF assms] unfolding ulp_exp_def by linarith
  then have "52 + ulp_exp b = ilog2 b" unfolding ulp_exp_def by linarith
  then have b: "2 powi (52 + ulp_exp b) \<le> b"
    using ilog2_bounds(1) [of b] assms by simp
  have "rnd_pos a \<le> 2 powi (53 + ulp_exp a)"
    using assms(1) by (rule rnd_pos_upper)
  also have "\<dots> \<le> 2 powi (52 + ulp_exp b)" using lt by simp
  also have "\<dots> \<le> rnd_pos b" using assms b by (intro rnd_pos_lower) auto
  finally show ?thesis .
qed


text \<open>Integers of at most 53 bits are values of \<open>float64\<close>.\<close>

lemma rnd_pos_int:
  assumes "0 < n" "n \<le> 2 ^ 53" shows "rnd_pos (of_int n) = of_int n"
proof (cases "n = 2 ^ 53")
  case True
  have "ilog2 (2 ^ 53) = 53" by (rule ilog2_eqI) simp_all
  then have "ulp_exp (2 ^ 53) = 1" by (simp add: ulp_exp_def)
  moreover have "half_even (2 ^ 52) = 2 ^ 52" using half_even_of_int [of "2 ^ 52"] by simp
  ultimately show ?thesis by (simp add: rnd_pos_def True)
next
  case False
  have pos: "(0::rat) < of_int n" using assms by simp
  have "rat_of_int n < 2 ^ 53"
    using assms False by (metis of_int_less_iff of_int_numeral of_int_power order_le_imp_less_or_eq)
  then have "(2::rat) powi ilog2 (of_int n) < 2 powi 53"
    using ilog2_bounds(1) [OF pos] by (simp add: order_le_less_trans)
  then have "ilog2 (of_int n) < 53" by (rule powi_less2)
  then have e: "ulp_exp (of_int n) \<le> 0" by (simp add: ulp_exp_def)
  then obtain k where k: "ulp_exp (of_int n) = - int k"
    by (metis nonneg_int_cases neg_0_le_iff_le minus_minus)
  have "rat_of_int n / 2 powi (- int k) = of_int (n * 2 ^ k)"
    by (simp add: power_int_minus field_simps)
  then have "half_even (rat_of_int n / 2 powi (- int k)) = n * 2 ^ k"
    using half_even_of_int by metis
  then have "rnd_pos (of_int n) = of_int (n * 2 ^ k) * 2 powi (- int k)"
    by (simp only: rnd_pos_def k)
  then show ?thesis by (simp add: power_int_minus)
qed


lemma f64_limit_gt: "2 ^ 53 < f64_limit"
  unfolding f64_limit_def by (rule power_strict_increasing) simp_all

lemma rnd_int:
  assumes "\<bar>n\<bar> \<le> 2 ^ 53" shows "rnd (of_int n) = Fin (of_int n)"
proof (cases "n = 0")
  case False
  define m where "m = \<bar>n\<bar>"
  have m: "0 < m" "m \<le> 2 ^ 53" using False assms by (simp_all add: m_def)
  then have r: "rnd_pos (of_int m) = of_int m" by (rule rnd_pos_int)
  have "rat_of_int m \<le> of_int (2 ^ 53)" using m(2) by (subst of_int_le_iff)
  then have l: "\<not> f64_limit \<le> rat_of_int m" using f64_limit_gt by simp
  have abs: "\<bar>rat_of_int n\<bar> = of_int m" by (simp add: m_def)
  have sgn: "sgn (rat_of_int n) * of_int m = of_int n" by (simp add: m_def sgn_if)
  show ?thesis
    unfolding rnd_def abs r using l False sgn by simp
qed (simp add: rnd_def)

lemma of_int64_exact: "\<bar>n\<bar> \<le> 2 ^ 53 \<Longrightarrow> of_int64 n = Fin (of_int n)"
  by (simp add: of_int64_def rnd_int)

lemma rnd_0 [simp]: "rnd 0 = Fin 0"
  by (simp add: rnd_def)

text \<open>Rounding keeps the sign and never gives NaN.\<close>

lemma rnd_not_NaN [simp]: "rnd q \<noteq> NaN"
  by (simp add: rnd_def)

lemma NaN_not_rnd [simp]: "NaN \<noteq> rnd q"
  by (metis rnd_not_NaN)

lemma rnd_nonneg: "0 \<le> q \<Longrightarrow> fpos (rnd q)"
  using rnd_pos_nonneg [of q] by (simp add: rnd_def fpos_def sgn_if)

lemma fle_Fin [simp]: "fle (Fin a) (Fin b) \<longleftrightarrow> a \<le> b"
  by (auto simp: fle_def feq_def)

lemma rnd_mono_nonneg:
  assumes "0 \<le> a" "a \<le> b" shows "fle (rnd a) (rnd b)"
proof (cases "a = 0")
  case True
  then show ?thesis
    using rnd_nonneg [of b] assms by (cases "rnd b") (auto simp: fpos_def fle_def feq_def)
next
  case False
  with assms have "rnd_pos a \<le> rnd_pos b" by (intro rnd_pos_mono) auto
  with False assms show ?thesis
    by (auto simp: rnd_def sgn_if fle_def feq_def)
qed

subsection \<open>The order that sort.Float64s uses: NaN first\<close>

instantiation float64 :: linorder
begin

definition less_eq_float64 :: "float64 \<Rightarrow> float64 \<Rightarrow> bool" where
  "less_eq_float64 x y = (x = NaN \<or> fle x y)"

definition less_float64 :: "float64 \<Rightarrow> float64 \<Rightarrow> bool" where
  "less_float64 x y = ((x = NaN \<and> y \<noteq> NaN) \<or> flt x y)"

instance
proof
  fix x y z :: float64
  show "x < y \<longleftrightarrow> x \<le> y \<and> \<not> y \<le> x"
    by (cases x; cases y) (auto simp: less_eq_float64_def less_float64_def fle_def feq_def)
  show "x \<le> x"
    by (cases x) (simp_all add: less_eq_float64_def fle_def feq_def)
  show "x \<le> y \<Longrightarrow> y \<le> z \<Longrightarrow> x \<le> z"
    by (cases x; cases y; cases z) (auto simp: less_eq_float64_def fle_def feq_def)
  show "x \<le> y \<Longrightarrow> y \<le> x \<Longrightarrow> x = y"
    by (cases x; cases y) (auto simp: less_eq_float64_def fle_def feq_def)
  show "x \<le> y \<or> y \<le> x"
    by (cases x; cases y) (auto simp: less_eq_float64_def fle_def feq_def)
qed

end

lemma flt_iff: "flt x y \<longleftrightarrow> x < y \<and> x \<noteq> NaN"
  by (cases x; cases y) (auto simp: less_float64_def)

lemma fle_iff: "fle x y \<longleftrightarrow> x \<le> y \<and> x \<noteq> NaN"
  by (cases x; cases y) (auto simp: less_eq_float64_def fle_def feq_def)

end
