(* ===== verification/Go_Values.thy ===== *)
theory Go_Values
imports Float64
begin

text \<open>
  Dynamically typed values (Go's \<open>any\<close>), as configuration maps and metric fields hold them,
  and instants and durations in nanoseconds. A value of a sized integer type carries the
  integer itself, which lies in the range of that type; arithmetic on it is written with
  \<open>wrap64\<close>. A \<open>float32\<close> carries the \<open>float64\<close> with the same value.
\<close>

datatype goval =
    GNil
  | GBool bool
  | GInt int
  | GInt32 int
  | GInt64 int
  | GUint int
  | GUint32 int
  | GUint64 int
  | GFloat32 float64
  | GFloat64 float64
  | GString string
  | GList "goval list"
  | GMap "(string \<times> goval) list"

text \<open>Type assertions with the two-value form.\<close>

definition as_string :: "goval \<Rightarrow> string option" where
  "as_string v = (case v of GString s \<Rightarrow> Some s | _ \<Rightarrow> None)"

definition as_list :: "goval \<Rightarrow> goval list option" where
  "as_list v = (case v of GList xs \<Rightarrow> Some xs | _ \<Rightarrow> None)"

definition as_map :: "goval \<Rightarrow> goval gomap option" where
  "as_map v = (case v of GMap m \<Rightarrow> Some m | _ \<Rightarrow> None)"

text \<open>Instants count nanoseconds from the Unix epoch; \<open>zero_time\<close> is the zero \<open>time.Time\<close>.\<close>

type_synonym time = int
type_synonym duration = int

definition zero_time :: time where "zero_time = - 62135596800 * 10 ^ 9"
definition Second :: duration where "Second = 10 ^ 9"
definition Millisecond :: duration where "Millisecond = 10 ^ 6"

definition UnixMilli :: "time \<Rightarrow> int" where
  "UnixMilli t = t div 10 ^ 6"

text \<open>\<open>Time.Sub\<close> saturates at the ends of the \<open>Duration\<close> range.\<close>

definition time_sub :: "time \<Rightarrow> time \<Rightarrow> duration" where
  "time_sub t u = max (- (2 ^ 63)) (min (2 ^ 63 - 1) (t - u))"

definition Seconds :: "duration \<Rightarrow> float64" where
  "Seconds d = (let sec = quot64 d Second; nsec = d - sec * Second
                in fadd (of_int64 sec) (fdiv (of_int64 nsec) (of_int64 (10 ^ 9))))"

text \<open>Strings of a list of \<open>any\<close>, up to the first element that is not a string.\<close>

fun string_entries :: "string \<Rightarrow> goval list \<Rightarrow> string list result" where
  "string_entries msg [] = Inr []"
| "string_entries msg (v # vs) =
     (case as_string v of
        None \<Rightarrow> Inl msg
      | Some s \<Rightarrow> (case string_entries msg vs of Inl e \<Rightarrow> Inl e | Inr ss \<Rightarrow> Inr (s # ss)))"

lemma string_entries_map [simp]: "string_entries msg (map GString ss) = Inr ss"
  by (induction ss) (simp_all add: as_string_def)

lemma string_entries_InrD: "string_entries msg vs = Inr ss \<Longrightarrow> vs = map GString ss"
  by (induction vs arbitrary: ss)
     (auto simp: as_string_def split: goval.splits option.splits sum.splits)

end
