(* ===== verification/Interfaces.thy ===== *)
theory Interfaces
imports Go_Prelude
begin

text \<open>
  The contracts several components share, as locales, with the facts their clients use proved
  once: bounded first-in-first-out stores that drop the oldest element, keyed stores, and
  windowed accumulators (aggregators). Each provider interprets the locale in its own theory.
\<close>

definition last_n :: "nat \<Rightarrow> 'a list \<Rightarrow> 'a list" where
  "last_n n xs = drop (length xs - n) xs"

lemma last_n_id [simp]: "length xs \<le> n \<Longrightarrow> last_n n xs = xs"
  by (simp add: last_n_def)

lemma length_last_n [simp]: "length (last_n n xs) = min n (length xs)"
  by (simp add: last_n_def)

lemma last_n_append: "last_n n (last_n n xs @ ys) = last_n n (xs @ ys)"
proof (cases "length xs \<le> n")
  case False
  then have "last_n n (last_n n xs @ ys) = drop (length ys) (drop (length xs - n) xs @ ys)"
    by (simp add: last_n_def)
  also have "\<dots> = drop (length (xs @ ys) - n) (xs @ ys)"
    using False by (cases "length ys \<le> n") (simp_all add: add.commute)
  finally show ?thesis by (simp add: last_n_def)
qed simp

subsection \<open>Bounded stores\<close>

primrec add_all :: "('a \<Rightarrow> 'q \<Rightarrow> 'q option) \<Rightarrow> 'a list \<Rightarrow> 'q \<Rightarrow> 'q option" where
  "add_all add [] q = Some q"
| "add_all add (x # xs) q = (case add x q of None \<Rightarrow> None | Some q' \<Rightarrow> add_all add xs q')"

locale bounded_fifo =
  fixes add :: "'a \<Rightarrow> 'q \<Rightarrow> 'q option"
    and contents :: "'q \<Rightarrow> 'a list"
    and capacity :: "'q \<Rightarrow> nat"
    and ok :: "'q \<Rightarrow> bool"
  assumes bounded: "ok q \<Longrightarrow> length (contents q) \<le> capacity q"
    and add_step: "ok q \<Longrightarrow> \<exists>q'. add x q = Some q' \<and> ok q' \<and> capacity q' = capacity q
                     \<and> contents q' = last_n (capacity q) (contents q @ [x])"
begin

lemma add_all_contents:
  "ok q \<Longrightarrow> \<exists>q'. add_all add xs q = Some q' \<and> ok q' \<and> capacity q' = capacity q
     \<and> contents q' = last_n (capacity q) (contents q @ xs)"
proof (induction xs arbitrary: q)
  case Nil
  then show ?case using bounded by simp
next
  case (Cons x xs)
  obtain q1 where q1: "add x q = Some q1" "ok q1" "capacity q1 = capacity q"
      "contents q1 = last_n (capacity q) (contents q @ [x])"
    using add_step Cons.prems by blast
  obtain q2 where q2: "add_all add xs q1 = Some q2" "ok q2" "capacity q2 = capacity q1"
      "contents q2 = last_n (capacity q1) (contents q1 @ xs)"
    using Cons.IH q1(2) by blast
  have "contents q2 = last_n (capacity q) ((contents q @ [x]) @ xs)"
    using q1 q2 last_n_append [of "capacity q" "contents q @ [x]" xs] by simp
  with q1 q2 show ?case by simp
qed

lemma add_all_keeps:
  assumes "ok q" "length (contents q) + length xs \<le> capacity q"
  shows "\<exists>q'. add_all add xs q = Some q' \<and> contents q' = contents q @ xs"
  using add_all_contents [OF assms(1), of xs] assms(2) by auto

end

subsection \<open>Keyed stores\<close>

locale keyed_store =
  fixes get :: "'s \<Rightarrow> string \<Rightarrow> 'v option"
    and put :: "string \<Rightarrow> 'v \<Rightarrow> 's \<Rightarrow> 's"
    and del :: "string \<Rightarrow> 's \<Rightarrow> 's"
  assumes get_put: "get (put k v s) = (get s)(k \<mapsto> v)"
    and get_del: "get (del k s) = (get s)(k := None)"
begin

definition put_all :: "(string \<times> 'v) list \<Rightarrow> 's \<Rightarrow> 's" where
  "put_all kvs s = fold (\<lambda>(k, v). put k v) kvs s"

lemma get_put_all: "get (put_all kvs s) = get s ++ map_of (rev kvs)"
  unfolding put_all_def by (induction kvs arbitrary: s) (auto simp: get_put)

lemma put_del_commute: "j \<noteq> k \<Longrightarrow> get (put j v (del k s)) = get (del k (put j v s))"
  by (auto simp: get_put get_del)

end

interpretation gomap: keyed_store map_of map_put map_del
  by unfold_locales simp_all

subsection \<open>Windowed accumulators\<close>

text \<open>
  \<open>add\<close> takes in one sample, \<open>emit\<close> reads the results of the window, \<open>reset\<close> starts a new one. The
  two laws say that a reset state remembers nothing of the samples and emits nothing.
\<close>

locale windowed =
  fixes add :: "'m \<Rightarrow> 's \<Rightarrow> 's"
    and emit :: "'s \<Rightarrow> 'o list"
    and reset :: "'s \<Rightarrow> 's"
  assumes reset_add: "reset (add m s) = reset s"
    and emit_reset: "emit (reset s) = []"
    and reset_reset: "reset (reset s) = reset s"
begin

definition window :: "'m list \<Rightarrow> 's \<Rightarrow> 'o list \<times> 's" where
  "window ms s = (let s' = fold add ms s in (emit s', reset s'))"

lemma reset_fold_add: "reset (fold add ms s) = reset s"
  by (induction ms arbitrary: s) (auto simp: reset_add)

lemma window_state: "snd (window ms s) = reset s"
  by (simp add: window_def Let_def reset_fold_add)

text \<open>What a window emits after any earlier windows is what it emits on its own.\<close>

lemma window_independent:
  "fst (window ms (snd (window ms' s))) = fst (window ms (reset s))"
  by (simp add: window_state)

lemma empty_window: "fst (window [] (snd (window ms s))) = []"
  by (simp add: window_state) (simp add: window_def emit_reset)

end

subsection \<open>Machines with an invariant\<close>

text \<open>A component whose operations, one per event, all keep an invariant.\<close>

locale invariant_machine =
  fixes step :: "'e \<Rightarrow> 's \<Rightarrow> 's"
    and inv :: "'s \<Rightarrow> bool"
  assumes step_inv: "inv s \<Longrightarrow> inv (step e s)"
begin

lemma run_inv: "inv s \<Longrightarrow> inv (fold step es s)"
  by (induction es arbitrary: s) (simp_all add: step_inv)

end

end
