(* ===== verification/Metrics.thy ===== *)
theory Metrics
imports Go_Values Interfaces
begin

text \<open>
  Metrics and the bounded containers that hold them: \<open>internal/collector/metric.go\<close>,
  \<open>util.go\<close>, \<open>accumulator.go\<close> and \<open>buffer.go\<close>. Operations that panic (a negative capacity, an
  index out of range) return \<open>None\<close>.
\<close>

datatype MetricType = Gauge | Counter | Histogram

record Metric =
  m_name :: string
  m_tags :: "string gomap"
  m_fields :: "goval gomap"
  m_timestamp :: time
  m_type :: MetricType

definition NewMetric :: "string \<Rightarrow> string gomap \<Rightarrow> goval gomap \<Rightarrow> MetricType \<Rightarrow> time \<Rightarrow> Metric" where
  "NewMetric name tags flds mt ts =
     \<lparr>m_name = name, m_tags = map_copy [] tags, m_fields = map_copy [] flds,
      m_timestamp = ts, m_type = mt\<rparr>"

definition Tags :: "Metric \<Rightarrow> string gomap" where
  "Tags m = map_copy [] (m_tags m)"

definition Fields :: "Metric \<Rightarrow> goval gomap" where
  "Fields m = map_copy [] (m_fields m)"

definition AddTag :: "string \<Rightarrow> string \<Rightarrow> Metric \<Rightarrow> Metric" where
  "AddTag key val m = m\<lparr>m_tags := map_put key val (m_tags m)\<rparr>"

definition AddField :: "string \<Rightarrow> goval \<Rightarrow> Metric \<Rightarrow> Metric" where
  "AddField key val m = m\<lparr>m_fields := map_put key val (m_fields m)\<rparr>"

text \<open>The protobuf message; a field of another type than the four keeps no value.\<close>

datatype pb_value = NoValue | DoubleValue float64 | IntValue int | StringValue string | BoolValue bool

record PbMetric =
  pb_name :: string
  pb_tags :: "string gomap"
  pb_fields :: "(string \<times> pb_value) list"
  pb_timestamp_ms :: int
  pb_type :: MetricType

definition pb_of :: "goval \<Rightarrow> pb_value" where
  "pb_of v = (case v of GFloat64 f \<Rightarrow> DoubleValue f | GInt64 i \<Rightarrow> IntValue i
                | GString s \<Rightarrow> StringValue s | GBool b \<Rightarrow> BoolValue b | _ \<Rightarrow> NoValue)"

definition ToProto :: "Metric \<Rightarrow> PbMetric" where
  "ToProto m = \<lparr>pb_name = m_name m, pb_tags = m_tags m,
     pb_fields = map (\<lambda>(k, v). (k, pb_of v)) (m_fields m),
     pb_timestamp_ms = UnixMilli (m_timestamp m), pb_type = m_type m\<rparr>"

subsection \<open>util.go\<close>

definition ToFloat64 :: "goval \<Rightarrow> float64 option" where
  "ToFloat64 v = (case v of
      GFloat64 f \<Rightarrow> Some f | GFloat32 f \<Rightarrow> Some f
    | GInt i \<Rightarrow> Some (of_int64 i) | GInt32 i \<Rightarrow> Some (of_int64 i) | GInt64 i \<Rightarrow> Some (of_int64 i)
    | GUint i \<Rightarrow> Some (of_int64 i) | GUint32 i \<Rightarrow> Some (of_int64 i) | GUint64 i \<Rightarrow> Some (of_int64 i)
    | _ \<Rightarrow> None)"

text \<open>The first number among the values, in the order given.\<close>

fun first_number :: "goval option list \<Rightarrow> float64 option" where
  "first_number [] = None"
| "first_number (None # vs) = first_number vs"
| "first_number (Some v # vs) = (case ToFloat64 v of Some f \<Rightarrow> Some f | None \<Rightarrow> first_number vs)"

text \<open>\<open>order\<close> is the sequence in which \<open>range fields\<close> visits the map.\<close>

definition ExtractNumericValue :: "goval gomap \<Rightarrow> goval gomap \<Rightarrow> float64" where
  "ExtractNumericValue flds order =
     (case first_number (map (map_of flds) [''value'', ''count'', ''gauge''] @ map (Some \<circ> snd) order) of
        Some f \<Rightarrow> f | None \<Rightarrow> fzero)"

subsection \<open>accumulator.go\<close>

record accumulator =
  acc_metrics :: "Metric list"
  acc_maxSize :: int

definition NewAccumulator :: "int \<Rightarrow> accumulator option" where
  "NewAccumulator maxSize =
     (if maxSize < 0 then None else Some \<lparr>acc_metrics = [], acc_maxSize = maxSize\<rparr>)"

definition acc_add :: "string \<Rightarrow> string gomap \<Rightarrow> goval gomap \<Rightarrow> MetricType \<Rightarrow> time \<Rightarrow> accumulator \<Rightarrow> accumulator" where
  "acc_add name tags flds mt ts a =
     (if int (length (acc_metrics a)) \<ge> acc_maxSize a then a
      else a\<lparr>acc_metrics := acc_metrics a @ [NewMetric name tags flds mt ts]\<rparr>)"

definition AddFields :: "time \<Rightarrow> string \<Rightarrow> string gomap \<Rightarrow> goval gomap \<Rightarrow> accumulator \<Rightarrow> accumulator" where
  "AddFields now name tags flds = acc_add name tags flds Gauge now"

definition AddGauge :: "time \<Rightarrow> string \<Rightarrow> string gomap \<Rightarrow> goval gomap \<Rightarrow> accumulator \<Rightarrow> accumulator" where
  "AddGauge now name tags flds = acc_add name tags flds Gauge now"

definition AddCounter :: "time \<Rightarrow> string \<Rightarrow> string gomap \<Rightarrow> goval gomap \<Rightarrow> accumulator \<Rightarrow> accumulator" where
  "AddCounter now name tags flds = acc_add name tags flds Counter now"

definition AddFieldsWithTimestamp :: "string \<Rightarrow> string gomap \<Rightarrow> goval gomap \<Rightarrow> time \<Rightarrow> accumulator \<Rightarrow> accumulator" where
  "AddFieldsWithTimestamp name tags flds ts = acc_add name tags flds Gauge ts"

definition AddGaugeWithTimestamp :: "string \<Rightarrow> string gomap \<Rightarrow> goval gomap \<Rightarrow> time \<Rightarrow> accumulator \<Rightarrow> accumulator" where
  "AddGaugeWithTimestamp name tags flds ts = acc_add name tags flds Gauge ts"

definition AddCounterWithTimestamp :: "string \<Rightarrow> string gomap \<Rightarrow> goval gomap \<Rightarrow> time \<Rightarrow> accumulator \<Rightarrow> accumulator" where
  "AddCounterWithTimestamp name tags flds ts = acc_add name tags flds Counter ts"

definition Collect :: "accumulator \<Rightarrow> Metric list \<times> accumulator" where
  "Collect a = (acc_metrics a, a\<lparr>acc_metrics := []\<rparr>)"

subsection \<open>buffer.go\<close>

datatype DropPolicy = DropNewest | DropOldest

record Buffer =
  buf_metrics :: "Metric list"
  buf_maxSize :: int
  buf_batchSize :: int
  buf_dropPolicy :: DropPolicy

definition NewBuffer :: "int \<Rightarrow> int \<Rightarrow> DropPolicy \<Rightarrow> Buffer option" where
  "NewBuffer maxSize batchSize policy =
     (if maxSize < 0 then None
      else Some \<lparr>buf_metrics = [], buf_maxSize = maxSize, buf_batchSize = batchSize,
                 buf_dropPolicy = policy\<rparr>)"

definition buf_Add :: "Metric \<Rightarrow> Buffer \<Rightarrow> Buffer option" where
  "buf_Add m b =
     (if int (length (buf_metrics b)) \<ge> buf_maxSize b then
        (case buf_dropPolicy b of
           DropNewest \<Rightarrow> Some b
         | DropOldest \<Rightarrow> (case buf_metrics b of
               [] \<Rightarrow> None
             | _ # ms \<Rightarrow> Some (b\<lparr>buf_metrics := ms @ [m]\<rparr>)))
      else Some (b\<lparr>buf_metrics := buf_metrics b @ [m]\<rparr>))"

definition buf_Batch :: "Buffer \<Rightarrow> (Metric list \<times> Buffer) option" where
  "buf_Batch b =
     (let n = min (buf_batchSize b) (int (length (buf_metrics b)))
      in if n < 0 then None
         else Some (take (nat n) (buf_metrics b), b\<lparr>buf_metrics := drop (nat n) (buf_metrics b)\<rparr>))"

definition buf_Len :: "Buffer \<Rightarrow> nat" where
  "buf_Len b = length (buf_metrics b)"

subsection \<open>Lemmas\<close>

lemma map_copy_id [simp]: "map_ok m \<Longrightarrow> map_copy [] m = m"
  by (intro map_ok_ext) (auto intro: inv_intros simp: map_of_copy)

definition metric_ok :: "Metric \<Rightarrow> bool" where
  "metric_ok m = (map_ok (m_tags m) \<and> map_ok (m_fields m))"

lemma NewMetric_ok [inv_intros]: "metric_ok (NewMetric name tags flds mt ts)"
  by (simp add: metric_ok_def NewMetric_def map_ok_copy)

lemma Fields_ok [simp]: "metric_ok m \<Longrightarrow> Fields m = m_fields m" "metric_ok m \<Longrightarrow> Tags m = m_tags m"
  by (simp_all add: Fields_def Tags_def metric_ok_def)

lemma AddTag_ok [inv_intros]: "metric_ok m \<Longrightarrow> metric_ok (AddTag k v m)"
  by (simp add: metric_ok_def AddTag_def map_ok_put)

definition acc_ok :: "accumulator \<Rightarrow> bool" where
  "acc_ok a = (int (length (acc_metrics a)) \<le> acc_maxSize a \<and> list_all metric_ok (acc_metrics a))"

lemma acc_add_ok [inv_intros]: "acc_ok a \<Longrightarrow> acc_ok (acc_add name tags flds mt ts a)"
  by (auto simp: acc_ok_def acc_add_def intro: inv_intros)

definition buf_ok :: "Buffer \<Rightarrow> bool" where
  "buf_ok b = (int (length (buf_metrics b)) \<le> buf_maxSize b)"

interpretation old_buf: bounded_fifo buf_Add buf_metrics "\<lambda>b. nat (buf_maxSize b)"
    "\<lambda>b. buf_ok b \<and> 0 < buf_maxSize b \<and> buf_dropPolicy b = DropOldest"
proof
  fix q :: Buffer and x
  assume q: "buf_ok q \<and> 0 < buf_maxSize q \<and> buf_dropPolicy q = DropOldest"
  then show "length (buf_metrics q) \<le> nat (buf_maxSize q)" by (auto simp: buf_ok_def)
  show "\<exists>q'. buf_Add x q = Some q' \<and> (buf_ok q' \<and> 0 < buf_maxSize q' \<and> buf_dropPolicy q' = DropOldest)
      \<and> nat (buf_maxSize q') = nat (buf_maxSize q)
      \<and> buf_metrics q' = last_n (nat (buf_maxSize q)) (buf_metrics q @ [x])"
  proof (cases "int (length (buf_metrics q)) \<ge> buf_maxSize q")
    case True
    with q obtain m ms where ms: "buf_metrics q = m # ms" "int (length (m # ms)) = buf_maxSize q"
      by (cases "buf_metrics q") (auto simp: buf_ok_def)
    then have "nat (buf_maxSize q) = Suc (length ms)" by simp
    with True q ms show ?thesis by (simp add: buf_Add_def buf_ok_def last_n_def)
  next
    case False
    with q show ?thesis by (auto simp: buf_Add_def buf_ok_def)
  qed
qed

lemma add_all_newest:
  assumes "buf_ok b" "buf_dropPolicy b = DropNewest"
  shows "\<exists>b'. add_all buf_Add ms b = Some b' \<and> buf_metrics b' = take (nat (buf_maxSize b)) (buf_metrics b @ ms)"
  using assms
proof (induction ms arbitrary: b)
  case (Cons m ms)
  show ?case
  proof (cases "int (length (buf_metrics b)) \<ge> buf_maxSize b")
    case True
    with Cons.prems have "nat (buf_maxSize b) = length (buf_metrics b)" by (auto simp: buf_ok_def)
    moreover have "buf_Add m b = Some b" using True Cons.prems by (simp add: buf_Add_def)
    ultimately show ?thesis using Cons.IH [OF Cons.prems] by auto
  next
    case False
    let ?b = "b\<lparr>buf_metrics := buf_metrics b @ [m]\<rparr>"
    have "buf_Add m b = Some ?b" using False by (simp add: buf_Add_def)
    moreover have "buf_ok ?b" "buf_dropPolicy ?b = DropNewest" using False Cons.prems by (auto simp: buf_ok_def)
    ultimately show ?thesis using Cons.IH [of ?b] by auto
  qed
qed (auto simp: buf_ok_def)

text \<open>A buffer of a positive capacity n never panics and never holds more than n metrics: with the policy
  DropOldest it holds the last n metrics added, with DropNewest the first n, in the order of their arrival.\<close>

theorem buffer_policies:
  assumes "0 < n" "NewBuffer n bs policy = Some b"
  shows "\<exists>b'. add_all buf_Add ms b = Some b'
    \<and> buf_metrics b' = (case policy of DropOldest \<Rightarrow> last_n (nat n) ms | DropNewest \<Rightarrow> take (nat n) ms)"
proof (cases policy)
  case DropOldest
  with assms old_buf.add_all_contents [of b ms] show ?thesis by (auto simp: NewBuffer_def buf_ok_def)
next
  case DropNewest
  with assms add_all_newest [of b ms] show ?thesis by (auto simp: NewBuffer_def buf_ok_def)
qed

theorem buffer_policies_witness:
  "\<exists>b b'. NewBuffer 1 10 DropOldest = Some b
     \<and> add_all buf_Add [NewMetric ''a'' [] [] Gauge 0, NewMetric ''b'' [] [] Gauge 0] b = Some b'
     \<and> buf_metrics b' = [NewMetric ''b'' [] [] Gauge 0]"
proof -
  obtain b where "NewBuffer 1 10 DropOldest = Some b" by (simp add: NewBuffer_def)
  with buffer_policies [of 1 10 DropOldest b "[NewMetric ''a'' [] [] Gauge 0, NewMetric ''b'' [] [] Gauge 0]"]
  show ?thesis by (auto simp: last_n_def)
qed

text \<open>Taking batches until the buffer is empty.\<close>

lemma buf_Batch_order:
  "0 \<le> buf_batchSize b \<Longrightarrow> buf_Batch b = Some (out, b') \<Longrightarrow> out @ buf_metrics b' = buf_metrics b \<and> int (length out) \<le> buf_batchSize b"
  by (auto simp: buf_Batch_def Let_def min_def split: if_splits)

end
