(* ===== verification/Aggregators.thy ===== *)
theory Aggregators
imports Metrics Interfaces
begin

text \<open>
  The four aggregators of \<open>internal/collector/aggregators\<close>: avg, minmax, sum and percentile.
  Each has the operations Init, Add, Push and Reset. \<open>Init\<close> gives the initialised
  aggregator or the error; \<open>Push\<close> adds the results to an accumulator.
\<close>

text \<open>One call of an \<open>AddGauge/CounterWithTimestamp\<close> of the accumulator.\<close>

type_synonym emission = "string \<times> string gomap \<times> goval gomap \<times> MetricType"

definition push_all :: "time \<Rightarrow> emission list \<Rightarrow> accumulator \<Rightarrow> accumulator" where
  "push_all now es acc = fold (\<lambda>(n, t, f, ty). acc_add n t f ty now) es acc"

text \<open>The switch on the type of a field value that avg, minmax and percentile share.\<close>

definition sample :: "goval \<Rightarrow> float64 option" where
  "sample v = (case v of GFloat64 f \<Rightarrow> Some f | GInt64 i \<Rightarrow> Some (of_int64 i) | _ \<Rightarrow> None)"

text \<open>Name and tags of the first metric with a matching field.\<close>

definition capture :: "string list \<Rightarrow> Metric \<Rightarrow> string \<times> string gomap \<Rightarrow> string \<times> string gomap" where
  "capture flds m nt =
     (if fst nt = [] \<and> list_ex (\<lambda>f. map_of (Fields m) f \<noteq> None) flds
      then (m_name m, map_copy (snd nt) (Tags m)) else nt)"

text \<open>The \<open>fields\<close> entry of the configuration; an absent entry leaves the fields as they are.\<close>

definition parse_fields :: "string \<Rightarrow> goval gomap \<Rightarrow> string list \<Rightarrow> string list result" where
  "parse_fields what cfg old =
     (case map_of cfg ''fields'' of
        None \<Rightarrow> Inr old
      | Some raw \<Rightarrow> (case as_list raw of
            None \<Rightarrow> Inl (what @ '': \"fields\" must be a list, got %T'')
          | Some xs \<Rightarrow> string_entries (what @ '': field entry %d must be a string, got %T'') xs))"

subsection \<open>avg\<close>

record avg =
  avg_fields :: "string list"
  avg_sums :: "float64 gomap"
  avg_counts :: "int gomap"
  avg_tags :: "string gomap"
  avg_name :: string

definition avg_New :: "string list \<Rightarrow> avg" where
  "avg_New fs = \<lparr>avg_fields = fs, avg_sums = [], avg_counts = [], avg_tags = [], avg_name = []\<rparr>"

definition avg_Init :: "goval gomap \<Rightarrow> avg \<Rightarrow> avg result" where
  "avg_Init cfg a =
     (case parse_fields ''avg'' cfg (avg_fields a) of
        Inl e \<Rightarrow> Inl e
      | Inr fs \<Rightarrow> Inr (a\<lparr>avg_fields := fs, avg_sums := [], avg_counts := [], avg_tags := []\<rparr>))"

definition avg_add_field :: "goval gomap \<Rightarrow> string \<Rightarrow> avg \<Rightarrow> avg" where
  "avg_add_field mf fname a =
     (case Option.bind (map_of mf fname) sample of
        None \<Rightarrow> a
      | Some fv \<Rightarrow>
          a\<lparr>avg_sums := map_put fname (fadd (case map_of (avg_sums a) fname of None \<Rightarrow> fzero | Some x \<Rightarrow> x) fv)
                          (avg_sums a),
            avg_counts := map_put fname ((case map_of (avg_counts a) fname of None \<Rightarrow> 0 | Some n \<Rightarrow> n) + 1)
                          (avg_counts a)\<rparr>)"

definition avg_Add :: "Metric \<Rightarrow> avg \<Rightarrow> avg" where
  "avg_Add m a =
     (let a1 = fold (avg_add_field (Fields m)) (avg_fields a) a;
          nt = capture (avg_fields a) m (avg_name a1, avg_tags a1)
      in a1\<lparr>avg_name := fst nt, avg_tags := snd nt\<rparr>)"

definition avg_out :: "avg \<Rightarrow> string \<Rightarrow> goval gomap \<Rightarrow> goval gomap" where
  "avg_out a fname out =
     (case map_of (avg_counts a) fname of
        None \<Rightarrow> out
      | Some n \<Rightarrow> if n = 0 then out
                 else map_put fname
                   (GFloat64 (fdiv (case map_of (avg_sums a) fname of None \<Rightarrow> fzero | Some x \<Rightarrow> x)
                                   (of_int64 n))) out)"

definition avg_emit :: "avg \<Rightarrow> emission list" where
  "avg_emit a =
     (if avg_counts a = [] then []
      else let out = fold (avg_out a) (avg_fields a) []
           in if out = [] then [] else [(avg_name a @ ''_avg'', avg_tags a, out, Gauge)])"

definition avg_Push :: "time \<Rightarrow> avg \<Rightarrow> accumulator \<Rightarrow> accumulator" where
  "avg_Push now a acc = push_all now (avg_emit a) acc"

definition avg_Reset :: "avg \<Rightarrow> avg" where
  "avg_Reset a = a\<lparr>avg_sums := [], avg_counts := [], avg_tags := [], avg_name := []\<rparr>"

subsection \<open>minmax\<close>

record minmax =
  mm_fields :: "string list"
  mm_mins :: "float64 gomap"
  mm_maxs :: "float64 gomap"
  mm_tags :: "string gomap"
  mm_name :: string

definition mm_New :: "string list \<Rightarrow> minmax" where
  "mm_New fs = \<lparr>mm_fields = fs, mm_mins = [], mm_maxs = [], mm_tags = [], mm_name = []\<rparr>"

definition mm_Init :: "goval gomap \<Rightarrow> minmax \<Rightarrow> minmax result" where
  "mm_Init cfg a =
     (case parse_fields ''minmax'' cfg (mm_fields a) of
        Inl e \<Rightarrow> Inl e
      | Inr fs \<Rightarrow> Inr (a\<lparr>mm_fields := fs, mm_mins := [], mm_maxs := [], mm_tags := []\<rparr>))"

definition mm_add_field :: "goval gomap \<Rightarrow> string \<Rightarrow> minmax \<Rightarrow> minmax" where
  "mm_add_field mf fname a =
     (case Option.bind (map_of mf fname) sample of
        None \<Rightarrow> a
      | Some fv \<Rightarrow>
         (case map_of (mm_mins a) fname of
            None \<Rightarrow> a\<lparr>mm_mins := map_put fname fv (mm_mins a), mm_maxs := map_put fname fv (mm_maxs a)\<rparr>
          | Some lo \<Rightarrow>
             (let a1 = (if flt fv lo then a\<lparr>mm_mins := map_put fname fv (mm_mins a)\<rparr> else a);
                  hi = (case map_of (mm_maxs a1) fname of None \<Rightarrow> fzero | Some x \<Rightarrow> x)
              in if flt hi fv then a1\<lparr>mm_maxs := map_put fname fv (mm_maxs a1)\<rparr> else a1)))"

definition mm_Add :: "Metric \<Rightarrow> minmax \<Rightarrow> minmax" where
  "mm_Add m a =
     (let a1 = fold (mm_add_field (Fields m)) (mm_fields a) a;
          nt = capture (mm_fields a) m (mm_name a1, mm_tags a1)
      in a1\<lparr>mm_name := fst nt, mm_tags := snd nt\<rparr>)"

definition mm_out :: "minmax \<Rightarrow> string \<Rightarrow> goval gomap \<times> goval gomap \<Rightarrow> goval gomap \<times> goval gomap" where
  "mm_out a fname out =
     (case map_of (mm_mins a) fname of
        None \<Rightarrow> out
      | Some lo \<Rightarrow> (map_put fname (GFloat64 lo) (fst out),
                   map_put fname (GFloat64 (case map_of (mm_maxs a) fname of None \<Rightarrow> fzero | Some x \<Rightarrow> x))
                     (snd out)))"

definition mm_emit :: "minmax \<Rightarrow> emission list" where
  "mm_emit a =
     (if mm_mins a = [] then []
      else let out = fold (mm_out a) (mm_fields a) ([], [])
           in (if fst out = [] then [] else [(mm_name a @ ''_min'', mm_tags a, fst out, Gauge)])
            @ (if snd out = [] then [] else [(mm_name a @ ''_max'', mm_tags a, snd out, Gauge)]))"

definition mm_Push :: "time \<Rightarrow> minmax \<Rightarrow> accumulator \<Rightarrow> accumulator" where
  "mm_Push now a acc = push_all now (mm_emit a) acc"

definition mm_Reset :: "minmax \<Rightarrow> minmax" where
  "mm_Reset a = a\<lparr>mm_mins := [], mm_maxs := [], mm_tags := [], mm_name := []\<rparr>"

subsection \<open>sum\<close>

record summ =
  sum_fields :: "string list"
  sum_sums :: "goval gomap"
  sum_isInt :: "bool gomap"
  sum_tags :: "string gomap"
  sum_name :: string

definition sum_New :: "string list \<Rightarrow> summ" where
  "sum_New fs = \<lparr>sum_fields = fs, sum_sums = [], sum_isInt = [], sum_tags = [], sum_name = []\<rparr>"

definition sum_Init :: "goval gomap \<Rightarrow> summ \<Rightarrow> summ result" where
  "sum_Init cfg a =
     (case parse_fields ''sum'' cfg (sum_fields a) of
        Inl e \<Rightarrow> Inl e
      | Inr fs \<Rightarrow> Inr (a\<lparr>sum_fields := fs, sum_sums := [], sum_isInt := [], sum_tags := []\<rparr>))"

definition sum_set :: "string \<Rightarrow> goval \<Rightarrow> summ \<Rightarrow> summ" where
  "sum_set fname v a = a\<lparr>sum_sums := map_put fname v (sum_sums a)\<rparr>"

definition sum_flag :: "string \<Rightarrow> bool \<Rightarrow> summ \<Rightarrow> summ" where
  "sum_flag fname b a = a\<lparr>sum_isInt := map_put fname b (sum_isInt a)\<rparr>"

definition sum_add_field :: "goval gomap \<Rightarrow> string \<Rightarrow> summ \<Rightarrow> summ" where
  "sum_add_field mf fname a =
     (case map_of mf fname of
        Some (GFloat64 v) \<Rightarrow>
          (case map_of (sum_sums a) fname of
             Some (GFloat64 ev) \<Rightarrow> sum_set fname (GFloat64 (fadd ev v)) a
           | Some (GInt64 ev) \<Rightarrow> sum_flag fname False (sum_set fname (GFloat64 (fadd (of_int64 ev) v)) a)
           | Some _ \<Rightarrow> a
           | None \<Rightarrow> sum_flag fname False (sum_set fname (GFloat64 v) a))
      | Some (GInt64 v) \<Rightarrow>
          (case map_of (sum_sums a) fname of
             Some (GInt64 ev) \<Rightarrow> sum_set fname (GInt64 (wrap64 (ev + v))) a
           | Some (GFloat64 ev) \<Rightarrow> sum_flag fname False (sum_set fname (GFloat64 (fadd ev (of_int64 v))) a)
           | Some _ \<Rightarrow> a
           | None \<Rightarrow> sum_flag fname True (sum_set fname (GInt64 v) a))
      | _ \<Rightarrow> a)"

definition sum_Add :: "Metric \<Rightarrow> summ \<Rightarrow> summ" where
  "sum_Add m a =
     (let a1 = fold (sum_add_field (Fields m)) (sum_fields a) a;
          nt = capture (sum_fields a) m (sum_name a1, sum_tags a1)
      in a1\<lparr>sum_name := fst nt, sum_tags := snd nt\<rparr>)"

definition sum_out :: "summ \<Rightarrow> string \<Rightarrow> goval gomap \<Rightarrow> goval gomap" where
  "sum_out a fname out =
     (case map_of (sum_sums a) fname of None \<Rightarrow> out | Some v \<Rightarrow> map_put fname v out)"

definition sum_emit :: "summ \<Rightarrow> emission list" where
  "sum_emit a =
     (if sum_sums a = [] then []
      else let out = fold (sum_out a) (sum_fields a) []
           in if out = [] then [] else [(sum_name a @ ''_sum'', sum_tags a, out, Counter)])"

definition sum_Push :: "time \<Rightarrow> summ \<Rightarrow> accumulator \<Rightarrow> accumulator" where
  "sum_Push now a acc = push_all now (sum_emit a) acc"

definition sum_Reset :: "summ \<Rightarrow> summ" where
  "sum_Reset a = a\<lparr>sum_sums := [], sum_isInt := [], sum_tags := [], sum_name := []\<rparr>"

subsection \<open>percentile\<close>

record pct =
  pct_fields :: "string list"
  pct_percentiles :: "float64 list"
  pct_values :: "float64 list gomap"
  pct_tags :: "string gomap"
  pct_name :: string

definition defaultPercentiles :: "float64 list" where
  "defaultPercentiles = [Fin 50, Fin 95, Fin 99]"

definition pct_number :: "goval \<Rightarrow> float64 option" where
  "pct_number v = (case v of GFloat64 f \<Rightarrow> Some f | GInt64 i \<Rightarrow> Some (of_int64 i)
                     | GInt i \<Rightarrow> Some (of_int64 i) | _ \<Rightarrow> None)"

fun parse_percentiles :: "goval list \<Rightarrow> float64 list result" where
  "parse_percentiles [] = Inr []"
| "parse_percentiles (v # vs) =
     (case pct_number v of
        None \<Rightarrow> Inl ''percentile: percentile entry %d must be a number, got %T''
      | Some pv \<Rightarrow>
          if flt pv (Fin 0) \<or> flt (Fin 100) pv
          then Inl ''percentile: value at index %d must be between 0 and 100, got %v''
          else if \<not> feq pv (of_int64 (to_int64 pv))
          then Inl ''percentile: value at index %d must be a whole number, got %v''
          else (case parse_percentiles vs of Inl e \<Rightarrow> Inl e | Inr ps \<Rightarrow> Inr (pv # ps)))"

definition pct_Init :: "goval gomap \<Rightarrow> pct \<Rightarrow> pct result" where
  "pct_Init cfg a0 =
     (let a = a0\<lparr>pct_values := [], pct_tags := [], pct_percentiles := defaultPercentiles\<rparr> in
      case map_of cfg ''fields'' of
        None \<Rightarrow> Inr a
      | Some _ \<Rightarrow>
         (case parse_fields ''percentile'' cfg (pct_fields a) of
            Inl e \<Rightarrow> Inl e
          | Inr fs \<Rightarrow>
             (case map_of cfg ''percentiles'' of
                None \<Rightarrow> Inr (a\<lparr>pct_fields := fs\<rparr>)
              | Some raw \<Rightarrow>
                 (case as_list raw of
                    None \<Rightarrow> Inl ''percentile: \"percentiles\" must be a list, got %T''
                  | Some xs \<Rightarrow>
                     (case parse_percentiles xs of
                        Inl e \<Rightarrow> Inl e
                      | Inr ps \<Rightarrow> Inr (a\<lparr>pct_fields := fs, pct_percentiles := ps\<rparr>))))))"

definition pct_add_field :: "goval gomap \<Rightarrow> string \<Rightarrow> pct \<Rightarrow> pct" where
  "pct_add_field mf fname a =
     (case Option.bind (map_of mf fname) sample of
        None \<Rightarrow> a
      | Some fv \<Rightarrow> a\<lparr>pct_values :=
          map_put fname ((case map_of (pct_values a) fname of None \<Rightarrow> [] | Some vs \<Rightarrow> vs) @ [fv]) (pct_values a)\<rparr>)"

definition pct_Add :: "Metric \<Rightarrow> pct \<Rightarrow> pct" where
  "pct_Add m a =
     (let a1 = fold (pct_add_field (Fields m)) (pct_fields a) a;
          nt = capture (pct_fields a) m (pct_name a1, pct_tags a1)
      in a1\<lparr>pct_name := fst nt, pct_tags := snd nt\<rparr>)"

text \<open>\<open>None\<close> is an index out of range.\<close>

definition percentile :: "float64 list \<Rightarrow> float64 \<Rightarrow> float64 option" where
  "percentile vals p =
     (if length vals = 0 then Some fzero
      else if length vals = 1 then slice_at vals 0
      else let index = fmul (fdiv p (Fin 100)) (of_int64 (int (length vals) - 1));
               lower = to_int64 (math_Floor index);
               upper = to_int64 (math_Ceil index)
           in if lower = upper then slice_at vals lower
              else case slice_at vals lower of None \<Rightarrow> None
                 | Some lo \<Rightarrow> (case slice_at vals upper of None \<Rightarrow> None
                     | Some up \<Rightarrow> Some (fadd lo (fmul (fsub up lo) (fsub index (of_int64 lower))))))"

fun pct_keys :: "string \<Rightarrow> float64 list \<Rightarrow> float64 list \<Rightarrow> goval gomap \<Rightarrow> goval gomap option" where
  "pct_keys fname vals [] out = Some out"
| "pct_keys fname vals (p # ps) out =
     (case percentile vals p of None \<Rightarrow> None
      | Some v \<Rightarrow> pct_keys fname vals ps (map_put (fname @ ''_p'' @ itoa (to_int64 p)) (GFloat64 v) out))"

text \<open>\<open>sort.Float64s\<close> sorts the stored slice itself.\<close>

fun pct_fields_out :: "string list \<Rightarrow> float64 list \<Rightarrow> float64 list gomap \<Rightarrow> goval gomap
    \<Rightarrow> (float64 list gomap \<times> goval gomap) option" where
  "pct_fields_out [] ps vals out = Some (vals, out)"
| "pct_fields_out (fname # fs) ps vals out =
     (case map_of vals fname of
        None \<Rightarrow> pct_fields_out fs ps vals out
      | Some vs \<Rightarrow>
          if vs = [] then pct_fields_out fs ps vals out
          else (case pct_keys fname (sort vs) ps out of None \<Rightarrow> None
                | Some out' \<Rightarrow> pct_fields_out fs ps (map_put fname (sort vs) vals) out'))"

definition pct_Push :: "time \<Rightarrow> pct \<Rightarrow> accumulator \<Rightarrow> (pct \<times> accumulator) option" where
  "pct_Push now a acc =
     (if pct_values a = [] then Some (a, acc)
      else case pct_fields_out (pct_fields a) (pct_percentiles a) (pct_values a) [] of
             None \<Rightarrow> None
           | Some (vals, out) \<Rightarrow>
               Some (a\<lparr>pct_values := vals\<rparr>,
                     if out = [] then acc else AddGaugeWithTimestamp (pct_name a) (pct_tags a) out now acc))"

definition pct_Reset :: "pct \<Rightarrow> pct" where
  "pct_Reset a = a\<lparr>pct_values := [], pct_tags := [], pct_name := []\<rparr>"

text \<open>The metric a percentile window ends with.\<close>

definition pct_emit :: "pct \<Rightarrow> emission list" where
  "pct_emit a =
     (case pct_fields_out (pct_fields a) (pct_percentiles a) (pct_values a) [] of
        None \<Rightarrow> []
      | Some (vals, out) \<Rightarrow> if pct_values a = [] \<or> out = [] then []
                            else [(pct_name a, pct_tags a, out, Gauge)])"

lemma pct_Push_emit:
  "pct_Push now a acc = Some (a', acc') \<Longrightarrow> acc' = push_all now (pct_emit a) acc"
  by (auto simp: pct_Push_def pct_emit_def push_all_def AddGaugeWithTimestamp_def split: if_splits option.splits)

subsection \<open>Window contract\<close>

lemma avg_Add_frame:
  "avg_Reset (avg_Add m a) = avg_Reset a" "avg_fields (avg_Add m a) = avg_fields a"
proof -
  have "avg_Reset (fold (avg_add_field mf) fs a) = avg_Reset a"
       "avg_fields (fold (avg_add_field mf) fs a) = avg_fields a" for mf fs
    by (rule fold_frame; simp add: avg_add_field_def avg_Reset_def split: option.splits)+
  then show "avg_Reset (avg_Add m a) = avg_Reset a" "avg_fields (avg_Add m a) = avg_fields a"
    by (simp_all add: avg_Add_def avg_Reset_def Let_def)
qed

lemma mm_Add_frame:
  "mm_Reset (mm_Add m a) = mm_Reset a" "mm_fields (mm_Add m a) = mm_fields a"
proof -
  have "mm_Reset (fold (mm_add_field mf) fs a) = mm_Reset a"
       "mm_fields (fold (mm_add_field mf) fs a) = mm_fields a" for mf fs
    by (rule fold_frame; simp add: mm_add_field_def mm_Reset_def Let_def split: option.splits)+
  then show "mm_Reset (mm_Add m a) = mm_Reset a" "mm_fields (mm_Add m a) = mm_fields a"
    by (simp_all add: mm_Add_def mm_Reset_def Let_def)
qed

lemma sum_Add_frame:
  "sum_Reset (sum_Add m a) = sum_Reset a" "sum_fields (sum_Add m a) = sum_fields a"
proof -
  have "sum_Reset (fold (sum_add_field mf) fs a) = sum_Reset a"
       "sum_fields (fold (sum_add_field mf) fs a) = sum_fields a" for mf fs
    by (rule fold_frame; simp add: sum_add_field_def sum_set_def sum_flag_def sum_Reset_def
          split: option.splits goval.splits)+
  then show "sum_Reset (sum_Add m a) = sum_Reset a" "sum_fields (sum_Add m a) = sum_fields a"
    by (simp_all add: sum_Add_def sum_Reset_def Let_def)
qed

lemma pct_Add_frame:
  "pct_Reset (pct_Add m a) = pct_Reset a" "pct_fields (pct_Add m a) = pct_fields a"
proof -
  have "pct_Reset (fold (pct_add_field mf) fs a) = pct_Reset a"
       "pct_fields (fold (pct_add_field mf) fs a) = pct_fields a" for mf fs
    by (rule fold_frame; simp add: pct_add_field_def pct_Reset_def split: option.splits)+
  then show "pct_Reset (pct_Add m a) = pct_Reset a" "pct_fields (pct_Add m a) = pct_fields a"
    by (simp_all add: pct_Add_def pct_Reset_def Let_def)
qed

interpretation avg_win: windowed avg_Add avg_emit avg_Reset
  by unfold_locales (rule avg_Add_frame, simp_all add: avg_Reset_def avg_emit_def)

interpretation mm_win: windowed mm_Add mm_emit mm_Reset
  by unfold_locales (rule mm_Add_frame, simp_all add: mm_Reset_def mm_emit_def)

interpretation sum_win: windowed sum_Add sum_emit sum_Reset
  by unfold_locales (rule sum_Add_frame, simp_all add: sum_Reset_def sum_emit_def)

interpretation pct_win: windowed pct_Add pct_emit pct_Reset
  by unfold_locales (rule pct_Add_frame, simp_all add: pct_Reset_def pct_emit_def split: option.splits)

subsection \<open>What a window computes for a field\<close>

text \<open>The samples of a field in a sequence of metrics.\<close>

definition samples :: "string \<Rightarrow> Metric list \<Rightarrow> float64 list" where
  "samples f ms = List.map_filter (\<lambda>m. Option.bind (map_of (Fields m) f) sample) ms"

definition mm_look :: "minmax \<Rightarrow> string \<Rightarrow> (float64 \<times> float64) option" where
  "mm_look a f = (case map_of (mm_mins a) f of None \<Rightarrow> None
     | Some lo \<Rightarrow> Some (lo, case map_of (mm_maxs a) f of None \<Rightarrow> fzero | Some x \<Rightarrow> x))"

definition mm_upd :: "float64 \<Rightarrow> (float64 \<times> float64) option \<Rightarrow> (float64 \<times> float64) option" where
  "mm_upd v p = (case p of None \<Rightarrow> Some (v, v)
     | Some (lo, hi) \<Rightarrow> Some (if flt v lo then v else lo, if flt hi v then v else hi))"

lemma mm_look_field:
  "mm_look (mm_add_field mf k a) j =
     (if j = k then (case Option.bind (map_of mf k) sample of None \<Rightarrow> mm_look a k
                     | Some v \<Rightarrow> mm_upd v (mm_look a k)) else mm_look a j)"
  by (simp add: mm_add_field_def mm_look_def mm_upd_def Let_def split: option.splits)

lemma mm_look_Add:
  assumes "distinct (mm_fields a)" "j \<in> set (mm_fields a)"
  shows "mm_look (mm_Add m a) j = (case Option.bind (map_of (Fields m) j) sample of None \<Rightarrow> mm_look a j
                     | Some v \<Rightarrow> mm_upd v (mm_look a j))"
proof -
  have "mm_look (mm_Add m a) j = mm_look (fold (mm_add_field (Fields m)) (mm_fields a) a) j"
    by (simp add: mm_Add_def mm_look_def Let_def split: option.splits)
  also have "\<dots> = (case Option.bind (map_of (Fields m) j) sample of None \<Rightarrow> mm_look a j
                     | Some v \<Rightarrow> mm_upd v (mm_look a j))"
    using fold_keyed [of mm_look "mm_add_field (Fields m)", OF mm_look_field assms(1)] assms(2) by simp
  finally show ?thesis .
qed

lemma mm_look_fold:
  assumes "distinct (mm_fields a)" "j \<in> set (mm_fields a)"
  shows "mm_look (fold mm_Add ms a) j = fold mm_upd (samples j ms) (mm_look a j)"
proof -
  have "mm_look (fold mm_Add ms a) j =
      fold (\<lambda>m p. case Option.bind (map_of (Fields m) j) sample of None \<Rightarrow> p | Some v \<Rightarrow> mm_upd v p) ms (mm_look a j)"
    by (rule fold_keyed_outer [where ks = mm_fields and K = "mm_fields a"])
       (use assms mm_look_Add mm_Add_frame in auto)
  then show ?thesis by (simp add: fold_map_filter samples_def)
qed

lemma fold_mm_upd:
  assumes "lo \<le> hi" "NaN \<notin> set vs" "lo \<noteq> NaN" "hi \<noteq> NaN"
  shows "fold mm_upd vs (Some (lo, hi)) = Some (fold min vs lo, fold max vs hi)"
  using assms
proof (induction vs arbitrary: lo hi)
  case (Cons v vs)
  have "mm_upd v (Some (lo, hi)) = Some (min v lo, max v hi)"
    using Cons.prems by (auto simp: mm_upd_def flt_iff min_def max_def)
  moreover have "min v lo \<le> max v hi" "min v lo \<noteq> NaN" "max v hi \<noteq> NaN"
    using Cons.prems by (auto simp: min_def max_def)
  ultimately show ?case using Cons by simp
qed simp

lemma mm_window_bounds:
  assumes "distinct fs" "f \<in> set fs" "samples f ms \<noteq> []" "NaN \<notin> set (samples f ms)"
  obtains lo hi where "mm_look (fold mm_Add ms (mm_New fs)) f = Some (lo, hi)"
    "lo \<in> set (samples f ms)" "hi \<in> set (samples f ms)"
    "\<forall>v \<in> set (samples f ms). fle lo v \<and> fle v hi"
proof -
  obtain v vs where s: "samples f ms = v # vs" using assms(3) by (cases "samples f ms") auto
  have look: "mm_look (fold mm_Add ms (mm_New fs)) f = Some (fold min vs v, fold max vs v)"
  proof -
    have "mm_look (mm_New fs) f = None" "mm_fields (mm_New fs) = fs"
      by (simp_all add: mm_New_def mm_look_def)
    then have "mm_look (fold mm_Add ms (mm_New fs)) f = fold mm_upd vs (mm_upd v None)"
      using mm_look_fold [of "mm_New fs" f ms] assms s by simp
    also have "\<dots> = Some (fold min vs v, fold max vs v)"
      using fold_mm_upd [of v v vs] assms(4) s by (auto simp: mm_upd_def)
    finally show ?thesis .
  qed
  have m: "fold min vs v = Min (set (samples f ms))" "fold max vs v = Max (set (samples f ms))"
    unfolding s by (simp_all only: Min.set_eq_fold Max.set_eq_fold)
  have "Min (set (samples f ms)) \<in> set (samples f ms)" "Max (set (samples f ms)) \<in> set (samples f ms)"
    using assms(3) by simp_all
  moreover from this have "\<forall>x \<in> set (samples f ms). fle (Min (set (samples f ms))) x \<and> fle x (Max (set (samples f ms)))"
    using assms(4) by (auto simp: fle_iff)
  ultimately show ?thesis using that [OF look] m by metis
qed

lemma mm_out_fold:
  assumes "distinct fs" "f \<in> set fs" "mm_look a f = Some (lo, hi)"
  shows "map_of (fst (fold (mm_out a) fs out)) f = Some (GFloat64 lo)"
    and "map_of (snd (fold (mm_out a) fs out)) f = Some (GFloat64 hi)"
proof -
  define look where "look o' j = (map_of (fst o') j, map_of (snd o') j)"
    for o' :: "goval gomap \<times> goval gomap" and j
  have "look (mm_out a k o') j = (if j = k then (case mm_look a k of None \<Rightarrow> look o' k
          | Some (l, h) \<Rightarrow> (Some (GFloat64 l), Some (GFloat64 h))) else look o' j)" for k o' j
    by (simp add: look_def mm_out_def mm_look_def split: option.splits)
  then have "look (fold (mm_out a) fs out) f = (Some (GFloat64 lo), Some (GFloat64 hi))"
    using fold_keyed [of look "mm_out a" "\<lambda>k p. case mm_look a k of None \<Rightarrow> p
          | Some (l, h) \<Rightarrow> (Some (GFloat64 l), Some (GFloat64 h))" fs out f] assms by simp
  then show "map_of (fst (fold (mm_out a) fs out)) f = Some (GFloat64 lo)"
    "map_of (snd (fold (mm_out a) fs out)) f = Some (GFloat64 hi)" by (simp_all add: look_def)
qed

lemma mm_emit_look:
  assumes "distinct (mm_fields a)" "f \<in> set (mm_fields a)" "mm_look a f = Some (lo, hi)"
  shows "\<exists>mins maxs. mm_emit a = [(mm_name a @ ''_min'', mm_tags a, mins, Gauge), (mm_name a @ ''_max'', mm_tags a, maxs, Gauge)]
           \<and> map_of mins f = Some (GFloat64 lo) \<and> map_of maxs f = Some (GFloat64 hi)"
proof -
  have "mm_mins a \<noteq> []" using assms(3) by (auto simp: mm_look_def)
  moreover note out = mm_out_fold [OF assms, of "([], [])"]
  moreover have "fst (fold (mm_out a) (mm_fields a) ([], [])) \<noteq> []" "snd (fold (mm_out a) (mm_fields a) ([], [])) \<noteq> []"
    using out by auto
  ultimately show ?thesis by (simp add: mm_emit_def Let_def)
qed

lemma mm_fold_fields: "mm_fields (fold mm_Add ms a) = mm_fields a"
  by (rule fold_frame) (rule mm_Add_frame)

abbreviation cpu_metrics :: "Metric list" where
  "cpu_metrics \<equiv> [NewMetric ''cpu'' [(''host'', ''a'')] [(''x'', GInt64 3)] Gauge 0, NewMetric ''cpu'' [] [(''x'', GInt64 1)] Gauge 5]"

lemmas metric_eval = NewMetric_def Fields_def Tags_def map_copy_def List.map_filter_def sample_def

text \<open>After any sequence of metrics a fresh minmax aggregator emits exactly a minimum and a
  maximum metric; for every configured field with samples, none of them NaN, the two values are
  samples of that field, and every sample lies between them.\<close>

theorem minmax_push_bounds:
  assumes "distinct fs" "f \<in> set fs" "samples f ms \<noteq> []" "NaN \<notin> set (samples f ms)"
  shows "\<exists>name tags mins maxs lo hi.
      mm_emit (fold mm_Add ms (mm_New fs)) = [(name @ ''_min'', tags, mins, Gauge), (name @ ''_max'', tags, maxs, Gauge)]
    \<and> map_of mins f = Some (GFloat64 lo) \<and> map_of maxs f = Some (GFloat64 hi)
    \<and> lo \<in> set (samples f ms) \<and> hi \<in> set (samples f ms)
    \<and> (\<forall>v \<in> set (samples f ms). fle lo v \<and> fle v hi)"
proof -
  obtain lo hi where b: "mm_look (fold mm_Add ms (mm_New fs)) f = Some (lo, hi)"
    "lo \<in> set (samples f ms)" "hi \<in> set (samples f ms)"
    "\<forall>v \<in> set (samples f ms). fle lo v \<and> fle v hi"
    using mm_window_bounds [OF assms] by blast
  have "mm_fields (fold mm_Add ms (mm_New fs)) = fs"
    by (simp add: mm_fold_fields mm_New_def)
  then show ?thesis
    using mm_emit_look [of "fold mm_Add ms (mm_New fs)" f lo hi] b assms(1,2) by metis
qed

theorem minmax_push_bounds_witness:
  "\<exists>name tags mins maxs lo hi.
      mm_emit (fold mm_Add cpu_metrics (mm_New [''x''])) = [(name @ ''_min'', tags, mins, Gauge), (name @ ''_max'', tags, maxs, Gauge)]
    \<and> map_of mins ''x'' = Some (GFloat64 lo) \<and> map_of maxs ''x'' = Some (GFloat64 hi)
    \<and> lo \<in> set (samples ''x'' cpu_metrics) \<and> hi \<in> set (samples ''x'' cpu_metrics)
    \<and> (\<forall>v \<in> set (samples ''x'' cpu_metrics). fle lo v \<and> fle v hi)"
  by (rule minmax_push_bounds) (simp_all add: samples_def metric_eval of_int64_def)


subsection \<open>Sums\<close>

definition sum_upd :: "goval \<Rightarrow> goval option \<Rightarrow> goval option" where
  "sum_upd v p = (case v of
      GFloat64 x \<Rightarrow> (case p of None \<Rightarrow> Some (GFloat64 x) | Some (GFloat64 ev) \<Rightarrow> Some (GFloat64 (fadd ev x))
                      | Some (GInt64 ev) \<Rightarrow> Some (GFloat64 (fadd (of_int64 ev) x)) | Some w \<Rightarrow> Some w)
    | GInt64 x \<Rightarrow> (case p of None \<Rightarrow> Some (GInt64 x) | Some (GInt64 ev) \<Rightarrow> Some (GInt64 (wrap64 (ev + x)))
                      | Some (GFloat64 ev) \<Rightarrow> Some (GFloat64 (fadd ev (of_int64 x))) | Some w \<Rightarrow> Some w)
    | _ \<Rightarrow> p)"

text \<open>The values of a field in a sequence of metrics.\<close>

definition field_values :: "string \<Rightarrow> Metric list \<Rightarrow> goval list" where
  "field_values f ms = List.map_filter (\<lambda>m. map_of (Fields m) f) ms"

lemma sum_look_field:
  "map_of (sum_sums (sum_add_field mf k a)) j =
     (if j = k then (case map_of mf k of None \<Rightarrow> map_of (sum_sums a) k | Some v \<Rightarrow> sum_upd v (map_of (sum_sums a) k))
      else map_of (sum_sums a) j)"
  by (simp add: sum_add_field_def sum_set_def sum_flag_def sum_upd_def split: option.splits goval.splits)

lemma sum_look_fold:
  assumes "distinct (sum_fields a)" "j \<in> set (sum_fields a)"
  shows "map_of (sum_sums (fold sum_Add ms a)) j = fold sum_upd (field_values j ms) (map_of (sum_sums a) j)"
proof -
  have step: "map_of (sum_sums (sum_Add m s)) j =
      (case map_of (Fields m) j of None \<Rightarrow> map_of (sum_sums s) j | Some v \<Rightarrow> sum_upd v (map_of (sum_sums s) j))"
    if "sum_fields s = sum_fields a" for m s
    using fold_keyed [of "\<lambda>s. map_of (sum_sums s)" "sum_add_field (Fields m)", OF sum_look_field assms(1)] assms(2) that
    by (simp add: sum_Add_def Let_def)
  have "map_of (sum_sums (fold sum_Add ms a)) j =
      fold (\<lambda>m p. case map_of (Fields m) j of None \<Rightarrow> p | Some v \<Rightarrow> sum_upd v p) ms (map_of (sum_sums a) j)"
    by (rule fold_keyed_outer [where ks = sum_fields and K = "sum_fields a" and look = "\<lambda>s. map_of (sum_sums s)"])
       (use step sum_Add_frame in auto)
  then show ?thesis by (simp add: fold_map_filter field_values_def)
qed

lemma fold_sum_upd_ints:
  "fold sum_upd (map GInt64 is) (Some (GInt64 (wrap64 x))) = Some (GInt64 (wrap64 (x + sum_list is)))"
  by (induction "is" arbitrary: x) (simp_all add: sum_upd_def add.assoc)

lemma sum_out_fold:
  assumes "distinct fs" "f \<in> set fs" "map_of (sum_sums a) f = Some v"
  shows "map_of (fold (sum_out a) fs out) f = Some v"
proof -
  have "map_of (sum_out a k o') j = (if j = k then (case map_of (sum_sums a) k of None \<Rightarrow> map_of o' k | Some v \<Rightarrow> Some v)
      else map_of o' j)" for k o' j
    by (simp add: sum_out_def split: option.splits)
  from fold_keyed [of map_of "sum_out a", OF this assms(1)] show ?thesis
    using assms by simp
qed

lemma sum_emit_look:
  assumes "distinct (sum_fields a)" "f \<in> set (sum_fields a)" "map_of (sum_sums a) f = Some v"
  shows "\<exists>out. sum_emit a = [(sum_name a @ ''_sum'', sum_tags a, out, Counter)] \<and> map_of out f = Some v"
proof -
  have "sum_sums a \<noteq> []" using assms(3) by auto
  moreover note out = sum_out_fold [OF assms, of "[]"]
  moreover have "fold (sum_out a) (sum_fields a) [] \<noteq> []" using out by auto
  ultimately show ?thesis by (simp add: sum_emit_def Let_def)
qed

text \<open>The sum of a field whose values are all int64 stays an int64 and is the sum of the
  values modulo wrap-around at 64 bits, whatever the order of the metrics.\<close>

theorem sum_push_ints:
  assumes "distinct fs" "f \<in> set fs" "field_values f ms = map GInt64 is" "is \<noteq> []"
    and "\<forall>i \<in> set is. - (2 ^ 63) \<le> i \<and> i < 2 ^ 63"
  shows "\<exists>name tags out. sum_emit (fold sum_Add ms (sum_New fs)) = [(name @ ''_sum'', tags, out, Counter)]
           \<and> map_of out f = Some (GInt64 (wrap64 (sum_list is)))"
proof -
  obtain i js where i: "is = i # js" using assms(4) by (cases "is") auto
  then have "wrap64 i = i" using assms(5) by simp
  then have "map_of (sum_sums (fold sum_Add ms (sum_New fs))) f = Some (GInt64 (wrap64 (sum_list is)))"
    using sum_look_fold [of "sum_New fs" f ms] fold_sum_upd_ints [of js i] assms i
    by (simp add: sum_New_def sum_upd_def)
  moreover have "sum_fields (fold sum_Add ms (sum_New fs)) = fs"
    using fold_frame [of sum_fields sum_Add ms "sum_New fs"] sum_Add_frame by (simp add: sum_New_def)
  ultimately show ?thesis
    using sum_emit_look [of "fold sum_Add ms (sum_New fs)" f] assms(1,2) by metis
qed

theorem sum_push_ints_witness:
  "\<exists>name tags out. sum_emit (fold sum_Add cpu_metrics (sum_New [''x''])) = [(name @ ''_sum'', tags, out, Counter)]
           \<and> map_of out ''x'' = Some (GInt64 (wrap64 (sum_list [3, 1])))"
  by (rule sum_push_ints) (simp_all add: field_values_def metric_eval)


subsection \<open>Means\<close>

definition avg_look :: "avg \<Rightarrow> string \<Rightarrow> float64 \<times> int" where
  "avg_look a f = ((case map_of (avg_sums a) f of None \<Rightarrow> fzero | Some x \<Rightarrow> x),
                   (case map_of (avg_counts a) f of None \<Rightarrow> 0 | Some n \<Rightarrow> n))"

definition avg_upd :: "float64 \<Rightarrow> float64 \<times> int \<Rightarrow> float64 \<times> int" where
  "avg_upd v p = (fadd (fst p) v, snd p + 1)"

lemma avg_look_field:
  "avg_look (avg_add_field mf k a) j =
     (if j = k then (case Option.bind (map_of mf k) sample of None \<Rightarrow> avg_look a k
                     | Some v \<Rightarrow> avg_upd v (avg_look a k)) else avg_look a j)"
  by (simp add: avg_add_field_def avg_look_def avg_upd_def split: option.splits)

lemma avg_look_fold:
  assumes "distinct (avg_fields a)" "j \<in> set (avg_fields a)"
  shows "avg_look (fold avg_Add ms a) j = fold avg_upd (samples j ms) (avg_look a j)"
proof -
  have step: "avg_look (avg_Add m s) j =
      (case Option.bind (map_of (Fields m) j) sample of None \<Rightarrow> avg_look s j | Some v \<Rightarrow> avg_upd v (avg_look s j))"
    if "avg_fields s = avg_fields a" for m s
  proof -
    have "avg_look (avg_Add m s) j = avg_look (fold (avg_add_field (Fields m)) (avg_fields s) s) j"
      by (simp add: avg_Add_def avg_look_def Let_def)
    then show ?thesis
      using fold_keyed [of avg_look "avg_add_field (Fields m)", OF avg_look_field assms(1)] assms(2) that by simp
  qed
  have "avg_look (fold avg_Add ms a) j =
      fold (\<lambda>m p. case Option.bind (map_of (Fields m) j) sample of None \<Rightarrow> p | Some v \<Rightarrow> avg_upd v p) ms (avg_look a j)"
    by (rule fold_keyed_outer [where ks = avg_fields and K = "avg_fields a"]) (use step avg_Add_frame in auto)
  then show ?thesis by (simp add: fold_map_filter samples_def)
qed

lemma samples_field_values: "samples f ms = List.map_filter sample (field_values f ms)"
  by (induction ms) (auto simp: samples_def field_values_def List.map_filter_def)

lemma samples_ints: "field_values f ms = map GInt64 is \<Longrightarrow> samples f ms = map of_int64 is"
  by (simp add: samples_field_values) (induction "is", simp_all add: List.map_filter_def sample_def)

lemma fadd_ints:
  assumes "\<bar>x\<bar> + \<bar>y\<bar> \<le> 2 ^ 53"
  shows "fadd (Fin (of_int x)) (of_int64 y) = Fin (of_int (x + y))"
proof -
  have "of_int64 y = Fin (of_int y)" using assms by (intro of_int64_exact) linarith
  moreover have "rnd (of_int (x + y)) = Fin (of_int (x + y))" using assms by (intro rnd_int) linarith
  ultimately show ?thesis by simp
qed

lemma fold_avg_upd_ints:
  assumes "\<bar>x\<bar> + sum_list (map abs is) \<le> 2 ^ 53"
  shows "fold avg_upd (map of_int64 is) (Fin (of_int x), n) = (Fin (of_int (x + sum_list is)), n + int (length is))"
  using assms
proof (induction "is" arbitrary: x n)
  case (Cons i "is")
  have "0 \<le> sum_list (map abs is)" by (rule sum_list_nonneg) auto
  with Cons.prems have x: "\<bar>x\<bar> + \<bar>i\<bar> \<le> 2 ^ 53" by simp
  have "\<bar>x + i\<bar> + sum_list (map abs is) \<le> 2 ^ 53" using Cons.prems by simp
  then show ?case using Cons.IH [of "x + i" "n + 1"] fadd_ints [OF x] by (simp add: avg_upd_def add.assoc)
qed simp

lemma avg_out_fold:
  assumes "distinct fs" "f \<in> set fs" "avg_look a f = (s, n)" "n \<noteq> 0"
  shows "map_of (fold (avg_out a) fs out) f = Some (GFloat64 (fdiv s (of_int64 n)))"
proof -
  have "map_of (avg_out a k o') j = (if j = k then (if snd (avg_look a k) = 0 then map_of o' k
      else Some (GFloat64 (fdiv (fst (avg_look a k)) (of_int64 (snd (avg_look a k)))))) else map_of o' j)" for k o' j
    by (simp add: avg_out_def avg_look_def split: option.splits)
  from fold_keyed [of map_of "avg_out a", OF this assms(1)] show ?thesis using assms by simp
qed

lemma avg_emit_look:
  assumes "distinct (avg_fields a)" "f \<in> set (avg_fields a)" "avg_look a f = (s, n)" "n \<noteq> 0"
  shows "\<exists>out. avg_emit a = [(avg_name a @ ''_avg'', avg_tags a, out, Gauge)]
          \<and> map_of out f = Some (GFloat64 (fdiv s (of_int64 n)))"
proof -
  have "avg_counts a \<noteq> []" using assms(3,4) by (auto simp: avg_look_def)
  moreover note out = avg_out_fold [OF assms, of "[]"]
  moreover have "fold (avg_out a) (avg_fields a) [] \<noteq> []" using out by auto
  ultimately show ?thesis by (simp add: avg_emit_def Let_def)
qed

text \<open>The average of an int64 field whose magnitudes add up to at most 2^53 is the
  exact mean rounded once to float64: the running float64 sum loses nothing.\<close>

theorem avg_push_mean:
  assumes "distinct fs" "f \<in> set fs" "field_values f ms = map GInt64 is" "is \<noteq> []"
    and "sum_list (map abs is) \<le> 2 ^ 53" "length is \<le> 2 ^ 53"
  shows "\<exists>name tags out. avg_emit (fold avg_Add ms (avg_New fs)) = [(name @ ''_avg'', tags, out, Gauge)]
           \<and> map_of out f = Some (GFloat64 (rnd (of_int (sum_list is) / of_nat (length is))))"
proof -
  let ?a = "fold avg_Add ms (avg_New fs)"
  have init: "avg_look (avg_New fs) f = (Fin (of_int 0), 0)" "avg_fields (avg_New fs) = fs"
    by (simp_all add: avg_New_def avg_look_def fzero_def)
  have look: "avg_look ?a f = (Fin (of_int (sum_list is)), int (length is))"
    using avg_look_fold [of "avg_New fs" f ms] fold_avg_upd_ints [of 0 "is" 0] init assms
    by (simp add: samples_ints)
  have "avg_fields ?a = fs"
    using fold_frame [of avg_fields avg_Add ms "avg_New fs"] avg_Add_frame init by simp
  then obtain out where out: "avg_emit ?a = [(avg_name ?a @ ''_avg'', avg_tags ?a, out, Gauge)]"
      "map_of out f = Some (GFloat64 (fdiv (Fin (of_int (sum_list is))) (of_int64 (int (length is)))))"
    using avg_emit_look [of ?a f "Fin (of_int (sum_list is))" "int (length is)"] look assms(1,2,4) by auto
  have "of_int64 (int (length is)) = Fin (of_int (int (length is)))"
    using assms(6) by (intro of_int64_exact) simp
  then have "fdiv (Fin (of_int (sum_list is))) (of_int64 (int (length is))) = rnd (of_int (sum_list is) / of_nat (length is))"
    using assms(4) by simp
  with out show ?thesis by auto
qed

theorem avg_push_mean_witness:
  "\<exists>name tags out. avg_emit (fold avg_Add cpu_metrics (avg_New [''x''])) = [(name @ ''_avg'', tags, out, Gauge)]
           \<and> map_of out ''x'' = Some (GFloat64 (rnd (of_int (sum_list [3, 1]) / of_nat (length [3 :: int, 1]))))"
  by (rule avg_push_mean) (simp_all add: field_values_def metric_eval)


subsection \<open>Percentiles\<close>

lemma fle_between:
  assumes "fle (Fin a) x" "fle x (Fin b)"
  obtains r where "x = Fin r" "a \<le> r" "r \<le> b"
  using assms by (cases x) (auto simp: fle_def feq_def)

lemma rnd_between:
  assumes "0 \<le> q" "q \<le> of_int n" "n \<le> 2 ^ 53"
  obtains r where "rnd q = Fin r" "0 \<le> r" "r \<le> of_int n"
proof -
  have n: "0 \<le> n" using assms by linarith
  have "fle (rnd 0) (rnd q)" "fle (rnd q) (rnd (of_int n))"
    by (rule rnd_mono_nonneg; use assms in simp)+
  moreover have "rnd (of_int n) = Fin (of_int n)" using assms(3) n by (intro rnd_int) simp
  ultimately show ?thesis using fle_between [of 0 "rnd q" "of_int n"] that by auto
qed

definition whole_percent :: "float64 \<Rightarrow> bool" where
  "whole_percent p = (case p of Fin a \<Rightarrow> 0 \<le> a \<and> a \<le> 100 \<and> a = of_int \<lfloor>a\<rfloor> | _ \<Rightarrow> False)"

lemma percentile_index:
  assumes "whole_percent p" "1 \<le> n" "n \<le> 2 ^ 53"
  obtains x where "fmul (fdiv p (Fin 100)) (of_int64 (n - 1)) = Fin x" "0 \<le> x" "x \<le> of_int (n - 1)"
proof -
  obtain a where a: "p = Fin a" "0 \<le> a" "a \<le> 100"
    using assms(1) by (auto simp: whole_percent_def split: float64.splits)
  obtain r where r: "rnd (a / 100) = Fin r" "0 \<le> r" "r \<le> 1"
    using rnd_between [of "a / 100" 1] a by auto
  have n: "of_int64 (n - 1) = Fin (of_int (n - 1))" using assms by (intro of_int64_exact) linarith
  have "0 \<le> r * of_int (n - 1)" "r * of_int (n - 1) \<le> of_int (n - 1)"
    using r assms(2) mult_right_mono [of r 1 "of_int (n - 1)"] by auto
  then obtain x where "rnd (r * of_int (n - 1)) = Fin x" "0 \<le> x" "x \<le> of_int (n - 1)"
    using rnd_between [of "r * of_int (n - 1)" "n - 1"] assms(3) by auto
  then show ?thesis using that [of x] a r n by simp
qed

lemma to_int64_of_int: "0 \<le> i \<Longrightarrow> i < 2 ^ 63 \<Longrightarrow> to_int64 (Fin (of_int i)) = i"
  by (simp add: to_int64_def)

lemma to_int64_floor:
  assumes "0 \<le> x" "x \<le> of_int m" "m \<le> 2 ^ 53"
  shows "to_int64 (math_Floor (Fin x)) = \<lfloor>x\<rfloor>" "to_int64 (math_Ceil (Fin x)) = \<lceil>x\<rceil>"
    "0 \<le> \<lfloor>x\<rfloor>" "\<lfloor>x\<rfloor> \<le> m" "0 \<le> \<lceil>x\<rceil>" "\<lceil>x\<rceil> \<le> m"
proof -
  have b: "0 \<le> \<lfloor>x\<rfloor>" "\<lfloor>x\<rfloor> \<le> m" "0 \<le> \<lceil>x\<rceil>" "\<lceil>x\<rceil> \<le> m"
    using assms by (auto simp: floor_le_iff ceiling_le_iff le_ceiling_iff)
  have c: "m < 2 ^ 63" using assms(3) by simp
  show "to_int64 (math_Floor (Fin x)) = \<lfloor>x\<rfloor>" "to_int64 (math_Ceil (Fin x)) = \<lceil>x\<rceil>"
    unfolding math_Floor_def math_Ceil_def float64.case
    by (rule to_int64_of_int; use b c in linarith)+
qed (use assms in \<open>auto simp: floor_le_iff ceiling_le_iff le_ceiling_iff\<close>)

lemma percentile_total:
  assumes "whole_percent p" "int (length vals) \<le> 2 ^ 53"
  shows "\<exists>v. percentile vals p = Some v"
proof (cases "length vals \<le> 1")
  case True
  then show ?thesis by (cases vals) (auto simp: percentile_def)
next
  case False
  let ?n = "int (length vals)"
  obtain x where x: "fmul (fdiv p (Fin 100)) (of_int64 (?n - 1)) = Fin x" "0 \<le> x" "x \<le> of_int (?n - 1)"
    using percentile_index [of p ?n] assms False by auto
  note idx = to_int64_floor [of x "?n - 1", OF x(2,3)]
  have "\<lfloor>x\<rfloor> < ?n" "\<lceil>x\<rceil> < ?n" "0 \<le> \<lfloor>x\<rfloor>" "0 \<le> \<lceil>x\<rceil>"
    using idx assms(2) by auto
  with x idx assms(2) False show ?thesis by (auto simp: percentile_def Let_def)
qed

lemma percentile_ends:
  assumes "2 \<le> length vals" "int (length vals) \<le> 2 ^ 53"
  shows "percentile vals (Fin 0) = Some (hd vals)" "percentile vals (Fin 100) = Some (last vals)"
proof -
  let ?n = "int (length vals)"
  have n: "of_int64 (?n - 1) = Fin (of_int (?n - 1))"
    using assms by (intro of_int64_exact) linarith
  have one: "rnd 1 = Fin 1" using rnd_int [of 1] by simp
  have top: "rnd (of_int (?n - 1)) = Fin (of_int (?n - 1))"
    using assms by (intro rnd_int) linarith
  have idx: "fmul (fdiv (Fin 0) (Fin 100)) (of_int64 (?n - 1)) = Fin (of_int 0)"
    "fmul (fdiv (Fin 100) (Fin 100)) (of_int64 (?n - 1)) = Fin (of_int (?n - 1))"
    using n one top by simp_all
  have conv: "to_int64 (math_Floor (Fin (of_int i))) = i" "to_int64 (math_Ceil (Fin (of_int i))) = i"
    if "0 \<le> i" "i \<le> ?n - 1" for i
    using to_int64_of_int [of i] that assms(2) by (simp_all add: math_Floor_def math_Ceil_def)
  have ne: "length vals \<noteq> 0" "length vals \<noteq> 1" "vals \<noteq> []" using assms by auto
  show "percentile vals (Fin 0) = Some (hd vals)"
    unfolding percentile_def idx Let_def using conv [of 0] ne assms by (simp add: hd_conv_nth)
  show "percentile vals (Fin 100) = Some (last vals)"
    unfolding percentile_def idx Let_def using conv [of "?n - 1"] ne assms
    by (simp add: last_conv_nth nat_diff_distrib)
qed

text \<open>What Init accepts as percentiles.\<close>

lemma parse_percentiles_whole:
  "parse_percentiles vs = Inr ps \<Longrightarrow> list_all whole_percent ps"
proof (induction vs arbitrary: ps)
  case (Cons v vs)
  then obtain pv qs where *: "pct_number v = Some pv" "\<not> flt pv (Fin 0)" "\<not> flt (Fin 100) pv"
      "feq pv (of_int64 (to_int64 pv))" "parse_percentiles vs = Inr qs" "ps = pv # qs"
    by (auto split: option.splits if_splits sum.splits)
  have "whole_percent pv"
  proof (cases pv)
    case (Fin a)
    with * have a: "0 \<le> a" "a \<le> 100" by auto
    then have "0 \<le> \<lfloor>a\<rfloor>" "\<lfloor>a\<rfloor> \<le> 100" by (auto simp: floor_le_iff)
    then have "to_int64 pv = \<lfloor>a\<rfloor>" "of_int64 \<lfloor>a\<rfloor> = Fin (of_int \<lfloor>a\<rfloor>)"
      using Fin a by (simp_all add: to_int64_def Let_def of_int64_exact del: zero_le_floor floor_le_numeral)
    with * Fin a show ?thesis by (simp add: whole_percent_def feq_def)
  qed (use * in \<open>auto simp: feq_def\<close>)
  with * Cons.IH show ?case by simp
qed simp

lemma pct_keys_total:
  assumes "list_all whole_percent ps" "int (length vals) \<le> 2 ^ 53"
  shows "\<exists>out'. pct_keys fname vals ps out = Some out'"
  using assms
proof (induction ps arbitrary: out)
  case (Cons p ps)
  then obtain v where "percentile vals p = Some v" using percentile_total [of p vals] by auto
  with Cons show ?case by simp
qed simp

definition pct_small :: "int \<Rightarrow> float64 list gomap \<Rightarrow> bool" where
  "pct_small b vals = (\<forall>f. case map_of vals f of None \<Rightarrow> True | Some vs \<Rightarrow> int (length vs) \<le> b)"

lemma pct_fields_out_total:
  assumes "list_all whole_percent ps" "pct_small (2 ^ 53) vals"
  shows "\<exists>r. pct_fields_out fs ps vals out = Some r"
  using assms(2)
proof (induction fs arbitrary: vals out)
  case (Cons f fs)
  show ?case
  proof (cases "map_of vals f")
    case None
    then show ?thesis using Cons by simp
  next
    case (Some vs)
    with Cons.prems have len: "int (length vs) \<le> 2 ^ 53"
      unfolding pct_small_def by (auto dest: spec [of _ f])
    then obtain out' where "pct_keys f (sort vs) ps out = Some out'"
      using pct_keys_total [OF assms(1), of "sort vs"] by auto
    moreover have "pct_small (2 ^ 53) (map_put f (sort vs) vals)"
      using Cons.prems len by (simp add: pct_small_def)
    ultimately show ?thesis using Some Cons by simp
  qed
qed simp

lemma pct_small_add:
  assumes "pct_small b (pct_values a)" "0 \<le> b"
  shows "pct_small (b + 1) (pct_values (pct_add_field mf f a))"
  using assms unfolding pct_small_def pct_add_field_def
  by (auto split: option.splits) fastforce+

lemma pct_small_fold:
  assumes "pct_small b (pct_values a)" "0 \<le> b"
  shows "pct_small (b + int (length fs)) (pct_values (fold (pct_add_field mf) fs a))"
  using assms
proof (induction fs arbitrary: a b)
  case (Cons f fs)
  show ?case using Cons.IH [OF pct_small_add [OF Cons.prems]] Cons.prems(2) by (simp add: add.assoc)
qed simp

lemma pct_small_window:
  assumes "pct_small b (pct_values a)" "0 \<le> b"
  shows "pct_small (b + int (length ms * length (pct_fields a))) (pct_values (fold pct_Add ms a))"
  using assms
proof (induction ms arbitrary: a b)
  case (Cons m ms)
  have v: "pct_values (pct_Add m a) = pct_values (fold (pct_add_field (Fields m)) (pct_fields a) a)"
    by (simp add: pct_Add_def Let_def)
  have "pct_small (b + int (length (pct_fields a))) (pct_values (pct_Add m a))"
    unfolding v by (rule pct_small_fold [OF Cons.prems])
  from Cons.IH [OF this] show ?case
    using Cons.prems(2) by (simp add: pct_Add_frame algebra_simps)
qed simp

lemma pct_Init_ok:
  assumes "pct_Init cfg a0 = Inr a"
  shows "list_all whole_percent (pct_percentiles a)" "pct_values a = []"
proof -
  have d: "list_all whole_percent defaultPercentiles"
    by (simp add: defaultPercentiles_def whole_percent_def)
  show "list_all whole_percent (pct_percentiles a)" "pct_values a = []"
    using assms d by (auto simp: pct_Init_def Let_def split: option.splits sum.splits dest: parse_percentiles_whole)
qed

lemma pct_fold_percentiles: "pct_percentiles (fold pct_Add ms a) = pct_percentiles a"
proof (rule fold_frame)
  fix m s
  have "pct_percentiles (fold (pct_add_field mf) fs s) = pct_percentiles s" for mf fs
    by (rule fold_frame) (simp add: pct_add_field_def split: option.splits)
  then show "pct_percentiles (pct_Add m s) = pct_percentiles s" by (simp add: pct_Add_def Let_def)
qed

text \<open>C30: Whatever configuration Init accepts, Push never indexes outside the sorted
  samples: the rounded index p/100*(n-1) stays within the slice, so Push always returns (up to 2^53
  samples in a window).\<close>

theorem percentile_push_no_panic:
  assumes "pct_Init cfg a0 = Inr a" "int (length ms * length (pct_fields a)) \<le> 2 ^ 53"
  shows "\<exists>r. pct_Push now (fold pct_Add ms a) acc = Some r"
proof -
  have "pct_small (int (length ms * length (pct_fields a))) (pct_values (fold pct_Add ms a))"
    using pct_small_window [of 0 a ms] pct_Init_ok [OF assms(1)] by (simp add: pct_small_def)
  then have "pct_small (2 ^ 53) (pct_values (fold pct_Add ms a))"
    using assms(2) unfolding pct_small_def by (fastforce split: option.splits)
  then obtain r where "pct_fields_out (pct_fields (fold pct_Add ms a)) (pct_percentiles a)
      (pct_values (fold pct_Add ms a)) [] = Some r"
    using pct_fields_out_total pct_Init_ok(1) [OF assms(1)] by blast
  then show ?thesis
    by (cases r) (simp add: pct_Push_def pct_fold_percentiles)
qed

theorem percentile_push_no_panic_witness:
  "(case pct_Init [(''fields'', GList [GString ''x''])] \<lparr>pct_fields = [], pct_percentiles = [], pct_values = [], pct_tags = [], pct_name = []\<rparr> of
      Inr a \<Rightarrow> \<exists>r. pct_Push 0 (fold pct_Add [NewMetric ''cpu'' [] [(''x'', GInt64 3)] Gauge 0] a) \<lparr>acc_metrics = [], acc_maxSize = 10\<rparr> = Some r
    | Inl _ \<Rightarrow> False)"
  using percentile_push_no_panic [of "[(''fields'', GList [GString ''x''])]"
     "\<lparr>pct_fields = [], pct_percentiles = [], pct_values = [], pct_tags = [], pct_name = []\<rparr>" _ "[NewMetric ''cpu'' [] [(''x'', GInt64 3)] Gauge 0]" 0 "\<lparr>acc_metrics = [], acc_maxSize = 10\<rparr>"]
  by (simp add: pct_Init_def parse_fields_def as_list_def as_string_def Let_def)

end
