(* ===== verification/Processors.thy ===== *)
theory Processors
imports Metrics Interfaces
begin

text \<open>
  Two processors of \<open>internal/collector/processors\<close>: delta, which turns cumulative counters into
  differences or rates, and tagger, which adds static and conditional tags. A processor maps a
  batch of metrics to a batch; delta also carries the previous values of every series.
\<close>

subsection \<open>delta\<close>

record entry =
  e_values :: "goval gomap"
  e_timestamp :: time

record delta =
  dl_fields :: "bool gomap"
  dl_outputMode :: string
  dl_maxStaleSeconds :: int
  dl_prev :: "entry gomap"

text \<open>A map is kept sorted by key, so its keys come out in the order of \<open>slices.Sorted\<close>.\<close>

definition metricKey :: "string \<Rightarrow> string gomap \<Rightarrow> string" where
  "metricKey name tags = name @ concat (map (\<lambda>(k, v). ''|'' @ k @ ''='' @ v) tags)"

definition delta_fields :: "goval gomap \<Rightarrow> bool gomap result" where
  "delta_fields cfg =
     (case map_of cfg ''fields'' of
        None \<Rightarrow> Inl ''delta: \"fields\" is required''
      | Some raw \<Rightarrow> (case as_list raw of
          None \<Rightarrow> Inl ''delta: \"fields\" must be a list, got %T''
        | Some xs \<Rightarrow> (case string_entries ''delta: field entry %d must be a string, got %T'' xs of
            Inl e \<Rightarrow> Inl e
          | Inr names \<Rightarrow> Inr (fold (\<lambda>n. map_put n True) names []))))"

definition delta_output :: "goval gomap \<Rightarrow> string result" where
  "delta_output cfg =
     (case map_of cfg ''output'' of
        None \<Rightarrow> Inr ''rate''
      | Some raw \<Rightarrow> (case as_string raw of
          None \<Rightarrow> Inl ''delta: \"output\" must be a string, got %T''
        | Some mode \<Rightarrow>
            if mode \<noteq> ''delta'' \<and> mode \<noteq> ''rate''
            then Inl ''delta: \"output\" must be \"delta\" or \"rate\", got %q'' else Inr mode))"

definition delta_stale :: "goval gomap \<Rightarrow> int result" where
  "delta_stale cfg =
     (case map_of cfg ''max_stale_seconds'' of
        None \<Rightarrow> Inr 300
      | Some (GInt v) \<Rightarrow> Inr v
      | Some (GInt64 v) \<Rightarrow> Inr v
      | Some (GFloat64 v) \<Rightarrow> Inr (to_int64 v)
      | Some _ \<Rightarrow> Inl ''delta: \"max_stale_seconds\" must be a number, got %T'')"

definition delta_Init :: "goval gomap \<Rightarrow> delta result" where
  "delta_Init cfg =
     (case delta_fields cfg of Inl e \<Rightarrow> Inl e
      | Inr fs \<Rightarrow> (case delta_output cfg of Inl e \<Rightarrow> Inl e
         | Inr mode \<Rightarrow> (case delta_stale cfg of Inl e \<Rightarrow> Inl e
            | Inr n \<Rightarrow> Inr \<lparr>dl_fields = fs, dl_outputMode = mode, dl_maxStaleSeconds = n, dl_prev = []\<rparr>)))"

definition delta_toFloat64 :: "goval \<Rightarrow> float64 option" where
  "delta_toFloat64 v = (case v of GInt64 i \<Rightarrow> Some (of_int64 i) | GFloat64 f \<Rightarrow> Some f
     | GInt i \<Rightarrow> Some (of_int64 i) | GFloat32 f \<Rightarrow> Some f | _ \<Rightarrow> None)"

definition zeroOfSameType :: "goval \<Rightarrow> goval" where
  "zeroOfSameType v = (case v of GInt64 _ \<Rightarrow> GInt64 0 | GFloat64 _ \<Rightarrow> GFloat64 fzero
     | GInt _ \<Rightarrow> GInt 0 | GFloat32 _ \<Rightarrow> GFloat32 fzero | _ \<Rightarrow> GFloat64 fzero)"

definition computeDelta :: "goval \<Rightarrow> goval \<Rightarrow> float64 option" where
  "computeDelta prev cur =
     (case delta_toFloat64 prev of None \<Rightarrow> None
      | Some prevF \<Rightarrow> (case delta_toFloat64 cur of None \<Rightarrow> None
         | Some curF \<Rightarrow> if flt curF prevF then None else Some (fsub curF prevF)))"

definition cleanupStale :: "time \<Rightarrow> delta \<Rightarrow> delta" where
  "cleanupStale now p =
     (let threshold = now + wrap64 (wrap64 (- dl_maxStaleSeconds p) * Second)
      in p\<lparr>dl_prev := filter (\<lambda>(k, e). \<not> e_timestamp e < threshold) (dl_prev p)\<rparr>)"

text \<open>The new value of one configured field that the metric has.\<close>

definition delta_value :: "string \<Rightarrow> entry option \<Rightarrow> time \<Rightarrow> string \<Rightarrow> goval \<Rightarrow> goval" where
  "delta_value mode prev ts fname curVal =
     (case Option.bind prev (\<lambda>e. map_of (e_values e) fname) of
        None \<Rightarrow> zeroOfSameType curVal
      | Some prevVal \<Rightarrow>
         (case computeDelta prevVal curVal of
            None \<Rightarrow> zeroOfSameType curVal
          | Some d \<Rightarrow>
              if mode = ''rate'' then
                (let elapsed = Seconds (time_sub ts (case prev of Some e \<Rightarrow> e_timestamp e | None \<Rightarrow> zero_time))
                 in if fle elapsed fzero then GFloat64 fzero else GFloat64 (fdiv d elapsed))
              else (case (prevVal, curVal) of
                      (GInt64 _, GInt64 _) \<Rightarrow> GInt64 (to_int64 d)
                    | _ \<Rightarrow> GFloat64 d)))"

definition delta_newFields :: "delta \<Rightarrow> entry option \<Rightarrow> time \<Rightarrow> goval gomap \<Rightarrow> goval gomap" where
  "delta_newFields p prev ts flds =
     fold (\<lambda>(fname, _) out. case map_of flds fname of None \<Rightarrow> out
             | Some curVal \<Rightarrow> map_put fname (delta_value (dl_outputMode p) prev ts fname curVal) out)
       (dl_fields p) (map_copy [] flds)"

definition delta_one :: "Metric \<Rightarrow> delta \<Rightarrow> Metric \<times> delta" where
  "delta_one m p =
     (let key = metricKey (m_name m) (Tags m);
          flds = Fields m;
          out = delta_newFields p (map_of (dl_prev p) key) (m_timestamp m) flds
      in (NewMetric (m_name m) (Tags m) out (m_type m) (m_timestamp m),
          p\<lparr>dl_prev := map_put key \<lparr>e_values = map_copy [] flds, e_timestamp = m_timestamp m\<rparr> (dl_prev p)\<rparr>))"

fun delta_loop :: "Metric list \<Rightarrow> delta \<Rightarrow> Metric list \<times> delta" where
  "delta_loop [] p = ([], p)"
| "delta_loop (m # ms) p =
     (let (m', p1) = delta_one m p; (ms', p2) = delta_loop ms p1 in (m' # ms', p2))"

definition delta_Apply :: "Metric list \<Rightarrow> delta \<Rightarrow> Metric list \<times> delta" where
  "delta_Apply ms p =
     (let latestTS = fold (\<lambda>m t. if t < m_timestamp m then m_timestamp m else t) ms zero_time;
          p1 = (if latestTS = zero_time then p else cleanupStale latestTS p)
      in delta_loop ms p1)"

subsection \<open>tagger\<close>

record Condition =
  c_tag :: string
  c_value :: string
  c_when :: string

record tagger =
  tg_static :: "string gomap"
  tg_conditions :: "Condition list"

definition tagger_New :: "string gomap \<Rightarrow> Condition list \<Rightarrow> tagger" where
  "tagger_New tags conds = \<lparr>tg_static = map_copy [] tags, tg_conditions = conds\<rparr>"

definition string_or_empty :: "goval option \<Rightarrow> string" where
  "string_or_empty v = (case Option.bind v as_string of None \<Rightarrow> [] | Some s \<Rightarrow> s)"

fun parse_conditions :: "goval list \<Rightarrow> Condition list result" where
  "parse_conditions [] = Inr []"
| "parse_conditions (v # vs) =
     (case as_map v of
        None \<Rightarrow> Inl ''tagger: condition entry %d must be a map, got %T''
      | Some cm \<Rightarrow> (case parse_conditions vs of Inl e \<Rightarrow> Inl e
          | Inr cs \<Rightarrow> Inr (\<lparr>c_tag = string_or_empty (map_of cm ''tag''),
                           c_value = string_or_empty (map_of cm ''value''),
                           c_when = string_or_empty (map_of cm ''when_name'')\<rparr> # cs)))"

text \<open>\<open>sprint\<close> is the \<open>%v\<close> rendering of a configuration value.\<close>

definition tagger_Init :: "(goval \<Rightarrow> string) \<Rightarrow> goval gomap \<Rightarrow> tagger \<Rightarrow> tagger result" where
  "tagger_Init sprint cfg p =
     (case (case map_of cfg ''tags'' of None \<Rightarrow> Inr p
            | Some raw \<Rightarrow> (case as_map raw of
                None \<Rightarrow> Inl ''tagger: \"tags\" must be a map, got %T''
              | Some tm \<Rightarrow> Inr (p\<lparr>tg_static := fold (\<lambda>(k, v). map_put k (sprint v)) tm []\<rparr>))) of
        Inl e \<Rightarrow> Inl e
      | Inr p1 \<Rightarrow>
         (case map_of cfg ''conditions'' of None \<Rightarrow> Inr p1
          | Some raw \<Rightarrow> (case as_list raw of
              None \<Rightarrow> Inl ''tagger: \"conditions\" must be a list, got %T''
            | Some xs \<Rightarrow> (case parse_conditions xs of Inl e \<Rightarrow> Inl e
                | Inr cs \<Rightarrow> Inr (p1\<lparr>tg_conditions := cs\<rparr>)))))"

definition tagger_one :: "tagger \<Rightarrow> Metric \<Rightarrow> Metric" where
  "tagger_one p m =
     (let m1 = fold (\<lambda>(k, v). AddTag k v) (tg_static p) m
      in fold (\<lambda>c m. if m_name m = c_when c then AddTag (c_tag c) (c_value c) m else m) (tg_conditions p) m1)"

definition tagger_Apply :: "tagger \<Rightarrow> Metric list \<Rightarrow> Metric list" where
  "tagger_Apply p ms = map (tagger_one p) ms"

subsection \<open>Lemmas on delta\<close>

lemma fold_fst: "fold (\<lambda>(k, _) s. g k s) xs s = fold g (map fst xs) s"
  by (induction xs arbitrary: s) auto

lemma newFields_lookup:
  assumes "map_ok (dl_fields p)" "map_ok flds"
  shows "map_of (delta_newFields p prev ts flds) f =
    (if f \<in> fst ` set (dl_fields p)
     then (case map_of flds f of None \<Rightarrow> None | Some v \<Rightarrow> Some (delta_value (dl_outputMode p) prev ts f v))
     else map_of flds f)"
proof -
  define step where "step k out = (case map_of flds k of None \<Rightarrow> out
      | Some v \<Rightarrow> map_put k (delta_value (dl_outputMode p) prev ts k v) out)" for k out
  have "map_of (step k out) j = (if j = k then (case map_of flds k of None \<Rightarrow> map_of out k
      | Some v \<Rightarrow> Some (delta_value (dl_outputMode p) prev ts k v)) else map_of out j)" for k out j
    by (simp add: step_def split: option.splits)
  from fold_keyed [of map_of step, OF this, of "map fst (dl_fields p)"]
  have "map_of (fold step (map fst (dl_fields p)) flds) f =
    (if f \<in> set (map fst (dl_fields p)) then (case map_of flds f of None \<Rightarrow> map_of flds f
      | Some v \<Rightarrow> Some (delta_value (dl_outputMode p) prev ts f v)) else map_of flds f)"
    using assms(1) by simp
  moreover have "delta_newFields p prev ts flds = fold step (map fst (dl_fields p)) flds"
    using assms(2) by (simp add: delta_newFields_def step_def [abs_def] fold_fst)
  ultimately show ?thesis by (simp split: option.splits)
qed

lemma delta_one_simps:
  assumes "metric_ok m" "map_ok (dl_fields p)" "key = metricKey (m_name m) (m_tags m)"
  shows "map_of (m_fields (fst (delta_one m p))) f =
      (if f \<in> fst ` set (dl_fields p)
       then (case map_of (m_fields m) f of None \<Rightarrow> None
             | Some v \<Rightarrow> Some (delta_value (dl_outputMode p) (map_of (dl_prev p) key) (m_timestamp m) f v))
       else map_of (m_fields m) f)"
    and "snd (delta_one m p) =
      p\<lparr>dl_prev := map_put key \<lparr>e_values = m_fields m, e_timestamp = m_timestamp m\<rparr> (dl_prev p)\<rparr>"
proof -
  have ok: "map_ok (m_fields m)" using assms(1) by (simp add: metric_ok_def)
  have "map_ok (delta_newFields p prev ts flds)" for prev ts flds
    unfolding delta_newFields_def
    by (rule fold_invariant [where Q = "\<lambda>_. True" and P = map_ok])
       (auto intro: map_ok_put map_ok_copy split: option.splits)
  then show "map_of (m_fields (fst (delta_one m p))) f =
      (if f \<in> fst ` set (dl_fields p)
       then (case map_of (m_fields m) f of None \<Rightarrow> None
             | Some v \<Rightarrow> Some (delta_value (dl_outputMode p) (map_of (dl_prev p) key) (m_timestamp m) f v))
       else map_of (m_fields m) f)"
    unfolding assms(3) using newFields_lookup [OF assms(2) ok] assms(1) by (simp add: delta_one_def NewMetric_def Let_def)
  show "snd (delta_one m p) =
      p\<lparr>dl_prev := map_put key \<lparr>e_values = m_fields m, e_timestamp = m_timestamp m\<rparr> (dl_prev p)\<rparr>"
    using assms ok by (simp add: delta_one_def Let_def)
qed

lemma computeDelta_ints:
  assumes "0 \<le> u" "u \<le> v" "v \<le> 2 ^ 53"
  shows "computeDelta (GInt64 u) (GInt64 v) = Some (Fin (of_int (v - u)))"
proof -
  have "of_int64 u = Fin (of_int u)" "of_int64 v = Fin (of_int v)"
    using assms by (auto intro!: of_int64_exact)
  moreover have "rnd (of_int (v - u)) = Fin (of_int (v - u))"
    using assms by (intro rnd_int) linarith
  ultimately show ?thesis
    using assms(2) by (simp add: computeDelta_def delta_toFloat64_def fsub_def fneg_def)
qed

lemma delta_value_ints:
  assumes "map_of (e_values e) f = Some (GInt64 u)" "0 \<le> u" "u \<le> v" "v \<le> 2 ^ 53" "mode \<noteq> ''rate''"
  shows "delta_value mode (Some e) ts f (GInt64 v) = GInt64 (v - u)"
  using assms computeDelta_ints [OF assms(2-4)]
  by (simp add: delta_value_def to_int64_def)

definition series :: "string \<Rightarrow> string gomap \<Rightarrow> string \<Rightarrow> Metric list \<Rightarrow> int list \<Rightarrow> bool" where
  "series name tags f ms vs =
     list_all2 (\<lambda>m v. metric_ok m \<and> m_name m = name \<and> m_tags m = tags
                      \<and> map_of (m_fields m) f = Some (GInt64 v)) ms vs"

definition int_values :: "string \<Rightarrow> Metric list \<Rightarrow> int list" where
  "int_values f ms = map (\<lambda>m. case map_of (m_fields m) f of Some (GInt64 i) \<Rightarrow> i | _ \<Rightarrow> 0) ms"

lemma delta_loop_telescopes:
  assumes "series name tags f ms vs" "sorted (u # vs)" "0 \<le> u" "\<forall>v \<in> set (u # vs). v \<le> 2 ^ 53"
    and "map_ok (dl_fields p)" "f \<in> fst ` set (dl_fields p)" "dl_outputMode p \<noteq> ''rate''"
    and "map_of (dl_prev p) (metricKey name tags) = Some e" "map_of (e_values e) f = Some (GInt64 u)"
  shows "sum_list (int_values f (fst (delta_loop ms p))) = last (u # vs) - u
       \<and> (\<forall>d \<in> set (int_values f (fst (delta_loop ms p))). 0 \<le> d)"
  using assms
proof (induction ms arbitrary: vs u p e)
  case Nil
  then show ?case by (simp add: series_def int_values_def)
next
  case (Cons m ms)
  obtain v ws where vs: "vs = v # ws" "series name tags f ms ws" "metric_ok m" "m_name m = name"
      "m_tags m = tags" "map_of (m_fields m) f = Some (GInt64 v)"
    using Cons.prems(1) by (auto simp: series_def list_all2_Cons1)
  have v: "u \<le> v" "v \<le> 2 ^ 53" using Cons.prems(2,4) vs(1) by auto
  note one = delta_one_simps [OF vs(3) Cons.prems(5) refl]
  have out: "map_of (m_fields (fst (delta_one m p))) f = Some (GInt64 (v - u))"
    using one(1) [of f] vs Cons.prems(6-9) v delta_value_ints [OF Cons.prems(9,3) v] by simp
  define p1 where "p1 = snd (delta_one m p)"
  have "sum_list (int_values f (fst (delta_loop ms p1))) = last (v # ws) - v
      \<and> (\<forall>d \<in> set (int_values f (fst (delta_loop ms p1))). 0 \<le> d)"
    by (rule Cons.IH [where e = "\<lparr>e_values = m_fields m, e_timestamp = m_timestamp m\<rparr>"])
       (use Cons.prems vs v one(2) in \<open>auto simp: p1_def\<close>)
  moreover have "int_values f (fst (delta_loop (m # ms) p)) = (v - u) # int_values f (fst (delta_loop ms p1))"
    using out by (cases "delta_one m p"; cases "delta_loop ms p1") (simp add: int_values_def p1_def)
  ultimately show ?case using vs(1) v by auto
qed

lemma cleanup_empty: "dl_prev p = [] \<Longrightarrow> cleanupStale now p = p"
  by (simp add: cleanupStale_def Let_def)

text \<open>On one series of a non-decreasing int64 counter (values up to 2^53), the differences a fresh
  delta processor emits are never negative and add up to the last value minus the first.\<close>

theorem delta_telescopes:
  assumes "delta_Init cfg = Inr p" "dl_outputMode p = ''delta''" "f \<in> fst ` set (dl_fields p)"
    and "series name tags f ms (v # vs)" "sorted (v # vs)" "0 \<le> v" "\<forall>x \<in> set (v # vs). x \<le> 2 ^ 53"
  shows "sum_list (int_values f (fst (delta_Apply ms p))) = last (v # vs) - v
       \<and> (\<forall>d \<in> set (int_values f (fst (delta_Apply ms p))). 0 \<le> d)"
proof -
  obtain m ms' where m: "ms = m # ms'" "series name tags f ms' vs" "metric_ok m" "m_name m = name"
      "m_tags m = tags" "map_of (m_fields m) f = Some (GInt64 v)"
    using assms(4) by (auto simp: series_def list_all2_Cons2)
  have p: "dl_prev p = []" "map_ok (dl_fields p)"
    using assms(1) by (auto simp: delta_Init_def delta_fields_def split: sum.splits option.splits
        intro!: fold_invariant [where Q = "\<lambda>_. True" and P = map_ok] map_ok_put)
  have app: "delta_Apply ms p = delta_loop ms p"
    using p(1) cleanup_empty by (simp add: delta_Apply_def Let_def)
  note one = delta_one_simps [OF m(3) p(2) refl]
  have out: "map_of (m_fields (fst (delta_one m p))) f = Some (GInt64 0)"
    using one(1) [of f] m p(1) assms(3) by (simp add: delta_value_def zeroOfSameType_def)
  define p1 where "p1 = snd (delta_one m p)"
  have "sum_list (int_values f (fst (delta_loop ms' p1))) = last (v # vs) - v
      \<and> (\<forall>d \<in> set (int_values f (fst (delta_loop ms' p1))). 0 \<le> d)"
    by (rule delta_loop_telescopes [where e = "\<lparr>e_values = m_fields m, e_timestamp = m_timestamp m\<rparr>"])
       (use assms m p one(2) in \<open>auto simp: p1_def\<close>)
  moreover have "int_values f (fst (delta_loop ms p)) = 0 # int_values f (fst (delta_loop ms' p1))"
    using out m(1) by (cases "delta_one m p"; cases "delta_loop ms' p1") (simp add: int_values_def p1_def)
  ultimately show ?thesis using app by auto
qed

abbreviation delta_cfg :: "goval gomap" where
  "delta_cfg \<equiv> [(''fields'', GList [GString ''rx'']), (''output'', GString ''delta'')]"

abbreviation delta_proc :: delta where
  "delta_proc \<equiv> \<lparr>dl_fields = [(''rx'', True)], dl_outputMode = ''delta'', dl_maxStaleSeconds = 300, dl_prev = []\<rparr>"

abbreviation rx_metric :: "int \<Rightarrow> time \<Rightarrow> Metric" where
  "rx_metric v t \<equiv> \<lparr>m_name = ''net'', m_tags = [], m_fields = [(''rx'', GInt64 v)], m_timestamp = t, m_type = Counter\<rparr>"

theorem delta_telescopes_witness:
  "sum_list (int_values ''rx'' (fst (delta_Apply [rx_metric 5 0, rx_metric 9 1, rx_metric 12 2] delta_proc))) = last [5, 9, 12] - 5
   \<and> list_all (\<lambda>d. 0 \<le> d) (int_values ''rx'' (fst (delta_Apply [rx_metric 5 0, rx_metric 9 1, rx_metric 12 2] delta_proc)))"
  unfolding list_all_iff
  by (rule delta_telescopes [where cfg = delta_cfg and name = "''net''" and tags = "[]"])
     (simp_all add: delta_Init_def delta_fields_def delta_output_def delta_stale_def as_list_def as_string_def
        series_def metric_ok_def map_ok_def)

text \<open>The difference of two int64 counters goes through float64: between 2^53 and 2^53 + 1 delta
  mode emits 0, so the type is preserved but the value is not.\<close>

theorem delta_loses_precision:
  "int_values ''rx'' (fst (delta_Apply [rx_metric (2 ^ 53) 0, rx_metric (2 ^ 53 + 1) 1] delta_proc)) = [0, 0]"
proof -
  have "ilog2 (2 ^ 53 + 1) = 53" by (rule ilog2_eqI) simp_all
  then have u: "ulp_exp (2 ^ 53 + 1) = 1" by (simp add: ulp_exp_def)
  have "\<lfloor>(9007199254740993 :: rat) / 2\<rfloor> = 4503599627370496" by (simp add: floor_eq_iff)
  then have "half_even ((2 ^ 53 + 1) / 2) = 2 ^ 52" by (simp add: half_even_def Let_def)
  with u have r: "rnd_pos (2 ^ 53 + 1) = 2 ^ 53" by (simp add: rnd_pos_def)
  have "\<not> f64_limit \<le> 2 ^ 53" using f64_limit_gt by simp
  with r have "rnd (2 ^ 53 + 1) = Fin (2 ^ 53)" by (simp add: rnd_def)
  then have "of_int64 (2 ^ 53 + 1) = Fin (2 ^ 53)" by (simp add: of_int64_def)
  moreover have "of_int64 (2 ^ 53) = Fin (2 ^ 53)" using of_int64_exact [of "2 ^ 53"] by simp
  ultimately have "computeDelta (GInt64 (2 ^ 53)) (GInt64 (2 ^ 53 + 1)) = Some (Fin 0)"
    by (simp add: computeDelta_def delta_toFloat64_def fsub_def fneg_def)
  then show ?thesis
    by (simp add: delta_Apply_def delta_one_def delta_newFields_def delta_value_def zeroOfSameType_def
        cleanup_empty Let_def Tags_def Fields_def map_copy_def NewMetric_def int_values_def metricKey_def
        to_int64_def zero_time_def)
qed

text \<open>Two different series can share a key: the key does not separate a name from the tags
  that follow it.\<close>

theorem metricKey_collision:
  "metricKey ''disk|dev=sda'' [] = metricKey ''disk'' [(''dev'', ''sda'')]"
  by (simp add: metricKey_def)

subsection \<open>Lemmas on tagger\<close>

lemma tags_fold_AddTag: "m_tags (fold (\<lambda>(k, v). AddTag k v) kvs m) = gomap.put_all kvs (m_tags m)"
  unfolding gomap.put_all_def by (induction kvs arbitrary: m) (auto simp: AddTag_def)

lemma name_fold_AddTag: "m_name (fold (\<lambda>(k, v). AddTag k v) kvs m) = m_name m"
  by (induction kvs arbitrary: m) (auto simp: AddTag_def)

lemma conditions_as_tags:
  "fold (\<lambda>c m. if m_name m = c_when c then AddTag (c_tag c) (c_value c) m else m) cs m =
   fold (\<lambda>(k, v). AddTag k v) (map (\<lambda>c. (c_tag c, c_value c)) (filter (\<lambda>c. c_when c = m_name m) cs)) m"
  by (induction cs arbitrary: m) (auto simp: AddTag_def)

text \<open>Tagging keeps a metric's name and fields, and a tag of the result is the one of the last
  matching condition, else the static one, else the metric's own.\<close>

theorem tagger_precedence:
  assumes "map_ok (tg_static p)"
  shows "map_of (m_tags (tagger_one p m)) =
     map_of (m_tags m) ++ map_of (tg_static p)
       ++ map_of (rev (map (\<lambda>c. (c_tag c, c_value c)) (filter (\<lambda>c. c_when c = m_name m) (tg_conditions p))))"
proof -
  have "map_of (rev (tg_static p)) = map_of (tg_static p)"
    using assms by (subst map_of_inject_set) (simp_all add: map_ok_def rev_map [symmetric])
  then show ?thesis
    by (simp add: tagger_one_def Let_def conditions_as_tags name_fold_AddTag tags_fold_AddTag gomap.get_put_all)
qed

theorem tagger_precedence_witness:
  "map_of (m_tags (tagger_one (tagger_New [(''env'', ''prod'')] [\<lparr>c_tag = ''env'', c_value = ''dev'', c_when = ''net''\<rparr>]) (rx_metric 1 0))) ''env'' = Some ''dev''"
  by (subst tagger_precedence) (simp_all add: tagger_New_def map_copy_def map_ok_def)

end
