(* ===== verification/Config_Types.thy ===== *)
theory Config_Types
imports Go_Values
begin

text \<open>
  The configuration structures of \<open>internal/config/config.go\<close>, one record per struct with its
  fields in source order; a field is named by a short prefix for its struct and the Go field
  name. Slices and maps are options, since a nil one and an empty one differ under
  \<open>reflect.DeepEqual\<close>.
\<close>

record AuditLogConfig =
  auditlog_Enabled :: "bool"
  auditlog_Path :: "string"
  auditlog_MaxSizeMB :: "int"
  auditlog_MaxBackups :: "int"

record AgentConfig =
  agent_ID :: "string"
  agent_Name :: "string"
  agent_Mode :: "string"
  agent_IntervalSeconds :: "int"
  agent_ShutdownTimeoutSeconds :: "int"
  agent_AuditLog :: "AuditLogConfig"

record ServerConfig =
  server_ListenAddr :: "string"

record ExecutorConfig =
  exec_TimeoutSeconds :: "int"
  exec_AllowedCommands :: "string slice"
  exec_MaxOutputBytes :: "int"

record ReporterConfig =
  rep_Mode :: "string"
  rep_Endpoint :: "string"
  rep_TimeoutSeconds :: "int"
  rep_RetryCount :: "int"
  rep_RetryIntervalMS :: "int"

record AuthConfig =
  auth_Enabled :: "bool"
  auth_BearerToken :: "string"

record PrometheusConfig =
  prom_Enabled :: "bool"
  prom_Path :: "string"
  prom_ProtectWithAuth :: "bool"

record PluginConfig =
  plug_Enabled :: "bool"
  plug_RuntimePath :: "string"
  plug_SocketPath :: "string"
  plug_AutoStart :: "bool"
  plug_StartupTimeoutSeconds :: "int"
  plug_RequestTimeoutSeconds :: "int"
  plug_MaxConcurrentTasks :: "int"
  plug_MaxResultBytes :: "int"
  plug_ChunkSizeBytes :: "int"
  plug_SandboxProfile :: "string"

record MTLSConfig =
  mtls_CertFile :: "string"
  mtls_KeyFile :: "string"
  mtls_CAFile :: "string"

record GRPCConfig =
  grpc_ServerAddr :: "string"
  grpc_EnrollToken :: "string"
  grpc_MTLS :: "MTLSConfig"
  grpc_HeartbeatIntervalSeconds :: "int"
  grpc_ReconnectInitialBackoffMS :: "int"
  grpc_ReconnectMaxBackoffMS :: "int"
  grpc_CachePersistPath :: "string"

record PolicyConfig =
  pol_AllowedCommands :: "string slice"
  pol_BlockedCommands :: "string slice"
  pol_BlockedKeywords :: "string slice"
  pol_AllowedInterpreters :: "string slice"
  pol_ScriptMaxBytes :: "int"
  pol_ShellInjectionCheck :: "bool"

record SandboxConfig =
  sbx_Enabled :: "bool"
  sbx_NsjailPath :: "string"
  sbx_BaseWorkdir :: "string"
  sbx_DefaultTimeoutSeconds :: "int"
  sbx_MaxConcurrentTasks :: "int"
  sbx_CgroupBasePath :: "string"
  sbx_AuditLogPath :: "string"
  sbx_Policy :: "PolicyConfig"
  sbx_AllowUnsandboxedFallback :: "bool"

record PluginInstanceConfig =
  inst_Type :: "string"
  inst_Config :: "goval gomap option"

record CollectorConfig =
  coll_Inputs :: "PluginInstanceConfig slice"
  coll_Processors :: "PluginInstanceConfig slice"
  coll_Aggregators :: "PluginInstanceConfig slice"
  coll_Outputs :: "PluginInstanceConfig slice"

record PluginGatewayConfig =
  pgw_Enabled :: "bool"
  pgw_PluginsDir :: "string"
  pgw_StartupTimeoutSeconds :: "int"
  pgw_HealthCheckIntervalSecs :: "int"
  pgw_MaxRestarts :: "int"
  pgw_RestartBackoffSeconds :: "int"
  pgw_FileWatchDebounceSecs :: "int"
  pgw_PluginConfigs :: "(goval gomap option) gomap option"

record CheckerConfig =
  chk_Enabled :: "bool"
  chk_MaxConcurrent :: "int"
  chk_DefaultTimeoutSeconds :: "int"
  chk_DisabledCheckers :: "string slice"

record GatewaySSHConfig =
  ssh_User :: "string"
  ssh_Password :: "string"
  ssh_KeyFile :: "string"
  ssh_Port :: "int"

record GatewayHostConfig =
  host_ID :: "string"
  host_Addr :: "string"
  host_Mode :: "string"
  host_SSH :: "GatewaySSHConfig"

record GatewayConfig =
  gw_Enabled :: "bool"
  gw_ListenAddr :: "string"
  gw_MaxTunnels :: "int"
  gw_TunnelTimeoutSeconds :: "int"
  gw_IdleTimeoutSeconds :: "int"
  gw_Hosts :: "GatewayHostConfig slice"

record TracingReceiver =
  trcv_GRPCAddr :: "string"
  trcv_HTTPAddr :: "string"

record TracingProcessor =
  tproc_BatchTimeoutMs :: "int"
  tproc_MaxBatchSize :: "int"

record TracingExporter =
  texp_Endpoint :: "string"
  texp_Protocol :: "string"

record TracingConfig =
  trc_Enabled :: "bool"
  trc_Receiver :: "TracingReceiver"
  trc_Processor :: "TracingProcessor"
  trc_Exporter :: "TracingExporter"

record AlertCondition =
  acond_Metric :: "string"
  acond_Operator :: "string"
  acond_Threshold :: "float64"
  acond_For :: "string"

record AlertNotify =
  anotify_Type :: "string"
  anotify_URL :: "string"
  anotify_Headers :: "string gomap option"

record AlertRule =
  arule_Name :: "string"
  arule_Condition :: "AlertCondition"
  arule_Severity :: "string"
  arule_Notify :: "AlertNotify slice"

record AlertingConfig =
  alerting_Enabled :: "bool"
  alerting_Rules :: "AlertRule slice"

record DiscoveryLayerConfig =
  dlayer_Type :: "string"
  dlayer_Enabled :: "bool"

record DiscoveryConfig =
  disc_Enabled :: "bool"
  disc_IntervalSec :: "int"
  disc_Layers :: "DiscoveryLayerConfig slice"

record UpdaterConfig =
  upd_Enabled :: "bool"
  upd_CurrentPath :: "string"
  upd_BackupPath :: "string"
  upd_DownloadDir :: "string"

record WASMConfig =
  wasm_Enabled :: "bool"
  wasm_PluginsDir :: "string"
  wasm_MaxModules :: "int"
  wasm_CacheDir :: "string"

record FederationSecurity =
  fsec_MTLS :: "MTLSConfig"
  fsec_PSK :: "string"

record GroupRuleConfig =
  grule_Name :: "string"
  grule_Match :: "string gomap option"

record ConfigLevelsConfig =
  clev_Global :: "goval gomap option"
  clev_Regions :: "(goval gomap option) gomap option"
  clev_Groups :: "(goval gomap option) gomap option"
  clev_Agents :: "(goval gomap option) gomap option"

record CanaryStageConfig =
  stage_Percentage :: "int"
  stage_WaitSeconds :: "int"
  stage_AutoRollback :: "bool"

record CanaryConfig =
  canary_Strategy :: "string"
  canary_Stages :: "CanaryStageConfig slice"

record RetryPolicyConfig =
  retry_MaxRetries :: "int"
  retry_BackoffSeconds :: "int"

record OperationsConfig =
  ops_MaxConcurrent :: "int"
  ops_DefaultTimeoutSeconds :: "int"
  ops_RetryPolicy :: "RetryPolicyConfig"

record FederationHubConfig =
  hub_ListenAddr :: "string"
  hub_Region :: "string"
  hub_MaxLeaves :: "int"
  hub_LeafHeartbeatTimeoutSeconds :: "int"
  hub_MetricsAggregationIntervalSec :: "int"
  hub_Security :: "FederationSecurity"
  hub_Groups :: "GroupRuleConfig slice"
  hub_ConfigLevels :: "ConfigLevelsConfig"
  hub_Canary :: "CanaryConfig"
  hub_Operations :: "OperationsConfig"

record FallbackConfig =
  fallback_Enabled :: "bool"
  fallback_Mode :: "string"
  fallback_PlatformAddr :: "string"
  fallback_CheckIntervalSec :: "int"

record FederationLeafConfig =
  leaf_HubAddr :: "string"
  leaf_ReconnectIntervalSec :: "int"
  leaf_ReportIntervalSec :: "int"
  leaf_Fallback :: "FallbackConfig"

record FederationConfig =
  fed_Enabled :: "bool"
  fed_Hub :: "FederationHubConfig"
  fed_Leaf :: "FederationLeafConfig"

record Config =
  cfg_Agent :: "AgentConfig"
  cfg_Server :: "ServerConfig"
  cfg_Executor :: "ExecutorConfig"
  cfg_Reporter :: "ReporterConfig"
  cfg_Auth :: "AuthConfig"
  cfg_Prometheus :: "PrometheusConfig"
  cfg_Plugin :: "PluginConfig"
  cfg_GRPC :: "GRPCConfig"
  cfg_Sandbox :: "SandboxConfig"
  cfg_Collector :: "CollectorConfig"
  cfg_PluginGateway :: "PluginGatewayConfig"
  cfg_Checker :: "CheckerConfig"
  cfg_Gateway :: "GatewayConfig"
  cfg_Tracing :: "TracingConfig"
  cfg_Alerting :: "AlertingConfig"
  cfg_Discovery :: "DiscoveryConfig"
  cfg_Updater :: "UpdaterConfig"
  cfg_WASM :: "WASMConfig"
  cfg_Federation :: "FederationConfig"

definition AgentModeStandalone :: string where "AgentModeStandalone = ''standalone''"
definition AgentModeHub :: string where "AgentModeHub = ''hub''"
definition AgentModeLeaf :: string where "AgentModeLeaf = ''leaf''"

end
