(* ===== verification/Config.thy ===== *)
theory Config
imports Config_Types
begin

text \<open>
  \<open>Load\<close> and \<open>Validate\<close> of \<open>internal/config/config.go\<close>. A Go error is represented by its format
  string. \<open>Validate\<close> is the sequence of the checks of each section, in source order; the first
  one that fails gives the error.
\<close>

abbreviation blank :: "string \<Rightarrow> bool" where
  "blank s \<equiv> TrimSpace s = []"

definition validate_agent :: "Config \<Rightarrow> err list" where
  "validate_agent c =
    [fail_if (agent_ID (cfg_Agent c) = []) ''agent.id is required'',
     fail_if (agent_Name (cfg_Agent c) = []) ''agent.name is required'',
     fail_if (agent_IntervalSeconds (cfg_Agent c) \<le> 0) ''agent.interval_seconds must be > 0'',
     fail_if (server_ListenAddr (cfg_Server c) = []) ''server.listen_addr is required'',
     fail_if (exec_TimeoutSeconds (cfg_Executor c) \<le> 0) ''executor.timeout_seconds must be > 0'',
     fail_if (elems (exec_AllowedCommands (cfg_Executor c)) = [])
       ''executor.allowed_commands must not be empty'',
     fail_if (list_ex (\<lambda>cmd. blank cmd) (elems (exec_AllowedCommands (cfg_Executor c))))
       ''executor.allowed_commands contains empty command'',
     fail_if (exec_MaxOutputBytes (cfg_Executor c) \<le> 0) ''executor.max_output_bytes must be > 0'']"

definition validate_reporter :: "ReporterConfig \<Rightarrow> err list" where
  "validate_reporter r =
    [fail_if (rep_Mode r \<noteq> ''stdout'' \<and> rep_Mode r \<noteq> ''http'') ''reporter.mode must be one of: stdout, http'',
     fail_if (rep_Mode r = ''http'' \<and> blank (rep_Endpoint r))
       ''reporter.endpoint is required when reporter.mode=http'',
     fail_if (rep_TimeoutSeconds r \<le> 0) ''reporter.timeout_seconds must be > 0'',
     fail_if (rep_RetryCount r < 0) ''reporter.retry_count must be >= 0'',
     fail_if (rep_RetryIntervalMS r < 0) ''reporter.retry_interval_ms must be >= 0'']"

definition validate_auth :: "AuthConfig \<Rightarrow> err list" where
  "validate_auth a =
    [guarded (auth_Enabled a)
      [fail_if (TrimSpace (auth_BearerToken a) = []) ''auth.bearer_token is required when auth.enabled=true'',
       fail_if (length (TrimSpace (auth_BearerToken a)) < 32)
         ''auth.bearer_token must be at least 32 characters when auth.enabled=true'']]"

definition validate_prometheus :: "PrometheusConfig \<Rightarrow> err list" where
  "validate_prometheus p =
    [guarded (prom_Enabled p)
      [fail_if (blank (prom_Path p)) ''prometheus.path is required when prometheus.enabled=true'',
       fail_if (\<not> HasPrefix (prom_Path p) ''/'') ''prometheus.path must start with /'']]"

definition validate_plugin :: "PluginConfig \<Rightarrow> err list" where
  "validate_plugin p =
    [guarded (plug_Enabled p)
      [fail_if (blank (plug_SocketPath p)) ''plugin.socket_path is required when plugin.enabled=true'',
       fail_if (plug_AutoStart p \<and> blank (plug_RuntimePath p))
         ''plugin.runtime_path is required when plugin.auto_start=true'',
       fail_if (plug_StartupTimeoutSeconds p \<le> 0) ''plugin.startup_timeout_seconds must be > 0'',
       fail_if (plug_RequestTimeoutSeconds p \<le> 0) ''plugin.request_timeout_seconds must be > 0'',
       fail_if (plug_MaxConcurrentTasks p \<le> 0) ''plugin.max_concurrent_tasks must be > 0'',
       fail_if (plug_MaxResultBytes p \<le> 0) ''plugin.max_result_bytes must be > 0'',
       fail_if (plug_ChunkSizeBytes p \<le> 0) ''plugin.chunk_size_bytes must be > 0'',
       fail_if (blank (plug_SandboxProfile p)) ''plugin.sandbox_profile is required'']]"

definition validate_grpc :: "GRPCConfig \<Rightarrow> err list" where
  "validate_grpc g =
    [fail_if (blank (grpc_ServerAddr g)) ''grpc.server_addr is required'',
     fail_if (grpc_HeartbeatIntervalSeconds g \<le> 0) ''grpc.heartbeat_interval_seconds must be > 0'',
     fail_if (grpc_ReconnectInitialBackoffMS g \<le> 0) ''grpc.reconnect_initial_backoff_ms must be > 0'',
     fail_if (grpc_ReconnectMaxBackoffMS g \<le> 0) ''grpc.reconnect_max_backoff_ms must be > 0'']"

definition validate_sandbox :: "SandboxConfig \<Rightarrow> err list" where
  "validate_sandbox s =
    [guarded (sbx_Enabled s)
      [fail_if (blank (sbx_NsjailPath s)) ''sandbox.nsjail_path is required when sandbox.enabled=true'',
       fail_if (blank (sbx_BaseWorkdir s)) ''sandbox.base_workdir is required when sandbox.enabled=true'',
       fail_if (sbx_DefaultTimeoutSeconds s \<le> 0) ''sandbox.default_timeout_seconds must be > 0'',
       fail_if (sbx_MaxConcurrentTasks s \<le> 0) ''sandbox.max_concurrent_tasks must be > 0'',
       fail_if (blank (sbx_CgroupBasePath s)) ''sandbox.cgroup_base_path is required when sandbox.enabled=true'',
       fail_if (blank (sbx_AuditLogPath s)) ''sandbox.audit_log_path is required when sandbox.enabled=true'',
       fail_if (elems (pol_AllowedCommands (sbx_Policy s)) = [])
         ''sandbox.policy.allowed_commands must not be empty when sandbox.enabled=true'',
       fail_if (pol_ScriptMaxBytes (sbx_Policy s) \<le> 0) ''sandbox.policy.script_max_bytes must be > 0'']]"

definition validate_plugin_gateway :: "PluginGatewayConfig \<Rightarrow> err list" where
  "validate_plugin_gateway p =
    [guarded (pgw_Enabled p)
      [fail_if (blank (pgw_PluginsDir p)) ''plugin_gateway.plugins_dir is required when plugin_gateway.enabled=true'',
       fail_if (pgw_StartupTimeoutSeconds p \<le> 0) ''plugin_gateway.startup_timeout_seconds must be > 0'',
       fail_if (pgw_HealthCheckIntervalSecs p \<le> 0) ''plugin_gateway.health_check_interval_seconds must be > 0'',
       fail_if (pgw_MaxRestarts p < 0) ''plugin_gateway.max_restarts must be >= 0'']]"

definition validate_checker :: "CheckerConfig \<Rightarrow> err list" where
  "validate_checker k =
    [guarded (chk_Enabled k)
      [fail_if (chk_MaxConcurrent k \<le> 0) ''checker.max_concurrent must be > 0 when checker.enabled=true'',
       fail_if (chk_DefaultTimeoutSeconds k \<le> 0)
         ''checker.default_timeout_seconds must be > 0 when checker.enabled=true'']]"

definition validate_host :: "GatewayHostConfig \<Rightarrow> err list" where
  "validate_host h =
    [fail_if (host_ID h = []) ''gateway.hosts[%d].id is required'',
     fail_if (host_Addr h = []) ''gateway.hosts[%d].addr is required'',
     fail_if (host_Mode h \<notin> {''tunnel'', ''proxy'', ''auto''})
       ''gateway.hosts[%d].mode must be one of: tunnel, proxy, auto'',
     guarded (host_Mode h = ''proxy'' \<or> host_Mode h = ''auto'')
      [fail_if (ssh_User (host_SSH h) = []) ''gateway.hosts[%d].ssh.user is required when mode=%s'',
       fail_if (ssh_Port (host_SSH h) \<le> 0) ''gateway.hosts[%d].ssh.port must be > 0 when mode=%s'']]"

definition validate_gateway :: "GatewayConfig \<Rightarrow> err list" where
  "validate_gateway g =
    [guarded (gw_Enabled g)
      ([fail_if (blank (gw_ListenAddr g)) ''gateway.listen_addr is required when gateway.enabled=true'',
        fail_if (gw_MaxTunnels g \<le> 0) ''gateway.max_tunnels must be > 0 when gateway.enabled=true'',
        fail_if (gw_TunnelTimeoutSeconds g \<le> 0)
          ''gateway.tunnel_timeout_seconds must be > 0 when gateway.enabled=true'',
        fail_if (gw_IdleTimeoutSeconds g \<le> 0)
          ''gateway.idle_timeout_seconds must be > 0 when gateway.enabled=true'']
       @ concat (map validate_host (elems (gw_Hosts g))))]"

definition validOps :: "string list" where
  "validOps = [''>'', ''<'', ''>='', ''<='', ''=='', ''!='']"

definition validate_rule :: "AlertRule \<Rightarrow> err list" where
  "validate_rule r =
    [fail_if (arule_Name r = []) ''alerting.rules[%d].name is required'',
     fail_if (acond_Metric (arule_Condition r) = []) ''alerting.rules[%d].condition.metric is required'',
     fail_if (acond_Operator (arule_Condition r) \<notin> set validOps)
       ''alerting.rules[%d].condition.operator must be one of: >, <, >=, <=, ==, !='']"

definition validate_tracing :: "TracingConfig \<Rightarrow> err list" where
  "validate_tracing t =
    [guarded (trc_Enabled t)
      [fail_if (texp_Endpoint (trc_Exporter t) = [])
        ''tracing.exporter.endpoint is required when tracing is enabled'']]"

definition validate_alerting :: "AlertingConfig \<Rightarrow> err list" where
  "validate_alerting a =
    [guarded (alerting_Enabled a) (concat (map validate_rule (elems (alerting_Rules a))))]"

text \<open>The stages in order; \<open>prev\<close> is the percentage of the stage before, if there is one.\<close>

fun validate_stages :: "int option \<Rightarrow> CanaryStageConfig list \<Rightarrow> err list" where
  "validate_stages prev [] = []"
| "validate_stages prev (st # sts) =
    fail_if (stage_Percentage st \<le> 0 \<or> stage_Percentage st > 100)
      ''federation.hub.canary.stages[%d].percentage must be 1-100''
    # fail_if (case prev of None \<Rightarrow> False | Some q \<Rightarrow> stage_Percentage st \<le> q)
      ''federation.hub.canary.stages must be sorted by percentage ascending''
    # validate_stages (Some (stage_Percentage st)) sts"

definition validate_hub :: "FederationHubConfig \<Rightarrow> err list" where
  "validate_hub h =
    [fail_if (blank (hub_ListenAddr h)) ''federation.hub.listen_addr is required when agent.mode=hub'',
     fail_if (blank (hub_Region h)) ''federation.hub.region is required when agent.mode=hub'',
     fail_if (hub_MaxLeaves h \<le> 0) ''federation.hub.max_leaves must be > 0 when agent.mode=hub'',
     fail_if (hub_LeafHeartbeatTimeoutSeconds h \<le> 0)
       ''federation.hub.leaf_heartbeat_timeout_seconds must be > 0 when agent.mode=hub'',
     fail_if (hub_MetricsAggregationIntervalSec h \<le> 0)
       ''federation.hub.metrics_aggregation_interval_seconds must be > 0 when agent.mode=hub'']
    @ validate_stages None (elems (canary_Stages (hub_Canary h)))
    @ [fail_if (canary_Strategy (hub_Canary h) \<notin> {[], ''percentage''})
        ''federation.hub.canary.strategy must be one of: percentage'']"

definition validate_leaf :: "FederationLeafConfig \<Rightarrow> err list" where
  "validate_leaf l =
    [fail_if (blank (leaf_HubAddr l)) ''federation.leaf.hub_addr is required when agent.mode=leaf'',
     fail_if (fallback_Mode (leaf_Fallback l) \<notin> {[], ''standalone''})
       ''federation.leaf.fallback.mode must be one of: standalone'']"

definition validate_federation :: "Config \<Rightarrow> err list" where
  "validate_federation c =
    (let mode = agent_Mode (cfg_Agent c); f = cfg_Federation c in
     [guarded (fed_Enabled f \<and> mode = AgentModeHub) (validate_hub (fed_Hub f)),
      guarded (fed_Enabled f \<and> mode = AgentModeLeaf) (validate_leaf (fed_Leaf f))])"

definition Validate :: "Config \<Rightarrow> err" where
  "Validate c = first_err
     (validate_agent c
      @ validate_reporter (cfg_Reporter c)
      @ validate_auth (cfg_Auth c)
      @ validate_prometheus (cfg_Prometheus c)
      @ validate_plugin (cfg_Plugin c)
      @ validate_grpc (cfg_GRPC c)
      @ validate_sandbox (cfg_Sandbox c)
      @ validate_plugin_gateway (cfg_PluginGateway c)
      @ validate_checker (cfg_Checker c)
      @ validate_gateway (cfg_Gateway c)
      @ validate_tracing (cfg_Tracing c)
      @ validate_alerting (cfg_Alerting c)
      @ validate_federation c)"

text \<open>The defaults \<open>Load\<close> sets before reading the file, in source order.\<close>

definition load_defaults :: "(string \<times> goval) list" where
  "load_defaults =
    [(''agent.interval_seconds'', GInt 10),
     (''agent.shutdown_timeout_seconds'', GInt 30),
     (''agent.audit_log.enabled'', GBool False),
     (''agent.audit_log.path'', GString ''/var/log/opsagent/audit.jsonl''),
     (''agent.audit_log.max_size_mb'', GInt 100),
     (''agent.audit_log.max_backups'', GInt 5),
     (''server.listen_addr'', GString ''127.0.0.1:18080''),
     (''executor.timeout_seconds'', GInt 10),
     (''executor.max_output_bytes'', GInt 65536),
     (''reporter.mode'', GString ''stdout''),
     (''reporter.timeout_seconds'', GInt 5),
     (''reporter.retry_count'', GInt 3),
     (''reporter.retry_interval_ms'', GInt 500),
     (''auth.enabled'', GBool True),
     (''prometheus.enabled'', GBool True),
     (''prometheus.path'', GString ''/metrics''),
     (''prometheus.protect_with_auth'', GBool False),
     (''plugin.enabled'', GBool False),
     (''plugin.runtime_path'', GString ''./rust-runtime/target/release/github.com/cy77cc/opsagent-rust-runtime''),
     (''plugin.socket_path'', GString ''/tmp/github.com/cy77cc/opsagent/plugin.sock''),
     (''plugin.auto_start'', GBool True),
     (''plugin.startup_timeout_seconds'', GInt 5),
     (''plugin.request_timeout_seconds'', GInt 30),
     (''plugin.max_concurrent_tasks'', GInt 4),
     (''plugin.max_result_bytes'', GInt 8388608),
     (''plugin.chunk_size_bytes'', GInt 262144),
     (''plugin.sandbox_profile'', GString ''strict''),
     (''grpc.heartbeat_interval_seconds'', GInt 15),
     (''grpc.reconnect_initial_backoff_ms'', GInt 1000),
     (''grpc.reconnect_max_backoff_ms'', GInt 30000),
     (''grpc.cache_persist_path'', GString []),
     (''sandbox.enabled'', GBool False),
     (''sandbox.default_timeout_seconds'', GInt 30),
     (''sandbox.max_concurrent_tasks'', GInt 4),
     (''sandbox.policy.shell_injection_check'', GBool True),
     (''sandbox.policy.script_max_bytes'', GInt 65536),
     (''plugin_gateway.enabled'', GBool False),
     (''plugin_gateway.plugins_dir'', GString ''/etc/opsagent/plugins''),
     (''plugin_gateway.startup_timeout_seconds'', GInt 10),
     (''plugin_gateway.health_check_interval_seconds'', GInt 30),
     (''plugin_gateway.max_restarts'', GInt 3),
     (''plugin_gateway.restart_backoff_seconds'', GInt 5),
     (''plugin_gateway.file_watch_debounce_seconds'', GInt 2),
     (''checker.enabled'', GBool True),
     (''checker.max_concurrent'', GInt 5),
     (''checker.default_timeout_seconds'', GInt 30),
     (''gateway.enabled'', GBool False),
     (''gateway.listen_addr'', GString '':18081''),
     (''gateway.max_tunnels'', GInt 100),
     (''gateway.tunnel_timeout_seconds'', GInt 30),
     (''gateway.idle_timeout_seconds'', GInt 300),
     (''tracing.enabled'', GBool False),
     (''tracing.receiver.grpc_addr'', GString ''0.0.0.0:4317''),
     (''tracing.receiver.http_addr'', GString ''0.0.0.0:4318''),
     (''tracing.processor.batch_timeout_ms'', GInt 5000),
     (''tracing.processor.max_batch_size'', GInt 512),
     (''tracing.exporter.protocol'', GString ''grpc''),
     (''alerting.enabled'', GBool False),
     (''discovery.enabled'', GBool False),
     (''discovery.interval_seconds'', GInt 300),
     (''updater.enabled'', GBool False),
     (''wasm.enabled'', GBool False),
     (''wasm.plugins_dir'', GString ''/etc/opsagent/wasm-plugins''),
     (''wasm.max_modules'', GInt 10),
     (''wasm.cache_dir'', GString ''/var/lib/opsagent/wasm-cache''),
     (''agent.mode'', GString AgentModeStandalone),
     (''federation.enabled'', GBool False),
     (''federation.hub.listen_addr'', GString '':9443''),
     (''federation.hub.max_leaves'', GInt 500),
     (''federation.hub.leaf_heartbeat_timeout_seconds'', GInt 60),
     (''federation.hub.metrics_aggregation_interval_seconds'', GInt 30),
     (''federation.hub.canary.strategy'', GString ''percentage''),
     (''federation.hub.operations.max_concurrent'', GInt 50),
     (''federation.hub.operations.default_timeout_seconds'', GInt 300),
     (''federation.hub.operations.retry_policy.max_retries'', GInt 3),
     (''federation.hub.operations.retry_policy.backoff_seconds'', GInt 10),
     (''federation.leaf.reconnect_interval_seconds'', GInt 5),
     (''federation.leaf.report_interval_seconds'', GInt 30),
     (''federation.leaf.fallback.enabled'', GBool False),
     (''federation.leaf.fallback.mode'', GString ''standalone''),
     (''federation.leaf.fallback.check_interval_seconds'', GInt 30)]"

text \<open>
  \<open>read\<close> stands for viper: given the defaults and the path it reads the file
  (\<open>Inl\<close> a read error) and decodes it into a configuration (\<open>Inl\<close> a decoding error).
\<close>

definition Load :: "((string \<times> goval) list \<Rightarrow> string \<Rightarrow> Config result) \<Rightarrow> string \<Rightarrow> Config result" where
  "Load read path =
     (case read load_defaults path of
        Inl e \<Rightarrow> Inl e
      | Inr c \<Rightarrow> (case Validate c of Some e \<Rightarrow> Inl e | None \<Rightarrow> Inr c))"

subsection \<open>Lemmas\<close>

lemma validate_stages_ok:
  assumes "\<forall>e \<in> set (validate_stages prev sts). e = None"
  shows "(\<forall>st \<in> set sts. 1 \<le> stage_Percentage st \<and> stage_Percentage st \<le> 100)
       \<and> sorted_wrt (<) (map stage_Percentage sts)
       \<and> (\<forall>st \<in> set sts. case prev of None \<Rightarrow> True | Some q \<Rightarrow> q < stage_Percentage st)"
  using assms
proof (induction sts arbitrary: prev)
  case (Cons st sts)
  have "(\<forall>x \<in> set sts. 1 \<le> stage_Percentage x \<and> stage_Percentage x \<le> 100)
      \<and> sorted_wrt (<) (map stage_Percentage sts) \<and> (\<forall>x \<in> set sts. stage_Percentage st < stage_Percentage x)"
    using Cons.IH [of "Some (stage_Percentage st)"] Cons.prems by simp
  moreover have "1 \<le> stage_Percentage st" "stage_Percentage st \<le> 100"
      "case prev of None \<Rightarrow> True | Some q \<Rightarrow> q < stage_Percentage st"
    using Cons.prems by (auto split: option.splits)
  ultimately show ?case by (auto split: option.splits)
qed simp

lemma Validate_stages:
  assumes "Validate c = None" "fed_Enabled (cfg_Federation c)" "agent_Mode (cfg_Agent c) = AgentModeHub"
  defines "sts \<equiv> elems (canary_Stages (hub_Canary (fed_Hub (cfg_Federation c))))"
  shows "\<forall>st \<in> set sts. 1 \<le> stage_Percentage st \<and> stage_Percentage st \<le> 100"
    and "sorted_wrt (<) (map stage_Percentage sts)"
proof -
  have "\<forall>e \<in> set (validate_federation c). e = None"
    using assms(1) unfolding Validate_def by auto
  then have "\<forall>e \<in> set (validate_hub (fed_Hub (cfg_Federation c))). e = None"
    using assms(2,3) by (simp add: validate_federation_def Let_def)
  then have "\<forall>e \<in> set (validate_stages None sts). e = None"
    unfolding validate_hub_def sts_def by auto
  from validate_stages_ok [OF this]
  show "\<forall>st \<in> set sts. 1 \<le> stage_Percentage st \<and> stage_Percentage st \<le> 100"
    and "sorted_wrt (<) (map stage_Percentage sts)" by simp_all
qed

end
