(* ===== verification/Config_Reload.thy ===== *)
theory Config_Reload
imports Config
begin

text \<open>
  Hot reload: \<open>internal/config/diff.go\<close> and \<open>internal/config/reload.go\<close>. A subsystem that can be
  reloaded is a value of a type of reloaders with the three operations of the Go interface as
  functions of it; they act on the state of the agent. The locale \<open>reloaders\<close> is the contract
  under which a reload, failed or not, leaves every subsystem in step with the current
  configuration.
\<close>

record ChangeSet =
  CollectorChanged :: bool
  ReporterChanged :: bool
  AuthChanged :: bool
  PrometheusChanged :: bool
  PluginGatewayChanged :: bool
  CheckerChanged :: bool
  AlertingChanged :: bool

text \<open>The values a non-reloadable change carries.\<close>

datatype change_val =
    CStr string | CInt int | CBool bool | CStrs "string slice" | CMtls MTLSConfig
  | CSandbox SandboxConfig | CPlugin PluginConfig | CHost GatewayHostConfig

record NonReloadableChange =
  nr_Field :: string
  nr_OldVal :: change_val
  nr_NewVal :: change_val

text \<open>\<open>reflect.DeepEqual\<close>: equal and without a NaN, which differs from itself.\<close>

fun has_nan :: "goval \<Rightarrow> bool" where
  "has_nan (GFloat64 f) = (f = NaN)"
| "has_nan (GFloat32 f) = (f = NaN)"
| "has_nan (GList vs) = list_ex has_nan vs"
| "has_nan (GMap m) = list_ex (\<lambda>p. has_nan (snd p)) m"
| "has_nan _ = False"

definition map_has_nan :: "goval gomap option \<Rightarrow> bool" where
  "map_has_nan m = (case m of None \<Rightarrow> False | Some kvs \<Rightarrow> list_ex (\<lambda>p. has_nan (snd p)) kvs)"

definition instances_nan :: "PluginInstanceConfig slice \<Rightarrow> bool" where
  "instances_nan xs = list_ex (\<lambda>x. map_has_nan (inst_Config x)) (elems xs)"

definition deepEqual_collector :: "CollectorConfig \<Rightarrow> CollectorConfig \<Rightarrow> bool" where
  "deepEqual_collector a b = (a = b \<and> \<not> instances_nan (coll_Inputs a) \<and> \<not> instances_nan (coll_Processors a)
     \<and> \<not> instances_nan (coll_Aggregators a) \<and> \<not> instances_nan (coll_Outputs a))"

definition deepEqual_plugin_gateway :: "PluginGatewayConfig \<Rightarrow> PluginGatewayConfig \<Rightarrow> bool" where
  "deepEqual_plugin_gateway a b =
     (a = b \<and> \<not> (case pgw_PluginConfigs a of None \<Rightarrow> False | Some m \<Rightarrow> list_ex (\<lambda>p. map_has_nan (snd p)) m))"

definition deepEqual_alerting :: "AlertingConfig \<Rightarrow> AlertingConfig \<Rightarrow> bool" where
  "deepEqual_alerting a b =
     (a = b \<and> list_all (\<lambda>r. acond_Threshold (arule_Condition r) \<noteq> NaN) (elems (alerting_Rules a)))"

definition maskSecret :: "string \<Rightarrow> string" where
  "maskSecret s = (if length s \<le> 4 then ''***'' else take 2 s @ ''***'' @ drop (length s - 2) s)"

definition diffReporter :: "Config \<Rightarrow> Config \<Rightarrow> bool" where
  "diffReporter old new = (cfg_Reporter old \<noteq> cfg_Reporter new)"

definition diffAuth :: "Config \<Rightarrow> Config \<Rightarrow> bool" where
  "diffAuth old new = (cfg_Auth old \<noteq> cfg_Auth new)"

definition diffPrometheus :: "Config \<Rightarrow> Config \<Rightarrow> bool" where
  "diffPrometheus old new = (cfg_Prometheus old \<noteq> cfg_Prometheus new)"

definition diffPluginGateway :: "Config \<Rightarrow> Config \<Rightarrow> bool" where
  "diffPluginGateway old new = (\<not> deepEqual_plugin_gateway (cfg_PluginGateway old) (cfg_PluginGateway new))"

definition diffChecker :: "Config \<Rightarrow> Config \<Rightarrow> bool" where
  "diffChecker old new = (cfg_Checker old \<noteq> cfg_Checker new)"

definition diffAlerting :: "Config \<Rightarrow> Config \<Rightarrow> bool" where
  "diffAlerting old new = (\<not> deepEqual_alerting (cfg_Alerting old) (cfg_Alerting new))"

text \<open>One \<open>if old.X != new.X\<close> statement: the change when the two values differ.\<close>

definition change_if :: "bool \<Rightarrow> string \<Rightarrow> change_val \<Rightarrow> change_val \<Rightarrow> NonReloadableChange list" where
  "change_if b f ov nv = (if b then [\<lparr>nr_Field = f, nr_OldVal = ov, nr_NewVal = nv\<rparr>] else [])"

definition diff_str :: "string \<Rightarrow> string \<Rightarrow> string \<Rightarrow> NonReloadableChange list" where
  "diff_str f ov nv = change_if (ov \<noteq> nv) f (CStr ov) (CStr nv)"

definition diff_int :: "string \<Rightarrow> int \<Rightarrow> int \<Rightarrow> NonReloadableChange list" where
  "diff_int f ov nv = change_if (ov \<noteq> nv) f (CInt ov) (CInt nv)"

definition diffAgent :: "Config \<Rightarrow> Config \<Rightarrow> NonReloadableChange list" where
  "diffAgent old new = (let a = cfg_Agent old; b = cfg_Agent new in
     diff_str ''agent.id'' (agent_ID a) (agent_ID b)
     @ diff_str ''agent.name'' (agent_Name a) (agent_Name b)
     @ diff_int ''agent.interval_seconds'' (agent_IntervalSeconds a) (agent_IntervalSeconds b)
     @ diff_int ''agent.shutdown_timeout_seconds'' (agent_ShutdownTimeoutSeconds a) (agent_ShutdownTimeoutSeconds b))"

definition diffServer :: "Config \<Rightarrow> Config \<Rightarrow> NonReloadableChange list" where
  "diffServer old new =
     diff_str ''server.listen_addr'' (server_ListenAddr (cfg_Server old)) (server_ListenAddr (cfg_Server new))"

definition diffGRPC :: "Config \<Rightarrow> Config \<Rightarrow> NonReloadableChange list" where
  "diffGRPC old new = (let a = cfg_GRPC old; b = cfg_GRPC new in
     diff_str ''grpc.server_addr'' (grpc_ServerAddr a) (grpc_ServerAddr b)
     @ change_if (grpc_EnrollToken a \<noteq> grpc_EnrollToken b) ''grpc.enroll_token''
         (CStr (maskSecret (grpc_EnrollToken a))) (CStr (maskSecret (grpc_EnrollToken b)))
     @ change_if (grpc_MTLS a \<noteq> grpc_MTLS b) ''grpc.mtls'' (CMtls (grpc_MTLS a)) (CMtls (grpc_MTLS b))
     @ diff_int ''grpc.heartbeat_interval_seconds'' (grpc_HeartbeatIntervalSeconds a) (grpc_HeartbeatIntervalSeconds b)
     @ diff_int ''grpc.reconnect_initial_backoff_ms'' (grpc_ReconnectInitialBackoffMS a) (grpc_ReconnectInitialBackoffMS b)
     @ diff_int ''grpc.reconnect_max_backoff_ms'' (grpc_ReconnectMaxBackoffMS a) (grpc_ReconnectMaxBackoffMS b)
     @ diff_str ''grpc.cache_persist_path'' (grpc_CachePersistPath a) (grpc_CachePersistPath b))"

definition diffExecutor :: "Config \<Rightarrow> Config \<Rightarrow> NonReloadableChange list" where
  "diffExecutor old new = (let a = cfg_Executor old; b = cfg_Executor new in
     diff_int ''executor.timeout_seconds'' (exec_TimeoutSeconds a) (exec_TimeoutSeconds b)
     @ change_if (exec_AllowedCommands a \<noteq> exec_AllowedCommands b) ''executor.allowed_commands''
         (CStrs (exec_AllowedCommands a)) (CStrs (exec_AllowedCommands b))
     @ diff_int ''executor.max_output_bytes'' (exec_MaxOutputBytes a) (exec_MaxOutputBytes b))"

definition diff_host :: "nat \<Rightarrow> GatewayHostConfig \<Rightarrow> GatewayHostConfig \<Rightarrow> NonReloadableChange list" where
  "diff_host i oh nh = (let p = ''gateway.hosts['' @ itoa (int i) @ '']''; a = host_SSH oh; b = host_SSH nh in
     change_if (host_ID oh \<noteq> host_ID nh \<or> host_Addr oh \<noteq> host_Addr nh \<or> host_Mode oh \<noteq> host_Mode nh)
       p (CHost oh) (CHost nh)
     @ diff_str (p @ ''.ssh.user'') (ssh_User a) (ssh_User b)
     @ change_if (ssh_Password a \<noteq> ssh_Password b) (p @ ''.ssh.password'')
         (CStr (maskSecret (ssh_Password a))) (CStr (maskSecret (ssh_Password b)))
     @ diff_str (p @ ''.ssh.key_file'') (ssh_KeyFile a) (ssh_KeyFile b)
     @ diff_int (p @ ''.ssh.port'') (ssh_Port a) (ssh_Port b))"

fun diff_hosts :: "nat \<Rightarrow> GatewayHostConfig list \<Rightarrow> GatewayHostConfig list \<Rightarrow> NonReloadableChange list" where
  "diff_hosts i (oh # ohs) (nh # nhs) = diff_host i oh nh @ diff_hosts (Suc i) ohs nhs"
| "diff_hosts i _ _ = []"

definition diffGateway :: "Config \<Rightarrow> Config \<Rightarrow> NonReloadableChange list" where
  "diffGateway old new = (let a = cfg_Gateway old; b = cfg_Gateway new; oh = elems (gw_Hosts a); nh = elems (gw_Hosts b) in
     change_if (gw_Enabled a \<noteq> gw_Enabled b) ''gateway.enabled'' (CBool (gw_Enabled a)) (CBool (gw_Enabled b))
     @ diff_str ''gateway.listen_addr'' (gw_ListenAddr a) (gw_ListenAddr b)
     @ diff_int ''gateway.max_tunnels'' (gw_MaxTunnels a) (gw_MaxTunnels b)
     @ diff_int ''gateway.tunnel_timeout_seconds'' (gw_TunnelTimeoutSeconds a) (gw_TunnelTimeoutSeconds b)
     @ diff_int ''gateway.idle_timeout_seconds'' (gw_IdleTimeoutSeconds a) (gw_IdleTimeoutSeconds b)
     @ (if length oh \<noteq> length nh
        then change_if True ''gateway.hosts'' (CInt (int (length oh))) (CInt (int (length nh)))
        else diff_hosts 0 oh nh))"

definition changeSet :: "Config \<Rightarrow> Config \<Rightarrow> ChangeSet" where
  "changeSet old new =
     \<lparr>CollectorChanged = (\<not> deepEqual_collector (cfg_Collector old) (cfg_Collector new)),
      ReporterChanged = diffReporter old new, AuthChanged = diffAuth old new,
      PrometheusChanged = diffPrometheus old new, PluginGatewayChanged = diffPluginGateway old new,
      CheckerChanged = diffChecker old new, AlertingChanged = diffAlerting old new\<rparr>"

definition nonReloadable :: "Config \<Rightarrow> Config \<Rightarrow> NonReloadableChange list" where
  "nonReloadable old new =
     diffAgent old new @ diffServer old new @ diffGRPC old new @ diffExecutor old new
     @ change_if (cfg_Sandbox old \<noteq> cfg_Sandbox new) ''sandbox.*'' (CSandbox (cfg_Sandbox old)) (CSandbox (cfg_Sandbox new))
     @ change_if (cfg_Plugin old \<noteq> cfg_Plugin new) ''plugin.*'' (CPlugin (cfg_Plugin old)) (CPlugin (cfg_Plugin new))
     @ diffGateway old new"

definition Diff :: "Config \<Rightarrow> Config \<Rightarrow> (ChangeSet \<times> NonReloadableChange list) result" where
  "Diff old new = (case Validate new of
      Some e \<Rightarrow> Inl (''invalid new config: '' @ e)
    | None \<Rightarrow> Inr (changeSet old new, nonReloadable old new))"

subsection \<open>ConfigReloader\<close>

definition maxConfigYAMLSize :: nat where "maxConfigYAMLSize = 2 ^ 20"

record 'r ConfigReloader =
  cr_current :: Config
  cr_reloaders :: "'r list"

text \<open>The operations of the interface \<open>Reloader\<close>, as functions of the reloader.\<close>

record ('r, 's) reloader_ops =
  CanReload :: "'r \<Rightarrow> ChangeSet \<Rightarrow> bool"
  rl_Apply :: "'r \<Rightarrow> Config \<Rightarrow> 's \<Rightarrow> err \<times> 's"
  rl_Rollback :: "'r \<Rightarrow> Config \<Rightarrow> 's \<Rightarrow> err \<times> 's"

text \<open>Roll back in reverse order; an error of a rollback is only logged.\<close>

definition rollback_all :: "('r, 's) reloader_ops \<Rightarrow> Config \<Rightarrow> 'r list \<Rightarrow> 's \<Rightarrow> 's" where
  "rollback_all ops cur applied s = fold (\<lambda>r s. snd (rl_Rollback ops r cur s)) (rev applied) s"

fun apply_loop :: "('r, 's) reloader_ops \<Rightarrow> Config \<Rightarrow> Config \<Rightarrow> ChangeSet \<Rightarrow> 'r list \<Rightarrow> 'r list \<Rightarrow> 's \<Rightarrow> err \<times> 's" where
  "apply_loop ops cur new cs [] applied s = (None, s)"
| "apply_loop ops cur new cs (r # rs) applied s =
     (if \<not> CanReload ops r cs then apply_loop ops cur new cs rs applied s
      else case rl_Apply ops r new s of
             (Some e, s') \<Rightarrow> (Some (''apply reloader failed: '' @ e), rollback_all ops cur applied s')
           | (None, s') \<Rightarrow> apply_loop ops cur new cs rs (applied @ [r]) s')"

text \<open>\<open>parse\<close> stands for the YAML reader and decoder of viper.\<close>

definition cr_Apply :: "('r, 's) reloader_ops \<Rightarrow> (string \<Rightarrow> Config result) \<Rightarrow> string \<Rightarrow> 'r ConfigReloader \<Rightarrow> 's
    \<Rightarrow> err \<times> 'r ConfigReloader \<times> 's" where
  "cr_Apply ops parse newYAML r s =
     (if length newYAML > maxConfigYAMLSize then (Some ''config YAML too large: %d bytes (max %d)'', r, s)
      else case parse newYAML of
        Inl e \<Rightarrow> (Some e, r, s)
      | Inr newCfg \<Rightarrow>
          (case Diff (cr_current r) newCfg of
             Inl e \<Rightarrow> (Some (''diff config: '' @ e), r, s)
           | Inr (cs, nonRel) \<Rightarrow>
               if nonRel \<noteq> [] then (Some ''non-reloadable changes rejected (restart required): %v'', r, s)
               else (case apply_loop ops (cr_current r) newCfg cs (cr_reloaders r) [] s of
                       (Some e, s') \<Rightarrow> (Some e, r, s')
                     | (None, s') \<Rightarrow> (None, r\<lparr>cr_current := newCfg\<rparr>, s'))))"

subsection \<open>The reloader contract\<close>

text \<open>
  \<open>in_step r c s\<close>: in state \<open>s\<close> the subsystem of \<open>r\<close> runs with configuration \<open>c\<close>. \<open>clean r c\<close>: if
  Apply of \<open>r\<close> to \<open>c\<close> fails, it leaves the subsystem in step.
\<close>

locale reloaders =
  fixes ops :: "('r, 's) reloader_ops"
    and in_step :: "'r \<Rightarrow> Config \<Rightarrow> 's \<Rightarrow> bool"
    and clean :: "'r \<Rightarrow> Config \<Rightarrow> bool"
  assumes apply_ok: "rl_Apply ops r c s = (None, s') \<Longrightarrow> in_step r c s'"
    and apply_err: "clean r c \<Longrightarrow> in_step r old s \<Longrightarrow> rl_Apply ops r c s = (Some e, s') \<Longrightarrow> in_step r old s'"
    and apply_frame: "q \<noteq> r \<Longrightarrow> in_step q d s \<Longrightarrow> rl_Apply ops r c s = (e', s') \<Longrightarrow> in_step q d s'"
    and rollback_ok: "in_step r old s0 \<Longrightarrow> rl_Rollback ops r old s = (e', s') \<Longrightarrow> in_step r old s'"
    and rollback_frame: "q \<noteq> r \<Longrightarrow> in_step q d s \<Longrightarrow> rl_Rollback ops r old s = (e', s') \<Longrightarrow> in_step q d s'"
    and unchanged: "in_step r old s \<Longrightarrow> \<not> CanReload ops r (changeSet old new) \<Longrightarrow> in_step r new s"
begin

lemma rollback_restores:
  assumes "\<forall>r \<in> set rs. \<exists>s0. in_step r old s0" "\<forall>q \<in> Q. in_step q old s"
  shows "\<forall>q \<in> Q \<union> set rs. in_step q old (fold (\<lambda>r s. snd (rl_Rollback ops r old s)) rs s)"
  using assms
proof (induction rs arbitrary: s Q)
  case (Cons r rs)
  define s1 where "s1 = snd (rl_Rollback ops r old s)"
  obtain e where rb: "rl_Rollback ops r old s = (e, s1)" by (cases "rl_Rollback ops r old s") (simp add: s1_def)
  have "\<forall>q \<in> insert r Q. in_step q old s1"
    using rollback_ok [OF _ rb] rollback_frame [OF _ _ rb] Cons.prems by (metis insert_iff list.set_intros(1))
  with Cons.IH [of "insert r Q" s1] Cons.prems(1) show ?case by (simp add: s1_def)
qed simp

lemma apply_loop_ok:
  assumes "apply_loop ops cur new (changeSet cur new) rs applied s = (None, s')"
    and "\<forall>q \<in> Q. in_step q new s" "\<forall>r \<in> set rs. in_step r cur s"
    and "distinct rs" "Q \<inter> set rs = {}"
  shows "\<forall>q \<in> Q \<union> set rs. in_step q new s'"
  using assms
proof (induction rs arbitrary: applied s Q)
  case (Cons r rs)
  show ?case
  proof (cases "CanReload ops r (changeSet cur new)")
    case False
    then have "in_step r new s" using unchanged Cons.prems(3) by auto
    then show ?thesis using Cons.IH [of applied s "insert r Q"] Cons.prems False by auto
  next
    case True
    obtain s1 where ap: "rl_Apply ops r new s = (None, s1)"
      using Cons.prems(1) True by (auto split: prod.splits option.splits)
    have fr: "in_step q d s1" if "q \<noteq> r" "in_step q d s" for q d using apply_frame [OF that ap] .
    have "r \<notin> Q" "r \<notin> set rs" "\<forall>q \<in> set rs. in_step q cur s" using Cons.prems(3-5) by auto
    then have "\<forall>q \<in> insert r Q. in_step q new s1" "\<forall>q \<in> set rs. in_step q cur s1"
      using apply_ok [OF ap] fr Cons.prems(2) by (metis insert_iff)+
    then show ?thesis using Cons.IH [of "applied @ [r]" s1 "insert r Q"] Cons.prems True ap by auto
  qed
qed simp

lemma apply_loop_err:
  assumes "apply_loop ops cur new (changeSet cur new) rs applied s = (Some e, s')"
    and "\<forall>q \<in> Q. in_step q cur s" "\<forall>r \<in> set rs. clean r new \<and> in_step r cur s"
    and "\<forall>r \<in> set applied. \<exists>s0. in_step r cur s0"
    and "distinct rs" "(Q \<union> set applied) \<inter> set rs = {}"
  shows "\<forall>q \<in> Q \<union> set applied \<union> set rs. in_step q cur s'"
  using assms
proof (induction rs arbitrary: applied s Q)
  case (Cons r rs)
  show ?case
  proof (cases "CanReload ops r (changeSet cur new)")
    case False
    then show ?thesis using Cons.IH [of applied s "insert r Q"] Cons.prems by auto
  next
    case True
    obtain e1 s1 where ap: "rl_Apply ops r new s = (e1, s1)" by fastforce
    show ?thesis
    proof (cases e1)
      case None
      have fr: "in_step q d s1" if "q \<noteq> r" "in_step q d s" for q d using apply_frame [OF that ap] .
      have "r \<notin> set rs" "\<forall>q \<in> set rs. clean q new \<and> in_step q cur s" using Cons.prems(3,5) by auto
      then have "\<forall>q \<in> Q - set (applied @ [r]). in_step q cur s1" "\<forall>q \<in> set rs. clean q new \<and> in_step q cur s1"
        using fr Cons.prems(2) by (metis DiffE UnCI list.set_intros(1) set_append)+
      moreover have "\<forall>q \<in> set (applied @ [r]). \<exists>s0. in_step q cur s0" using Cons.prems(3,4) by auto
      ultimately show ?thesis
        using Cons.IH [of "applied @ [r]" s1 "Q - set (applied @ [r])"] Cons.prems True ap None by auto
    next
      case (Some m)
      have "\<forall>q \<in> Q \<union> set (r # rs). in_step q cur s1"
        using apply_err [of r new cur s m s1] apply_frame [OF _ _ ap] ap Some Cons.prems(2,3) by (metis UnE list.set_intros(1))
      then show ?thesis
        using rollback_restores [of "rev applied" cur "Q \<union> set (r # rs)" s1] Cons.prems(1,4) True ap Some
        by (auto simp: rollback_all_def)
    qed
  qed
qed simp

theorem Apply_keeps_step:
  assumes "cr_Apply ops parse yaml cr s = (e, cr', s')"
    and "distinct (cr_reloaders cr)" "\<forall>r \<in> set (cr_reloaders cr). in_step r (cr_current cr) s"
    and "e = None \<or> (\<forall>new. parse yaml = Inr new \<longrightarrow> (\<forall>r \<in> set (cr_reloaders cr). clean r new))"
  shows "\<forall>r \<in> set (cr_reloaders cr'). in_step r (cr_current cr') s'"
proof (cases "cr_current cr' = cr_current cr \<and> s' = s \<and> cr_reloaders cr' = cr_reloaders cr")
  case True
  then show ?thesis using assms(3) by simp
next
  case False
  then obtain new where new: "apply_loop ops (cr_current cr) new (changeSet (cr_current cr) new) (cr_reloaders cr) [] s = (e, s')"
      "cr' = (if e = None then cr\<lparr>cr_current := new\<rparr> else cr)" "parse yaml = Inr new"
    using assms(1) by (auto simp: cr_Apply_def Diff_def split: if_splits sum.splits option.splits prod.splits)
  show ?thesis
  proof (cases e)
    case None
    then show ?thesis
      using apply_loop_ok [of "cr_current cr" new "cr_reloaders cr" "[]" s s' "{}"] new assms(2,3) by simp
  next
    case (Some m)
    then show ?thesis
      using apply_loop_err [of "cr_current cr" new "cr_reloaders cr" "[]" s m s' "{}"] new assms(2-4) by simp
  qed
qed

end

subsection \<open>What an accepted reload cannot change\<close>

lemma change_if_Nil [simp]: "change_if b f ov nv = [] \<longleftrightarrow> \<not> b"
  by (simp add: change_if_def)

lemma diff_str_Nil [simp]: "diff_str f ov nv = [] \<longleftrightarrow> ov = nv"
  by (simp add: diff_str_def)

lemma diff_int_Nil [simp]: "diff_int f ov nv = [] \<longleftrightarrow> ov = nv"
  by (simp add: diff_int_def)

lemma diff_host_Nil: "diff_host i oh nh = [] \<Longrightarrow> oh = nh"
  by (rule GatewayHostConfig.equality; (rule GatewaySSHConfig.equality)?)
     (simp_all add: diff_host_def Let_def)

lemma diff_hosts_Nil: "length ohs = length nhs \<Longrightarrow> diff_hosts i ohs nhs = [] \<Longrightarrow> ohs = nhs"
  by (induction ohs nhs arbitrary: i rule: list_induct2) (auto dest: diff_host_Nil)

lemma diffGRPC_Nil: "diffGRPC old new = [] \<Longrightarrow> cfg_GRPC old = cfg_GRPC new"
  by (rule GRPCConfig.equality) (simp_all add: diffGRPC_def Let_def)

lemma diffExecutor_Nil: "diffExecutor old new = [] \<Longrightarrow> cfg_Executor old = cfg_Executor new"
  by (rule ExecutorConfig.equality) (simp_all add: diffExecutor_def Let_def)

lemma diffServer_Nil: "diffServer old new = [] \<Longrightarrow> cfg_Server old = cfg_Server new"
  by (rule ServerConfig.equality) (simp_all add: diffServer_def)

lemma diffGateway_Nil:
  assumes "diffGateway old new = []"
  shows "elems (gw_Hosts (cfg_Gateway old)) = elems (gw_Hosts (cfg_Gateway new))"
    and "(cfg_Gateway old)\<lparr>gw_Hosts := None\<rparr> = (cfg_Gateway new)\<lparr>gw_Hosts := None\<rparr>"
proof -
  show "elems (gw_Hosts (cfg_Gateway old)) = elems (gw_Hosts (cfg_Gateway new))"
    using assms by (auto simp: diffGateway_def Let_def split: if_splits intro: diff_hosts_Nil)
  show "(cfg_Gateway old)\<lparr>gw_Hosts := None\<rparr> = (cfg_Gateway new)\<lparr>gw_Hosts := None\<rparr>"
    by (rule GatewayConfig.equality) (use assms in \<open>simp_all add: diffGateway_def Let_def\<close>)
qed

text \<open>C22: A reload that is accepted installs a configuration that passes Validate and agrees with the
  old one on everything that needs a restart: the identity and intervals of the agent, the
  listen address, every field of the gRPC, executor, sandbox and plugin sections, and the gateway
  with its hosts.\<close>

theorem reload_keeps_restart_sections:
  assumes "cr_Apply ops parse yaml cr s = (None, cr', s')"
  defines "old \<equiv> cr_current cr" and "new \<equiv> cr_current cr'"
  shows "Validate new = None \<and> length yaml \<le> maxConfigYAMLSize
    \<and> agent_ID (cfg_Agent new) = agent_ID (cfg_Agent old) \<and> agent_Name (cfg_Agent new) = agent_Name (cfg_Agent old)
    \<and> agent_IntervalSeconds (cfg_Agent new) = agent_IntervalSeconds (cfg_Agent old)
    \<and> agent_ShutdownTimeoutSeconds (cfg_Agent new) = agent_ShutdownTimeoutSeconds (cfg_Agent old)
    \<and> cfg_Server new = cfg_Server old \<and> cfg_GRPC new = cfg_GRPC old \<and> cfg_Executor new = cfg_Executor old
    \<and> cfg_Sandbox new = cfg_Sandbox old \<and> cfg_Plugin new = cfg_Plugin old
    \<and> elems (gw_Hosts (cfg_Gateway new)) = elems (gw_Hosts (cfg_Gateway old))
    \<and> (cfg_Gateway new)\<lparr>gw_Hosts := None\<rparr> = (cfg_Gateway old)\<lparr>gw_Hosts := None\<rparr>"
proof -
  have acc: "nonReloadable old new = []" "Validate new = None" "length yaml \<le> maxConfigYAMLSize"
    using assms(1) unfolding old_def new_def
    by (auto simp: cr_Apply_def Diff_def split: if_splits sum.splits option.splits prod.splits)
  then have "diffAgent old new = []" "diffServer old new = []" "diffGRPC old new = []" "diffExecutor old new = []"
      "diffGateway old new = []" "cfg_Sandbox old = cfg_Sandbox new" "cfg_Plugin old = cfg_Plugin new"
    by (auto simp: nonReloadable_def)
  with acc diffServer_Nil diffGRPC_Nil diffExecutor_Nil diffGateway_Nil show ?thesis
    by (fastforce simp: diffAgent_def Let_def)
qed

end
