(* ===== verification/Scheduler.thy ===== *)
theory Scheduler
imports Aggregators Processors Config_Types
begin

text \<open>
  The collection pipeline of \<open>internal/collector/scheduler.go\<close> and its reloader
  (\<open>reload.go\<close>): one collection run, the periodic push of the aggregators, the rebuild of the
  pipeline, and the life cycle of the goroutines as a step relation.

  Aggregators and processors are the Go interfaces as datatypes with a dispatch function per
  method. The processors regex and logparse, which are stateless, enter as functions. What an
  input gathers and which plugin types the registry knows are arguments.
\<close>

datatype Aggregator = AvgAgg avg | MinMaxAgg minmax | SumAgg summ | PctAgg pct

datatype Processor = DeltaProc delta | TaggerProc tagger | FnProc "Metric list \<Rightarrow> Metric list"

fun agg_Add :: "Metric \<Rightarrow> Aggregator \<Rightarrow> Aggregator" where
  "agg_Add m (AvgAgg a) = AvgAgg (avg_Add m a)"
| "agg_Add m (MinMaxAgg a) = MinMaxAgg (mm_Add m a)"
| "agg_Add m (SumAgg a) = SumAgg (sum_Add m a)"
| "agg_Add m (PctAgg a) = PctAgg (pct_Add m a)"

text \<open>\<open>None\<close> is a panic of the percentile aggregator.\<close>

fun agg_Push :: "time \<Rightarrow> Aggregator \<Rightarrow> accumulator \<Rightarrow> (Aggregator \<times> accumulator) option" where
  "agg_Push now (AvgAgg a) acc = Some (AvgAgg a, avg_Push now a acc)"
| "agg_Push now (MinMaxAgg a) acc = Some (MinMaxAgg a, mm_Push now a acc)"
| "agg_Push now (SumAgg a) acc = Some (SumAgg a, sum_Push now a acc)"
| "agg_Push now (PctAgg a) acc = map_option (\<lambda>(a', acc'). (PctAgg a', acc')) (pct_Push now a acc)"

fun agg_Reset :: "Aggregator \<Rightarrow> Aggregator" where
  "agg_Reset (AvgAgg a) = AvgAgg (avg_Reset a)"
| "agg_Reset (MinMaxAgg a) = MinMaxAgg (mm_Reset a)"
| "agg_Reset (SumAgg a) = SumAgg (sum_Reset a)"
| "agg_Reset (PctAgg a) = PctAgg (pct_Reset a)"

fun agg_emit :: "Aggregator \<Rightarrow> emission list" where
  "agg_emit (AvgAgg a) = avg_emit a"
| "agg_emit (MinMaxAgg a) = mm_emit a"
| "agg_emit (SumAgg a) = sum_emit a"
| "agg_emit (PctAgg a) = pct_emit a"

fun proc_Apply :: "Processor \<Rightarrow> Metric list \<Rightarrow> Metric list \<times> Processor" where
  "proc_Apply (DeltaProc p) ms = (case delta_Apply ms p of (ms', p') \<Rightarrow> (ms', DeltaProc p'))"
| "proc_Apply (TaggerProc p) ms = (tagger_Apply p ms, TaggerProc p)"
| "proc_Apply (FnProc f) ms = (f ms, FnProc f)"

definition defaultAccumulatorSize :: int where "defaultAccumulatorSize = 1000"

definition defaultSchedulerInterval :: duration where "defaultSchedulerInterval = 10 * Second"

text \<open>An input is known here by its type name; \<open>sc_outputs\<close> holds the type names of the outputs.\<close>

record ScheduledInput =
  si_Input :: string
  si_Interval :: duration
  si_Tags :: "string gomap"

record Scheduler =
  sc_inputs :: "ScheduledInput list"
  sc_processors :: "Processor list"
  sc_aggregators :: "Aggregator list"
  sc_outputs :: "string list"
  sc_accSize :: int
  sc_running :: bool
  sc_active :: bool
  sc_interval :: duration
  sc_lastCollection :: time

text \<open>\<open>sc_active\<close>: the goroutines of the current pipeline run (their context is not cancelled).\<close>

definition NewScheduler :: "ScheduledInput list \<Rightarrow> Processor list \<Rightarrow> Aggregator list \<Rightarrow> string list \<Rightarrow> Scheduler" where
  "NewScheduler ins procs aggs outs =
     \<lparr>sc_inputs = ins, sc_processors = procs, sc_aggregators = aggs, sc_outputs = outs,
      sc_accSize = defaultAccumulatorSize, sc_running = False, sc_active = False,
      sc_interval = (case ins of [] \<Rightarrow> defaultSchedulerInterval
                     | si # _ \<Rightarrow> if si_Interval si > 0 then si_Interval si else defaultSchedulerInterval),
      sc_lastCollection = zero_time\<rparr>"

definition sched_Start :: "Scheduler \<Rightarrow> Scheduler" where
  "sched_Start s = s\<lparr>sc_running := True, sc_active := True\<rparr>"

definition sched_Stop :: "Scheduler \<Rightarrow> Scheduler" where
  "sched_Stop s = s\<lparr>sc_running := False, sc_active := False\<rparr>"

text \<open>What a step hands to the outside: a write to an output, a batch on the channel.\<close>

datatype event = WriteOut string "Metric list" | SendBatch "Metric list"

fun apply_processors :: "Processor list \<Rightarrow> Metric list \<Rightarrow> Metric list \<times> Processor list" where
  "apply_processors [] ms = (ms, [])"
| "apply_processors (p # ps) ms =
     (let (ms1, p') = proc_Apply p ms; (ms2, ps') = apply_processors ps ms1 in (ms2, p' # ps'))"

definition feed :: "Metric list \<Rightarrow> Aggregator list \<Rightarrow> Aggregator list" where
  "feed ms aggs = fold (\<lambda>m. map (agg_Add m)) ms aggs"

text \<open>\<open>gather\<close> is what \<open>Input.Gather\<close> does with the accumulator and the error it returns.\<close>

definition gatherOnce :: "(accumulator \<Rightarrow> err \<times> accumulator) \<Rightarrow> time \<Rightarrow> ScheduledInput \<Rightarrow> Scheduler
    \<Rightarrow> Scheduler \<times> event list" where
  "gatherOnce gather now si s =
     (let accSize = (if sc_accSize s \<le> 0 then defaultAccumulatorSize else sc_accSize s) in
      case gather \<lparr>acc_metrics = [], acc_maxSize = accSize\<rparr> of
        (Some e, _) \<Rightarrow> (s, [])
      | (None, acc) \<Rightarrow>
          let metrics = fst (Collect acc) in
          if metrics = [] then (s, [])
          else let tagged = map (\<lambda>m. fold (\<lambda>(k, v). AddTag k v) (si_Tags si) m) metrics;
                   (out, procs) = apply_processors (sc_processors s) tagged
               in (s\<lparr>sc_processors := procs, sc_aggregators := feed out (sc_aggregators s),
                     sc_lastCollection := now\<rparr>,
                   map (\<lambda>o'. WriteOut o' out) (sc_outputs s) @ [SendBatch out]))"

fun push_loop :: "time \<Rightarrow> Aggregator list \<Rightarrow> accumulator \<Rightarrow> (Aggregator list \<times> accumulator) option" where
  "push_loop now [] acc = Some ([], acc)"
| "push_loop now (a # as) acc =
     (case agg_Push now a acc of None \<Rightarrow> None
      | Some (a', acc1) \<Rightarrow> (case push_loop now as acc1 of None \<Rightarrow> None
          | Some (as', acc2) \<Rightarrow> Some (agg_Reset a' # as', acc2)))"

definition pushAggregators :: "time \<Rightarrow> Scheduler \<Rightarrow> (Scheduler \<times> event list) option" where
  "pushAggregators now s =
     (case push_loop now (sc_aggregators s) \<lparr>acc_metrics = [], acc_maxSize = defaultAccumulatorSize\<rparr> of
        None \<Rightarrow> None
      | Some (aggs, acc) \<Rightarrow>
          let metrics = fst (Collect acc)
          in Some (s\<lparr>sc_aggregators := aggs\<rparr>,
                   if metrics = [] then [] else map (\<lambda>o'. WriteOut o' metrics) (sc_outputs s)))"

subsection \<open>Reload\<close>

record ReloadConfig =
  rc_Inputs :: "(string \<times> goval gomap option) list"
  rc_Processors :: "(string \<times> goval gomap option) list"
  rc_Aggregators :: "(string \<times> goval gomap option) list"
  rc_Outputs :: "(string \<times> goval gomap option) list"

definition plugin_configs :: "PluginInstanceConfig slice \<Rightarrow> (string \<times> goval gomap option) list" where
  "plugin_configs xs = map (\<lambda>i. (inst_Type i, inst_Config i)) (elems xs)"

definition toReloadConfig :: "CollectorConfig \<Rightarrow> ReloadConfig" where
  "toReloadConfig cc =
     \<lparr>rc_Inputs = plugin_configs (coll_Inputs cc), rc_Processors = plugin_configs (coll_Processors cc),
      rc_Aggregators = plugin_configs (coll_Aggregators cc), rc_Outputs = plugin_configs (coll_Outputs cc)\<rparr>"

text \<open>
  The factories of the registry: for a known type name, the function that creates a plugin
  and initialises it from its configuration.
\<close>

record factories =
  GetInput :: "string \<Rightarrow> (goval gomap option \<Rightarrow> string result) option"
  GetProcessor :: "string \<Rightarrow> (goval gomap option \<Rightarrow> Processor result) option"
  GetAggregator :: "string \<Rightarrow> (goval gomap option \<Rightarrow> Aggregator result) option"
  GetOutput :: "string \<Rightarrow> (goval gomap option \<Rightarrow> string result) option"

fun build_plugins :: "string \<Rightarrow> (string \<Rightarrow> (goval gomap option \<Rightarrow> 'p result) option)
    \<Rightarrow> (string \<times> goval gomap option) list \<Rightarrow> 'p list result" where
  "build_plugins what factory [] = Inr []"
| "build_plugins what factory ((ty, cfg) # cs) =
     (case factory ty of
        None \<Rightarrow> Inl (''unknown '' @ what @ '' type: %q'')
      | Some init \<Rightarrow> (case init cfg of
            Inl e \<Rightarrow> Inl (''init '' @ what @ '' %q: '' @ e)
          | Inr p \<Rightarrow> (case build_plugins what factory cs of Inl e \<Rightarrow> Inl e | Inr ps \<Rightarrow> Inr (p # ps))))"

record pipeline =
  pl_inputs :: "string list"
  pl_processors :: "Processor list"
  pl_aggregators :: "Aggregator list"
  pl_outputs :: "string list"

definition build_pipeline :: "factories \<Rightarrow> ReloadConfig \<Rightarrow> pipeline result" where
  "build_pipeline reg cfg =
     (case build_plugins ''input'' (GetInput reg) (rc_Inputs cfg) of Inl e \<Rightarrow> Inl e
      | Inr ins \<Rightarrow> (case build_plugins ''processor'' (GetProcessor reg) (rc_Processors cfg) of Inl e \<Rightarrow> Inl e
         | Inr procs \<Rightarrow> (case build_plugins ''aggregator'' (GetAggregator reg) (rc_Aggregators cfg) of Inl e \<Rightarrow> Inl e
            | Inr aggs \<Rightarrow> (case build_plugins ''output'' (GetOutput reg) (rc_Outputs cfg) of Inl e \<Rightarrow> Inl e
               | Inr outs \<Rightarrow> Inr \<lparr>pl_inputs = ins, pl_processors = procs, pl_aggregators = aggs, pl_outputs = outs\<rparr>))))"

text \<open>
  The running goroutines are cancelled and waited for before anything is built. The results
  pushed before the teardown go to an accumulator that nothing reads; only the reset of the
  aggregators remains of that step (\<open>push_loop_resets\<close>).
\<close>

definition sched_Reload :: "factories \<Rightarrow> ReloadConfig \<Rightarrow> Scheduler \<Rightarrow> err \<times> Scheduler" where
  "sched_Reload reg cfg s =
     (let s1 = s\<lparr>sc_active := False, sc_aggregators := map agg_Reset (sc_aggregators s)\<rparr> in
      case build_pipeline reg cfg of
        Inl e \<Rightarrow> (Some e, s1)
      | Inr p \<Rightarrow>
         (None, s1\<lparr>sc_inputs := map (\<lambda>i. \<lparr>si_Input = i, si_Interval = sc_interval s1, si_Tags = []\<rparr>) (pl_inputs p),
                   sc_processors := pl_processors p, sc_aggregators := pl_aggregators p,
                   sc_outputs := pl_outputs p, sc_active := sc_running s1\<rparr>))"

subsection \<open>Goroutines, lock and channel\<close>

text \<open>
  Where an input goroutine is: at its \<open>select\<close>, gathering (and processing), about to take the
  mutex to store the collection time, about to send on the channel, or gone. \<open>Panicked\<close> is a send
  on a closed channel.
\<close>

datatype input_pc = AtSelect | Gathering | AtLock | AtSend | Exited | Panicked

text \<open>Where \<open>Reload\<close> is: not running, or waiting for the goroutines with the mutex held.\<close>

datatype reload_pc = NoReload | ReloadWaiting

record life =
  lf_pcs :: "input_pc list"
  lf_reload :: reload_pc
  lf_cancelled :: bool
  lf_closer :: bool
  lf_closed :: bool

definition life_Start :: "nat \<Rightarrow> life" where
  "life_Start n = \<lparr>lf_pcs = replicate n AtSelect, lf_reload = NoReload, lf_cancelled = False,
                   lf_closer = True, lf_closed = False\<rparr>"

definition all_exited :: "life \<Rightarrow> bool" where
  "all_exited l = list_all (\<lambda>p. p = Exited) (lf_pcs l)"

inductive life_step :: "life \<Rightarrow> life \<Rightarrow> bool" where
  tick: "i < length (lf_pcs l) \<Longrightarrow> lf_pcs l ! i = AtSelect
     \<Longrightarrow> life_step l (l\<lparr>lf_pcs := (lf_pcs l)[i := Gathering]\<rparr>)"
| ctx_done: "i < length (lf_pcs l) \<Longrightarrow> lf_pcs l ! i = AtSelect \<Longrightarrow> lf_cancelled l
     \<Longrightarrow> life_step l (l\<lparr>lf_pcs := (lf_pcs l)[i := Exited]\<rparr>)"
| gathered: "i < length (lf_pcs l) \<Longrightarrow> lf_pcs l ! i = Gathering
     \<Longrightarrow> life_step l (l\<lparr>lf_pcs := (lf_pcs l)[i := AtLock]\<rparr>)"
| gather_failed: "i < length (lf_pcs l) \<Longrightarrow> lf_pcs l ! i = Gathering
     \<Longrightarrow> life_step l (l\<lparr>lf_pcs := (lf_pcs l)[i := AtSelect]\<rparr>)"
| locked: "i < length (lf_pcs l) \<Longrightarrow> lf_pcs l ! i = AtLock \<Longrightarrow> lf_reload l = NoReload
     \<Longrightarrow> life_step l (l\<lparr>lf_pcs := (lf_pcs l)[i := AtSend]\<rparr>)"
| sent: "i < length (lf_pcs l) \<Longrightarrow> lf_pcs l ! i = AtSend \<Longrightarrow> \<not> lf_closed l
     \<Longrightarrow> life_step l (l\<lparr>lf_pcs := (lf_pcs l)[i := AtSelect]\<rparr>)"
| send_closed: "i < length (lf_pcs l) \<Longrightarrow> lf_pcs l ! i = AtSend \<Longrightarrow> lf_closed l
     \<Longrightarrow> life_step l (l\<lparr>lf_pcs := (lf_pcs l)[i := Panicked]\<rparr>)"
| send_done: "i < length (lf_pcs l) \<Longrightarrow> lf_pcs l ! i = AtSend \<Longrightarrow> lf_cancelled l
     \<Longrightarrow> life_step l (l\<lparr>lf_pcs := (lf_pcs l)[i := AtSelect]\<rparr>)"
| reload_begin: "lf_reload l = NoReload
     \<Longrightarrow> life_step l (l\<lparr>lf_reload := ReloadWaiting, lf_cancelled := True\<rparr>)"
| reload_end: "lf_reload l = ReloadWaiting \<Longrightarrow> all_exited l
     \<Longrightarrow> life_step l (l\<lparr>lf_reload := NoReload, lf_cancelled := False, lf_pcs := replicate n AtSelect\<rparr>)"
| close_ch: "lf_closer l \<Longrightarrow> all_exited l
     \<Longrightarrow> life_step l (l\<lparr>lf_closer := False, lf_closed := True\<rparr>)"

inductive_cases life_stepE: "life_step l l'"

definition reachable :: "nat \<Rightarrow> life \<Rightarrow> bool" where
  "reachable n l = life_step\<^sup>*\<^sup>* (life_Start n) l"

lemma life_then: "life_step a b \<Longrightarrow> life_step\<^sup>*\<^sup>* b c \<Longrightarrow> life_step\<^sup>*\<^sup>* a c"
  by (rule converse_rtranclp_into_rtranclp)

subsection \<open>The window contract for every aggregator\<close>

interpretation agg_win: windowed agg_Add agg_emit agg_Reset
proof
  fix m s
  show "agg_Reset (agg_Add m s) = agg_Reset s"
    by (cases s) (simp_all add: avg_win.reset_add mm_win.reset_add sum_win.reset_add pct_win.reset_add)
  show "agg_emit (agg_Reset s) = []"
    by (cases s) (simp_all add: avg_win.emit_reset mm_win.emit_reset sum_win.emit_reset pct_win.emit_reset)
  show "agg_Reset (agg_Reset s) = agg_Reset s"
    by (cases s) (simp_all add: avg_win.reset_reset mm_win.reset_reset sum_win.reset_reset pct_win.reset_reset)
qed

lemma feed_map: "feed ms aggs = map (fold agg_Add ms) aggs"
  unfolding feed_def by (induction ms arbitrary: aggs) (simp_all add: comp_def)

lemma pct_Push_Reset: "pct_Push now a acc = Some (a', acc') \<Longrightarrow> pct_Reset a' = pct_Reset a"
  by (auto simp: pct_Push_def pct_Reset_def split: if_splits option.splits)

lemma agg_Push_Some:
  assumes "agg_Push now a acc = Some (a', acc')"
  shows "agg_Reset a' = agg_Reset a" "acc' = push_all now (agg_emit a) acc"
  using assms
  by (cases a; auto simp: avg_Push_def mm_Push_def sum_Push_def dest: pct_Push_Reset pct_Push_emit)+

lemma push_all_append: "push_all now (es @ fs) acc = push_all now fs (push_all now es acc)"
  by (simp add: push_all_def)

lemma push_loop_resets:
  "push_loop now as acc = Some (as', acc') \<Longrightarrow>
     as' = map agg_Reset as \<and> acc' = push_all now (concat (map agg_emit as)) acc"
proof (induction "as" arbitrary: as' acc)
  case (Cons a "as")
  then obtain a1 acc1 as1 where *: "agg_Push now a acc = Some (a1, acc1)"
      "push_loop now as acc1 = Some (as1, acc')" "as' = agg_Reset a1 # as1"
    by (auto split: option.splits)
  with Cons.IH [OF *(2)] agg_Push_Some [OF *(1)] show ?case by (simp add: push_all_append)
qed (simp add: push_all_def)

text \<open>C9: Metrics that reach the aggregators between two pushes are reported by the second push and by no
  later one: after a push and any batches fed since, the next push adds to its accumulator exactly
  the results each aggregator computes from those batches alone, starting from a reset
  aggregator, and then leaves every aggregator reset.\<close>

theorem push_reports_window:
  assumes "push_loop t0 aggs acc0 = Some (aggs1, acc1)"
    and "push_loop t1 (feed ms aggs1) acc = Some (aggs2, acc2)"
  shows "acc2 = push_all t1 (concat (map (\<lambda>a. agg_emit (fold agg_Add ms (agg_Reset a))) aggs)) acc
       \<and> aggs2 = map agg_Reset aggs \<and> concat (map agg_emit aggs2) = []"
proof -
  have a1: "aggs1 = map agg_Reset aggs" using push_loop_resets [OF assms(1)] by simp
  note second = push_loop_resets [OF assms(2)]
  have acc: "acc2 = push_all t1 (concat (map (\<lambda>a. agg_emit (fold agg_Add ms (agg_Reset a))) aggs)) acc"
    using second by (simp add: feed_map a1 comp_def)
  have a2: "aggs2 = map agg_Reset aggs"
    using second by (simp add: feed_map a1 comp_def agg_win.reset_fold_add agg_win.reset_reset)
  moreover have "concat (map agg_emit aggs2) = []"
    by (simp add: a2 comp_def agg_win.emit_reset)
  ultimately show ?thesis using acc by simp
qed

abbreviation x_sum :: Aggregator where "x_sum \<equiv> SumAgg (sum_New [''x''])"

abbreviation acc10 :: accumulator where "acc10 \<equiv> \<lparr>acc_metrics = [], acc_maxSize = 10\<rparr>"

theorem push_reports_window_witness:
  "\<exists>aggs1 acc1 aggs2 acc2. push_loop 0 [x_sum] acc10 = Some (aggs1, acc1)
     \<and> push_loop 60 (feed cpu_metrics aggs1) acc10 = Some (aggs2, acc2)
     \<and> acc2 = push_all 60 (agg_emit (fold agg_Add cpu_metrics (agg_Reset x_sum))) acc10"
proof -
  define aggs1 where "aggs1 = [agg_Reset x_sum]"
  have one: "push_loop 0 [x_sum] acc10 = Some (aggs1, sum_Push 0 (sum_New [''x'']) acc10)"
    by (simp add: aggs1_def)
  obtain a where a: "feed cpu_metrics aggs1 = [SumAgg a]"
    by (simp add: aggs1_def feed_def)
  then have two: "push_loop 60 (feed cpu_metrics aggs1) acc10 = Some ([agg_Reset (SumAgg a)], sum_Push 60 a acc10)"
    by simp
  from push_reports_window [OF one two] one two show ?thesis by auto
qed

text \<open>
  Push and Reset of an aggregator are two separate critical sections. A sample that another goroutine
  adds between them is in no result, earlier or later.
\<close>

lemma sample_between_push_and_reset_lost:
  "agg_emit (fold agg_Add ms (agg_Reset (agg_Add m a))) = agg_emit (fold agg_Add ms (agg_Reset a))"
  by (simp add: agg_win.reset_add)

text \<open>C38: A hot reload of the collector can deadlock: Reload waits for the input goroutines while it holds
  the scheduler mutex, and a goroutine that has gathered needs that mutex to go on. Such a state
  is reachable with one input, and no goroutine can take a step from it.\<close>

theorem reload_deadlock:
  "\<exists>l. reachable 1 l \<and> lf_reload l = ReloadWaiting \<and> (\<forall>l'. \<not> life_step l l')"
proof -
  define l0 where "l0 = life_Start 1"
  define l1 where "l1 = l0\<lparr>lf_pcs := [Gathering]\<rparr>"
  define l2 where "l2 = l1\<lparr>lf_pcs := [AtLock]\<rparr>"
  define l3 where "l3 = l2\<lparr>lf_reload := ReloadWaiting, lf_cancelled := True\<rparr>"
  note defs = l0_def l1_def l2_def l3_def life_Start_def
  have s1: "life_step l0 l1" using life_step.tick [of 0 l0] by (simp add: defs)
  have s2: "life_step l1 l2" using life_step.gathered [of 0 l1] by (simp add: defs)
  have s3: "life_step l2 l3" using life_step.reload_begin [of l2] by (simp add: defs)
  have "life_step\<^sup>*\<^sup>* l0 l3"
    by (rule life_then [OF s1],
        rule life_then [OF s2],
        rule life_then [OF s3], rule rtranclp.rtrancl_refl)
  then have "reachable 1 l3" by (simp add: reachable_def l0_def)
  moreover have "\<not> life_step l3 l'" for l'
    by (auto simp: defs all_exited_def elim!: life_stepE)
  moreover have "lf_reload l3 = ReloadWaiting" by (simp add: defs)
  ultimately show ?thesis by blast
qed

text \<open>A hot reload of the collector that completes can make the next collection panic: the goroutine
  that closes the channel waits for the same wait group as Reload, and the goroutines Reload starts
  then send on the closed channel.\<close>

theorem reload_send_on_closed:
  "\<exists>l. reachable 1 l \<and> lf_reload l = NoReload \<and> Panicked \<in> set (lf_pcs l)"
proof -
  define l0 where "l0 = life_Start 1"
  define l1 where "l1 = l0\<lparr>lf_reload := ReloadWaiting, lf_cancelled := True\<rparr>"
  define l2 where "l2 = l1\<lparr>lf_pcs := [Exited]\<rparr>"
  define l3 where "l3 = l2\<lparr>lf_closer := False, lf_closed := True\<rparr>"
  define l4 where "l4 = l3\<lparr>lf_reload := NoReload, lf_cancelled := False, lf_pcs := [AtSelect]\<rparr>"
  define l5 where "l5 = l4\<lparr>lf_pcs := [Gathering]\<rparr>"
  define l6 where "l6 = l5\<lparr>lf_pcs := [AtLock]\<rparr>"
  define l7 where "l7 = l6\<lparr>lf_pcs := [AtSend]\<rparr>"
  define l8 where "l8 = l7\<lparr>lf_pcs := [Panicked]\<rparr>"
  note defs = l0_def l1_def l2_def l3_def l4_def l5_def l6_def l7_def l8_def life_Start_def all_exited_def
  have s1: "life_step l0 l1" using life_step.reload_begin [of l0] by (simp add: defs)
  have s2: "life_step l1 l2" using life_step.ctx_done [of 0 l1] by (simp add: defs)
  have s3: "life_step l2 l3" using life_step.close_ch [of l2] by (simp add: defs)
  have s4: "life_step l3 l4" using life_step.reload_end [of l3 1] by (simp add: defs)
  have s5: "life_step l4 l5" using life_step.tick [of 0 l4] by (simp add: defs)
  have s6: "life_step l5 l6" using life_step.gathered [of 0 l5] by (simp add: defs)
  have s7: "life_step l6 l7" using life_step.locked [of 0 l6] by (simp add: defs)
  have s8: "life_step l7 l8" using life_step.send_closed [of 0 l7] by (simp add: defs)
  have "life_step\<^sup>*\<^sup>* l0 l8"
    by (rule life_then [OF s1],
        rule life_then [OF s2],
        rule life_then [OF s3],
        rule life_then [OF s4],
        rule life_then [OF s5],
        rule life_then [OF s6],
        rule life_then [OF s7],
        rule life_then [OF s8], rule rtranclp.rtrancl_refl)
  then have "reachable 1 l8" by (simp add: reachable_def l0_def)
  then show ?thesis by (intro exI [of _ l8]) (simp add: defs)
qed

end
