(* ===== verification/Go_Strconv.thy ===== *)
theory Go_Strconv
imports Float64
begin

text \<open>
  Numbers and durations in text: \<open>strconv.Atoi\<close>, \<open>strconv.ParseFloat\<close> and \<open>time.ParseDuration\<close>.
  \<open>ParseFloat\<close> covers decimal numbers, infinities and NaN, not hexadecimal numbers and digit
  separators. None is an error.
\<close>

definition is_digit :: "char \<Rightarrow> bool" where
  "is_digit c = (48 \<le> (of_char c :: nat) \<and> (of_char c :: nat) \<le> 57)"

definition digit_val :: "char \<Rightarrow> int" where
  "digit_val c = of_char c - 48"

definition digits_value :: "string \<Rightarrow> int" where
  "digits_value ds = fold (\<lambda>c n. n * 10 + digit_val c) ds 0"

definition Atoi :: "string \<Rightarrow> int option" where
  "Atoi s =
     (let neg = HasPrefix s ''-'';
          ds = (if neg \<or> HasPrefix s ''+'' then tl s else s);
          n = (if neg then - digits_value ds else digits_value ds)
      in if ds = [] \<or> \<not> list_all is_digit ds \<or> n < - (2 ^ 63) \<or> n \<ge> 2 ^ 63 then None else Some n)"

subsection \<open>Floats\<close>

text \<open>The exponent part: empty, or e, a sign and digits; large exponents are cut off.\<close>

definition exp_value :: "string \<Rightarrow> int" where
  "exp_value ds = fold (\<lambda>c n. if n < 10000 then n * 10 + digit_val c else n) ds 0"

definition parse_exp :: "string \<Rightarrow> int option" where
  "parse_exp s =
     (if s = [] then Some 0
      else if ToLower [hd s] \<noteq> ''e'' then None
      else (let t = tl s; neg = HasPrefix t ''-''; ds = (if neg \<or> HasPrefix t ''+'' then tl t else t)
            in if ds = [] \<or> \<not> list_all is_digit ds then None
               else Some (if neg then - exp_value ds else exp_value ds)))"

definition pow10 :: "int \<Rightarrow> rat" where
  "pow10 e = (if e \<ge> 0 then 10 ^ nat e else 1 / 10 ^ nat (- e))"

definition parse_decimal :: "bool \<Rightarrow> string \<Rightarrow> float64 option" where
  "parse_decimal neg s =
     (let ip = takeWhile is_digit s; r = dropWhile is_digit s;
          dot = HasPrefix r ''.'';
          fp = (if dot then takeWhile is_digit (tl r) else []);
          r2 = (if dot then dropWhile is_digit (tl r) else r)
      in if ip @ fp = [] then None
         else case parse_exp r2 of
                None \<Rightarrow> None
              | Some e \<Rightarrow>
                 (let v = of_int (digits_value (ip @ fp)) * pow10 (e - int (length fp));
                      x = rnd (if neg then - v else v)
                  in if x = PInf \<or> x = NInf then None else Some x))"

definition ParseFloat :: "string \<Rightarrow> float64 option" where
  "ParseFloat s =
     (let neg = HasPrefix s ''-''; signed = neg \<or> HasPrefix s ''+''; t = (if signed then tl s else s); l = ToLower t
      in if l = ''inf'' \<or> l = ''infinity'' then Some (if neg then NInf else PInf)
         else if l = ''nan'' \<and> \<not> signed then Some NaN
         else parse_decimal neg t)"

subsection \<open>Durations\<close>

definition unitMap :: "(string \<times> int) list" where
  "unitMap = [(''ns'', 1), (''us'', 10 ^ 3), ([CHR 0xC2, CHR 0xB5] @ ''s'', 10 ^ 3), ([CHR 0xCE, CHR 0xBC] @ ''s'', 10 ^ 3),
     (''ms'', 10 ^ 6), (''s'', 10 ^ 9), (''m'', 60 * 10 ^ 9), (''h'', 3600 * 10 ^ 9)]"

fun leadingInt :: "int \<Rightarrow> string \<Rightarrow> (int \<times> string) option" where
  "leadingInt x [] = Some (x, [])"
| "leadingInt x (c # s) =
     (if \<not> is_digit c then Some (x, c # s)
      else if x > 2 ^ 63 div 10 then None
      else (let y = x * 10 + digit_val c in if y > 2 ^ 63 then None else leadingInt y s))"

text \<open>The digits after the point; those that would overflow are skipped.\<close>

fun leadingFraction :: "int \<Rightarrow> int \<Rightarrow> bool \<Rightarrow> string \<Rightarrow> int \<times> int \<times> string" where
  "leadingFraction x scale ovf [] = (x, scale, [])"
| "leadingFraction x scale ovf (c # s) =
     (if \<not> is_digit c then (x, scale, c # s)
      else if ovf \<or> x > (2 ^ 63 - 1) div 10 then leadingFraction x scale True s
      else (let y = x * 10 + digit_val c in
            if y > 2 ^ 63 then leadingFraction x scale True s else leadingFraction y (scale * 10) False s))"

definition unit_char :: "char \<Rightarrow> bool" where
  "unit_char c = (c \<noteq> CHR ''.'' \<and> \<not> is_digit c)"

text \<open>One number with its unit: the nanoseconds and what is left of the text.\<close>

definition parse_unit :: "string \<Rightarrow> (int \<times> string) option" where
  "parse_unit s =
     (if s = [] \<or> unit_char (hd s) then None
      else case leadingInt 0 s of
        None \<Rightarrow> None
      | Some (v, s1) \<Rightarrow>
         (let pre = s1 \<noteq> s;
              dot = HasPrefix s1 ''.'';
              (f, scale, s2) = (if dot then leadingFraction 0 1 False (tl s1) else (0, 1, s1));
              post = (dot \<and> s2 \<noteq> tl s1);
              u = takeWhile unit_char s2; s3 = dropWhile unit_char s2
          in if \<not> pre \<and> \<not> post \<or> u = [] then None
             else case map_of unitMap u of
               None \<Rightarrow> None
             | Some unit \<Rightarrow>
                if v > 2 ^ 63 div unit then None
                else (let w = v * unit + (if f > 0 then to_int64 (fmul (of_int64 f) (fdiv (of_int64 unit) (of_int64 scale))) else 0)
                      in if w > 2 ^ 63 then None else Some (w, s3))))"

text \<open>Every round uses up at least one character, so the length of the text is fuel enough.\<close>

fun parse_units :: "nat \<Rightarrow> int \<Rightarrow> string \<Rightarrow> int option" where
  "parse_units n d [] = Some d"
| "parse_units 0 d s = None"
| "parse_units (Suc n) d s =
     (case parse_unit s of
        None \<Rightarrow> None
      | Some (v, s') \<Rightarrow> if d + v > 2 ^ 63 then None else parse_units n (d + v) s')"

definition ParseDuration :: "string \<Rightarrow> int option" where
  "ParseDuration s =
     (let neg = HasPrefix s ''-''; t = (if neg \<or> HasPrefix s ''+'' then tl s else s)
      in if t = ''0'' then Some 0
         else if t = [] then None
         else case parse_units (length t) 0 t of
                None \<Rightarrow> None
              | Some d \<Rightarrow> if neg then Some (- d) else if d > 2 ^ 63 - 1 then None else Some d)"

subsection \<open>Lemmas\<close>

lemma leadingInt_length: "leadingInt x s = Some (v, s') \<Longrightarrow> length s' \<le> length s"
  by (induction x s rule: leadingInt.induct) (auto simp: Let_def split: if_splits)

lemma leadingFraction_length: "leadingFraction x sc b s = (f, sc', s') \<Longrightarrow> length s' \<le> length s"
  by (induction x sc b s rule: leadingFraction.induct) (auto simp: Let_def split: if_splits)

lemma dropWhile_shorter: "takeWhile P xs \<noteq> [] \<Longrightarrow> length (dropWhile P xs) < length xs"
  by (cases xs) (auto simp: length_dropWhile_le le_imp_less_Suc split: if_splits)

text \<open>The fuel of \<open>ParseDuration\<close> never runs out.\<close>

lemma parse_unit_shorter: "parse_unit s = Some (v, s') \<Longrightarrow> length s' < length s"
proof -
  assume a: "parse_unit s = Some (v, s')"
  then obtain w s1 where l: "leadingInt 0 s = Some (w, s1)" by (auto simp: parse_unit_def split: if_splits option.splits)
  obtain f sc s2 where fr: "(if HasPrefix s1 ''.'' then leadingFraction 0 1 False (tl s1) else (0, 1, s1)) = (f, sc, s2)"
    by (metis prod_cases3)
  have "length s1 \<le> length s" by (rule leadingInt_length [OF l])
  moreover have "length s2 \<le> length s1" using fr leadingFraction_length by (force split: if_splits)
  moreover have "takeWhile unit_char s2 \<noteq> []" "s' = dropWhile unit_char s2"
    using a l fr by (auto simp: parse_unit_def Let_def split: if_splits option.splits)
  ultimately show ?thesis using dropWhile_shorter [of unit_char s2] by simp
qed

lemma parse_units_fuel: "length s \<le> n \<Longrightarrow> length s \<le> m \<Longrightarrow> parse_units n d s = parse_units m d s"
proof (induction n d s arbitrary: m rule: parse_units.induct)
  case (3 n d c s)
  then obtain m' where m: "m = Suc m'" by (cases m) auto
  show ?case
  proof (cases "parse_unit (c # s)")
    case (Some p)
    obtain v s' where p: "p = (v, s')" by force
    have "length s' < length (c # s)" using Some p parse_unit_shorter by blast
    then show ?thesis using 3 Some p m by simp
  qed (simp add: m)
qed (auto simp: Suc_le_eq gr0_conv_Suc)

lemma ParseFloat_equals: "ParseFloat (CHR ''='' # t) = None"
  by (simp add: ParseFloat_def parse_decimal_def Let_def HasPrefix_def ToLower_def to_lower_char_def is_digit_def)

end
