(* ===== verification/Server.thy ===== *)
theory Server
imports Config_Reload Go_Strconv
begin

text \<open>
  The local HTTP server as far as its options decide: the bearer-token middleware
  (\<open>internal/server/middleware.go\<close>), the updates of the options (\<open>server.go\<close>) and the two
  reloaders of \<open>internal/server/reload.go\<close>.
\<close>

record srv_auth =
  sa_Enabled :: bool
  sa_BearerToken :: string

record srv_prometheus =
  sp_Enabled :: bool
  sp_Path :: string
  sp_ProtectWithAuth :: bool

record srv_options =
  op_Auth :: srv_auth
  op_Prometheus :: srv_prometheus

definition srv_New :: "srv_options \<Rightarrow> srv_options" where
  "srv_New o' = (if sp_Path (op_Prometheus o') = []
     then o'\<lparr>op_Prometheus := (op_Prometheus o')\<lparr>sp_Path := ''/metrics''\<rparr>\<rparr> else o')"

definition UpdateAuth :: "srv_auth \<Rightarrow> srv_options \<Rightarrow> srv_options" where
  "UpdateAuth cfg o' = o'\<lparr>op_Auth := cfg\<rparr>"

definition UpdatePrometheus :: "srv_prometheus \<Rightarrow> srv_options \<Rightarrow> srv_options" where
  "UpdatePrometheus cfg o' = o'\<lparr>op_Prometheus := cfg\<rparr>"

definition requiresAuth :: "srv_options \<Rightarrow> string \<Rightarrow> bool" where
  "requiresAuth o' path =
     (if \<not> sa_Enabled (op_Auth o') then False
      else if HasPrefix path ''/api/v1/'' then True
      else if sp_Enabled (op_Prometheus o') \<and> sp_ProtectWithAuth (op_Prometheus o')
              \<and> path = sp_Path (op_Prometheus o') then True
      else False)"

datatype auth_outcome = Next | PlainUnauthorized | JSONUnauthorized

text \<open>\<open>header\<close> is the value of the Authorization header, empty when there is none.\<close>

definition authMiddleware :: "srv_options \<Rightarrow> string \<Rightarrow> string \<Rightarrow> auth_outcome" where
  "authMiddleware o' path header =
     (if \<not> requiresAuth o' path then Next
      else if TrimSpace header \<noteq> ''Bearer '' @ sa_BearerToken (op_Auth o')
      then (if sp_Enabled (op_Prometheus o') \<and> path = sp_Path (op_Prometheus o')
            then PlainUnauthorized else JSONUnauthorized)
      else Next)"

subsection \<open>Reloaders\<close>

definition auth_of :: "Config \<Rightarrow> srv_auth" where
  "auth_of c = \<lparr>sa_Enabled = auth_Enabled (cfg_Auth c), sa_BearerToken = auth_BearerToken (cfg_Auth c)\<rparr>"

definition prometheus_of :: "Config \<Rightarrow> srv_prometheus" where
  "prometheus_of c = \<lparr>sp_Enabled = prom_Enabled (cfg_Prometheus c), sp_Path = prom_Path (cfg_Prometheus c),
     sp_ProtectWithAuth = prom_ProtectWithAuth (cfg_Prometheus c)\<rparr>"

definition AuthReloader_Apply :: "Config \<Rightarrow> srv_options \<Rightarrow> err \<times> srv_options" where
  "AuthReloader_Apply c o' =
     (if \<not> auth_Enabled (cfg_Auth c)
      then (Some ''auth cannot be disabled via hot-reload (restart required)'', o')
      else if auth_BearerToken (cfg_Auth c) = [] then (Some ''bearer_token cannot be empty'', o')
      else if length (auth_BearerToken (cfg_Auth c)) < 32
      then (Some ''bearer_token must be at least 32 characters'', o')
      else (None, UpdateAuth (auth_of c) o'))"

definition AuthReloader_Rollback :: "Config \<Rightarrow> srv_options \<Rightarrow> err \<times> srv_options" where
  "AuthReloader_Rollback c o' = (None, UpdateAuth (auth_of c) o')"

definition PrometheusReloader_Apply :: "Config \<Rightarrow> srv_options \<Rightarrow> err \<times> srv_options" where
  "PrometheusReloader_Apply c o' = (None, UpdatePrometheus (prometheus_of c) o')"

definition PrometheusReloader_Rollback :: "Config \<Rightarrow> srv_options \<Rightarrow> err \<times> srv_options" where
  "PrometheusReloader_Rollback c o' = (None, UpdatePrometheus (prometheus_of c) o')"

subsection \<open>Lemmas\<close>

lemma strip_no_prefix: "p \<in> set ps \<Longrightarrow> p \<noteq> [] \<Longrightarrow> \<not> HasPrefix (strip ps s) p"
proof (induction ps s rule: strip.induct)
  case (1 ps s)
  show ?case
  proof (cases "List.find (\<lambda>p. p \<noteq> [] \<and> HasPrefix s p) ps")
    case None
    then have "strip ps s = s" by (subst strip.simps) simp
    with None 1 show ?thesis by (auto simp: find_None_iff)
  next
    case (Some q)
    with 1 show ?thesis by (subst strip.simps) simp
  qed
qed

lemma TrimSpace_no_space_suffix: "p \<in> set space_runes \<Longrightarrow> p \<noteq> [] \<Longrightarrow> \<not> HasSuffix (TrimSpace s) p"
  by (simp add: TrimSpace_def HasSuffix_def strip_no_prefix)

abbreviation token32 :: string where "token32 \<equiv> ''0123456789abcdef0123456789abcdef''"

abbreviation opts_with :: "string \<Rightarrow> srv_options" where
  "opts_with tok \<equiv> \<lparr>op_Auth = \<lparr>sa_Enabled = True, sa_BearerToken = tok\<rparr>,
     op_Prometheus = \<lparr>sp_Enabled = False, sp_Path = ''/metrics'', sp_ProtectWithAuth = False\<rparr>\<rparr>"

text \<open>A token that ends in white space locks everyone out: the header is trimmed before it is
  compared with the untrimmed token, so no header opens a protected path.\<close>

theorem spaced_token_locks_out:
  assumes "p \<in> set space_runes" "p \<noteq> []" "HasSuffix (sa_BearerToken (op_Auth o')) p" "requiresAuth o' path"
  shows "authMiddleware o' path header \<noteq> Next"
proof -
  have "HasSuffix (''Bearer '' @ t) p" if "HasSuffix t p" for t
    using that by (auto simp: HasSuffix_def HasPrefix_iff)
  then have "TrimSpace header \<noteq> ''Bearer '' @ sa_BearerToken (op_Auth o')"
    using TrimSpace_no_space_suffix [OF assms(1,2), of header] assms(3) by auto
  with assms(4) show ?thesis by (simp add: authMiddleware_def)
qed

theorem spaced_token_locks_out_witness:
  "authMiddleware (opts_with (token32 @ '' '')) ''/api/v1/exec'' (''Bearer '' @ token32 @ '' '') \<noteq> Next"
  by (rule spaced_token_locks_out [of "'' ''"])
     (simp_all add: space_runes_def HasSuffix_def HasPrefix_def requiresAuth_def)

lemma spaced_token_validates:
  "first_err (validate_auth \<lparr>auth_Enabled = True, auth_BearerToken = token32 @ '' ''\<rparr>) = None"
  by code_simp

subsection \<open>Routes\<close>

text \<open>
  The routes are registered once, by \<open>New\<close>, from the options of that moment; registering a pattern
  twice panics (None). A pattern that ends in a slash matches every path below it, and the longest
  pattern wins. The model covers patterns without wildcards.
\<close>

datatype handler = HandleHealthz | HandleReadyz | HandleLatestMetrics | HandleExec | HandleTask
  | HandleDetailedHealth | HandleGetConfig | HandleLogsSSE | HandleUI | HandlePrometheusMetrics

definition fixed_routes :: "(string \<times> handler) list" where
  "fixed_routes = [(''/healthz'', HandleHealthz), (''/readyz'', HandleReadyz),
     (''/api/v1/metrics/latest'', HandleLatestMetrics), (''/api/v1/exec'', HandleExec), (''/api/v1/tasks'', HandleTask),
     (''/api/v1/health/detailed'', HandleDetailedHealth), (''/api/v1/config'', HandleGetConfig),
     (''/api/v1/logs'', HandleLogsSSE), (''/ui/'', HandleUI)]"

definition registerRoutes :: "srv_options \<Rightarrow> (string \<times> handler) list option" where
  "registerRoutes o' =
     (let rs = fixed_routes @ (if sp_Enabled (op_Prometheus o') then [(sp_Path (op_Prometheus o'), HandlePrometheusMetrics)] else [])
      in if distinct (map fst rs) then Some rs else None)"

record HTTPServer =
  sv_options :: srv_options
  sv_routes :: "(string \<times> handler) list"

definition New_server :: "srv_options \<Rightarrow> HTTPServer option" where
  "New_server o' = map_option (\<lambda>rs. \<lparr>sv_options = srv_New o', sv_routes = rs\<rparr>) (registerRoutes (srv_New o'))"

definition route_matches :: "string \<Rightarrow> string \<Rightarrow> bool" where
  "route_matches path pat = (path = pat \<or> HasSuffix pat ''/'' \<and> HasPrefix path pat)"

fun longest_route :: "string \<Rightarrow> (string \<times> handler) list \<Rightarrow> (string \<times> handler) option" where
  "longest_route path [] = None"
| "longest_route path ((pat, h) # rs) =
     (case longest_route path rs of
        None \<Rightarrow> if route_matches path pat then Some (pat, h) else None
      | Some (pat', h') \<Rightarrow> if route_matches path pat \<and> length pat' < length pat then Some (pat, h) else Some (pat', h'))"

text \<open>The part of the middleware chain that decides: authentication, then the mux.\<close>

definition serve :: "HTTPServer \<Rightarrow> string \<Rightarrow> string \<Rightarrow> auth_outcome \<times> handler option" where
  "serve srv path header =
     (case authMiddleware (sv_options srv) path header of
        Next \<Rightarrow> (Next, map_option snd (longest_route path (sv_routes srv)))
      | r \<Rightarrow> (r, None))"

definition reload_options :: "(srv_options \<Rightarrow> err \<times> srv_options) \<Rightarrow> HTTPServer \<Rightarrow> err \<times> HTTPServer" where
  "reload_options f srv = (case f (sv_options srv) of (e, o') \<Rightarrow> (e, srv\<lparr>sv_options := o'\<rparr>))"

subsection \<open>Health\<close>

text \<open>One element per subsystem: the status its checker reports, None without one, and whether it is core.\<close>

definition status_bad :: "string option \<Rightarrow> bool" where
  "status_bad st = (case st of None \<Rightarrow> True | Some s \<Rightarrow> s \<in> {''error'', ''stopped'', ''disconnected''})"

definition health_step :: "string option \<times> bool \<Rightarrow> string \<Rightarrow> string" where
  "health_step e overall = (case e of (st, isCore) \<Rightarrow>
     if status_bad st then (if isCore then ''unhealthy'' else if overall = ''healthy'' then ''degraded'' else overall)
     else overall)"

definition buildHealthData :: "string option \<Rightarrow> string option \<Rightarrow> string option \<Rightarrow> string option \<Rightarrow> string" where
  "buildHealthData grpc sched pluginRT gateway =
     fold health_step [(grpc, True), (sched, True), (pluginRT, False), (gateway, False)] ''healthy''"

subsection \<open>The timeout of a task request\<close>

definition maxTimeoutSeconds :: int where "maxTimeoutSeconds = 300"

definition parseTimeoutSeconds :: "goval \<Rightarrow> int option" where
  "parseTimeoutSeconds v =
     (case v of GFloat64 x \<Rightarrow> Some (to_int64 x) | GInt n \<Rightarrow> Some n | GString s \<Rightarrow> Atoi s | _ \<Rightarrow> None)"

definition task_timeout :: "goval gomap \<Rightarrow> int" where
  "task_timeout payload =
     (case map_of payload ''timeout_seconds'' of
        Some v \<Rightarrow> (case parseTimeoutSeconds v of
                     Some seconds \<Rightarrow> if seconds > 0 then min seconds maxTimeoutSeconds else 15
                   | None \<Rightarrow> 15)
      | None \<Rightarrow> 15)"

lemma longest_route_mem: "longest_route path rs = Some (pat, h) \<Longrightarrow> (pat, h) \<in> set rs \<and> route_matches path pat"
  by (induction rs arbitrary: pat h) (auto split: option.splits if_splits)

lemma longest_route_exact:
  "(path, h) \<in> set rs \<Longrightarrow> distinct (map fst rs) \<Longrightarrow> longest_route path rs = Some (path, h)"
proof (induction rs)
  case (Cons r rs)
  obtain pat h' where r: "r = (pat, h')" by force
  have len: "length pat'' \<le> length path" if "route_matches path pat''" for pat''
    using that by (auto simp: route_matches_def HasPrefix_iff)
  show ?case
  proof (cases "pat = path")
    case True
    with Cons.prems r have h: "h' = h" by (auto simp: rev_image_eqI)
    have "longest_route path rs = None \<or> (\<exists>p k. longest_route path rs = Some (p, k) \<and> length p < length path)"
    proof (cases "longest_route path rs")
      case (Some q)
      obtain p k where q: "q = (p, k)" by force
      have m: "(p, k) \<in> set rs" "route_matches path p" using longest_route_mem Some q by blast+
      have "p \<noteq> path" using m(1) True Cons.prems(2) r by force
      moreover have "p = path \<or> length p < length path"
        using m(2) by (auto simp: route_matches_def HasPrefix_iff)
      ultimately show ?thesis using Some q by simp
    qed simp
    with True h r show ?thesis by (auto simp: route_matches_def)
  next
    case False
    with Cons r have "longest_route path rs = Some (path, h)" by auto
    moreover have "\<not> (route_matches path pat \<and> length path < length pat)" using len by (auto simp: not_less)
    ultimately show ?thesis using r by auto
  qed
qed simp

definition guarded_handlers :: "handler set" where
  "guarded_handlers = {HandleLatestMetrics, HandleExec, HandleTask, HandleDetailedHealth, HandleGetConfig, HandleLogsSSE}"

lemma guarded_path:
  assumes "registerRoutes o' = Some rs" "longest_route path rs = Some (pat, h)" "h \<in> guarded_handlers"
  shows "HasPrefix path ''/api/v1/''"
proof -
  have "(pat, h) \<in> set rs" "route_matches path pat" using longest_route_mem [OF assms(2)] by auto
  then have "(pat, h) \<in> set fixed_routes" "route_matches path pat" using assms(1,3)
    by (auto simp: registerRoutes_def Let_def guarded_handlers_def split: if_splits)
  then show ?thesis using assms(3)
    by (auto simp: fixed_routes_def guarded_handlers_def route_matches_def HasPrefix_def HasSuffix_def)
qed

datatype srv_reload = ApplyAuth Config | ApplyPrometheus Config

fun srv_reload_step :: "srv_reload \<Rightarrow> HTTPServer \<Rightarrow> HTTPServer" where
  "srv_reload_step (ApplyAuth c) srv = snd (reload_options (AuthReloader_Apply c) srv)"
| "srv_reload_step (ApplyPrometheus c) srv = snd (reload_options (PrometheusReloader_Apply c) srv)"

lemma reload_step_routes [simp]: "sv_routes (srv_reload_step r srv) = sv_routes srv"
  by (cases r) (simp_all add: reload_options_def split: prod.splits)

lemma reload_step_auth:
  "sa_Enabled (op_Auth (sv_options srv)) \<Longrightarrow> sa_Enabled (op_Auth (sv_options (srv_reload_step r srv)))"
  by (cases r)
     (auto simp: reload_options_def AuthReloader_Apply_def PrometheusReloader_Apply_def UpdateAuth_def UpdatePrometheus_def
       auth_of_def split: prod.splits if_splits)

lemma reloads_auth:
  "sa_Enabled (op_Auth (sv_options srv)) \<Longrightarrow> sa_Enabled (op_Auth (sv_options (fold srv_reload_step rs srv)))
     \<and> sv_routes (fold srv_reload_step rs srv) = sv_routes srv"
  by (induction rs arbitrary: srv) (simp_all add: reload_step_auth)

text \<open>C5: A server started with authentication never gives it up: after any sequence of reloads of the auth and
  Prometheus sections, the handlers of metrics, commands, tasks, configuration, health details and logs are
  reached only by a request whose trimmed Authorization header is Bearer and the current token.\<close>

theorem api_stays_guarded:
  assumes "New_server o0 = Some srv" "sa_Enabled (op_Auth o0)"
    and "serve (fold srv_reload_step rs srv) path header = (Next, Some h)" "h \<in> guarded_handlers"
  shows "TrimSpace header = ''Bearer '' @ sa_BearerToken (op_Auth (sv_options (fold srv_reload_step rs srv)))"
proof -
  let ?srv = "fold srv_reload_step rs srv"
  from assms(1) have routes: "registerRoutes (srv_New o0) = Some (sv_routes srv)" and opts: "sv_options srv = srv_New o0"
    by (auto simp: New_server_def)
  have on: "sa_Enabled (op_Auth (sv_options ?srv))" "sv_routes ?srv = sv_routes srv"
    using reloads_auth [of srv rs] opts assms(2) by (auto simp: srv_New_def)
  from assms(3) obtain pat where "authMiddleware (sv_options ?srv) path header = Next"
      "longest_route path (sv_routes srv) = Some (pat, h)"
    using on(2) by (auto simp: serve_def split: auth_outcome.splits)
  moreover from this(2) have "HasPrefix path ''/api/v1/''" by (rule guarded_path [OF routes _ assms(4)])
  ultimately show ?thesis using on(1) by (auto simp: authMiddleware_def requiresAuth_def split: if_splits)
qed

text \<open>C39: Changing the Prometheus path by a reload opens the old path: the route stays where it was registered
  at the start, but the middleware protects the new path, so the metrics are served to every request
  for the old one although they are still configured to be protected.\<close>

theorem prometheus_reload_unprotects:
  assumes "New_server o0 = Some srv" "sp_Enabled (op_Prometheus o0)" "sp_Path (op_Prometheus o0) = old" "old \<noteq> []"
    and "\<not> HasPrefix old ''/api/v1/''" "prom_Path (cfg_Prometheus c) \<noteq> old"
  shows "serve (srv_reload_step (ApplyPrometheus c) srv) old header = (Next, Some HandlePrometheusMetrics)"
proof -
  let ?srv = "srv_reload_step (ApplyPrometheus c) srv"
  from assms(1-4) have "registerRoutes o0 = Some (sv_routes srv)" by (auto simp: New_server_def srv_New_def)
  with assms(2,3) have "sv_routes srv = fixed_routes @ [(old, HandlePrometheusMetrics)]" "distinct (map fst (sv_routes srv))"
    by (auto simp: registerRoutes_def Let_def simp del: distinct_append map_append split: if_splits)
  then have "(old, HandlePrometheusMetrics) \<in> set (sv_routes srv)" "distinct (map fst (sv_routes srv))" by simp_all
  then have "longest_route old (sv_routes ?srv) = Some (old, HandlePrometheusMetrics)"
    by (simp only: reload_step_routes longest_route_exact)
  moreover have "authMiddleware (sv_options ?srv) old header = Next"
    using assms(5,6)
    by (simp add: reload_options_def PrometheusReloader_Apply_def UpdatePrometheus_def prometheus_of_def authMiddleware_def
        requiresAuth_def)
  ultimately show ?thesis by (simp add: serve_def)
qed

lemma health_overall:
  "buildHealthData grpc sched pluginRT gateway =
     (if status_bad grpc \<or> status_bad sched then ''unhealthy''
      else if status_bad pluginRT \<or> status_bad gateway then ''degraded'' else ''healthy'')"
  by (simp add: buildHealthData_def health_step_def)

text \<open>Whatever a task request asks for, its timeout is between 1 and 300 seconds.\<close>

theorem task_timeout_bounds: "1 \<le> task_timeout payload \<and> task_timeout payload \<le> 300"
  by (auto simp: task_timeout_def maxTimeoutSeconds_def split: option.splits)

lemma healthz_path_panics:
  "first_err (validate_prometheus \<lparr>prom_Enabled = True, prom_Path = ''/healthz'', prom_ProtectWithAuth = False\<rparr>) = None
   \<and> New_server \<lparr>op_Auth = a, op_Prometheus = \<lparr>sp_Enabled = True, sp_Path = ''/healthz'', sp_ProtectWithAuth = False\<rparr>\<rparr> = None"
proof
  show "first_err (validate_prometheus \<lparr>prom_Enabled = True, prom_Path = ''/healthz'', prom_ProtectWithAuth = False\<rparr>) = None"
    by code_simp
qed (simp add: New_server_def registerRoutes_def fixed_routes_def srv_New_def Let_def)

end
