(* ===== verification/Agent_Reload.thy ===== *)
theory Agent_Reload
imports Server Scheduler
begin

text \<open>
  The reloaders the agent registers (\<open>internal/app/agent.go\<close>): collector, auth, prometheus and
  reporter, acting on the scheduler and the server options. They satisfy the contract
  \<open>reloaders\<close>, where a collector pipeline that cannot be built is the one case that is not clean.
\<close>

datatype Reloader = CollectorReloader | AuthReloader | PrometheusReloader | ReporterReloader

record agent_state =
  ag_sched :: Scheduler
  ag_server :: srv_options

definition on_server :: "(srv_options \<Rightarrow> err \<times> srv_options) \<Rightarrow> agent_state \<Rightarrow> err \<times> agent_state" where
  "on_server f s = (case f (ag_server s) of (e, o') \<Rightarrow> (e, s\<lparr>ag_server := o'\<rparr>))"

definition CollectorReloader_Apply :: "factories \<Rightarrow> Config \<Rightarrow> agent_state \<Rightarrow> err \<times> agent_state" where
  "CollectorReloader_Apply reg c s =
     (case sched_Reload reg (toReloadConfig (cfg_Collector c)) (ag_sched s) of
        (e, sch) \<Rightarrow> (e, s\<lparr>ag_sched := sch\<rparr>))"

definition CollectorReloader_Rollback :: "factories \<Rightarrow> Config \<Rightarrow> agent_state \<Rightarrow> err \<times> agent_state" where
  "CollectorReloader_Rollback reg old s =
     (case sched_Reload reg (toReloadConfig (cfg_Collector old)) (ag_sched s) of
        (e, sch) \<Rightarrow> (e, s\<lparr>ag_sched := sch\<rparr>))"

fun agent_CanReload :: "Reloader \<Rightarrow> ChangeSet \<Rightarrow> bool" where
  "agent_CanReload CollectorReloader cs = CollectorChanged cs"
| "agent_CanReload AuthReloader cs = AuthChanged cs"
| "agent_CanReload PrometheusReloader cs = PrometheusChanged cs"
| "agent_CanReload ReporterReloader cs = ReporterChanged cs"

text \<open>The reporter reloader only logs.\<close>

fun agent_Apply :: "factories \<Rightarrow> Reloader \<Rightarrow> Config \<Rightarrow> agent_state \<Rightarrow> err \<times> agent_state" where
  "agent_Apply reg CollectorReloader c s = CollectorReloader_Apply reg c s"
| "agent_Apply reg AuthReloader c s = on_server (AuthReloader_Apply c) s"
| "agent_Apply reg PrometheusReloader c s = on_server (PrometheusReloader_Apply c) s"
| "agent_Apply reg ReporterReloader c s = (None, s)"

fun agent_Rollback :: "factories \<Rightarrow> Reloader \<Rightarrow> Config \<Rightarrow> agent_state \<Rightarrow> err \<times> agent_state" where
  "agent_Rollback reg CollectorReloader c s = CollectorReloader_Rollback reg c s"
| "agent_Rollback reg AuthReloader c s = on_server (AuthReloader_Rollback c) s"
| "agent_Rollback reg PrometheusReloader c s = on_server (PrometheusReloader_Rollback c) s"
| "agent_Rollback reg ReporterReloader c s = (None, s)"

definition agent_ops :: "factories \<Rightarrow> (Reloader, agent_state) reloader_ops" where
  "agent_ops reg = \<lparr>CanReload = agent_CanReload, rl_Apply = agent_Apply reg, rl_Rollback = agent_Rollback reg\<rparr>"

definition agent_reloader :: "Config \<Rightarrow> Reloader ConfigReloader" where
  "agent_reloader c = \<lparr>cr_current = c,
     cr_reloaders = [CollectorReloader, AuthReloader, PrometheusReloader, ReporterReloader]\<rparr>"

subsection \<open>In step\<close>

text \<open>A plugin without the state it has accumulated while running.\<close>

fun proc_fresh :: "Processor \<Rightarrow> Processor" where
  "proc_fresh (DeltaProc p) = DeltaProc (p\<lparr>dl_prev := []\<rparr>)"
| "proc_fresh p = p"

definition runs_pipeline :: "pipeline \<Rightarrow> Scheduler \<Rightarrow> bool" where
  "runs_pipeline p s =
     (map si_Input (sc_inputs s) = pl_inputs p
      \<and> map proc_fresh (sc_processors s) = map proc_fresh (pl_processors p)
      \<and> map agg_Reset (sc_aggregators s) = map agg_Reset (pl_aggregators p)
      \<and> sc_outputs s = pl_outputs p \<and> sc_active s = sc_running s)"

fun in_step :: "factories \<Rightarrow> Reloader \<Rightarrow> Config \<Rightarrow> agent_state \<Rightarrow> bool" where
  "in_step reg CollectorReloader c s =
     (case build_pipeline reg (toReloadConfig (cfg_Collector c)) of
        Inl e \<Rightarrow> False | Inr p \<Rightarrow> runs_pipeline p (ag_sched s))"
| "in_step reg AuthReloader c s = (op_Auth (ag_server s) = auth_of c)"
| "in_step reg PrometheusReloader c s = (op_Prometheus (ag_server s) = prometheus_of c)"
| "in_step reg ReporterReloader c s = True"






subsection \<open>An example configuration\<close>

definition example_config :: Config where
  "example_config =
    \<lparr>cfg_Agent = \<lparr>agent_ID = ''a1'', agent_Name = ''node'', agent_Mode = AgentModeStandalone,
    agent_IntervalSeconds = 10, agent_ShutdownTimeoutSeconds = 30, agent_AuditLog = \<lparr>auditlog_Enabled
    = False, auditlog_Path = ''/var/log/opsagent/audit.jsonl'', auditlog_MaxSizeMB = 100, auditlog_MaxBackups
    = 5\<rparr>\<rparr>, cfg_Server = \<lparr>server_ListenAddr = ''127.0.0.1:18080''\<rparr>, cfg_Executor =
    \<lparr>exec_TimeoutSeconds = 10, exec_AllowedCommands = Some [''uptime''], exec_MaxOutputBytes =
    65536\<rparr>, cfg_Reporter = \<lparr>rep_Mode = ''stdout'', rep_Endpoint = [], rep_TimeoutSeconds = 5,
    rep_RetryCount = 3, rep_RetryIntervalMS = 500\<rparr>, cfg_Auth = \<lparr>auth_Enabled = True,
    auth_BearerToken = ''0123456789abcdef0123456789abcdef''\<rparr>, cfg_Prometheus = \<lparr>prom_Enabled =
    True, prom_Path = ''/metrics'', prom_ProtectWithAuth = False\<rparr>, cfg_Plugin = \<lparr>plug_Enabled =
    False, plug_RuntimePath = ''./rust-runtime/target/release/opsagent-rust-runtime'',
    plug_SocketPath = ''/tmp/opsagent/plugin.sock'', plug_AutoStart = True,
    plug_StartupTimeoutSeconds = 5, plug_RequestTimeoutSeconds = 30, plug_MaxConcurrentTasks = 4,
    plug_MaxResultBytes = 8388608, plug_ChunkSizeBytes = 262144, plug_SandboxProfile = ''strict''\<rparr>,
    cfg_GRPC = \<lparr>grpc_ServerAddr = ''hub:443'', grpc_EnrollToken = [], grpc_MTLS =
    \<lparr>mtls_CertFile = [], mtls_KeyFile = [], mtls_CAFile = []\<rparr>, grpc_HeartbeatIntervalSeconds =
    15, grpc_ReconnectInitialBackoffMS = 1000, grpc_ReconnectMaxBackoffMS = 30000, grpc_CachePersistPath =
    []\<rparr>, cfg_Sandbox = \<lparr>sbx_Enabled = False, sbx_NsjailPath = [], sbx_BaseWorkdir = [],
    sbx_DefaultTimeoutSeconds = 30, sbx_MaxConcurrentTasks = 4, sbx_CgroupBasePath = [], sbx_AuditLogPath =
    [], sbx_Policy = \<lparr>pol_AllowedCommands = None, pol_BlockedCommands = None, pol_BlockedKeywords =
    None, pol_AllowedInterpreters = None, pol_ScriptMaxBytes = 65536, pol_ShellInjectionCheck = True\<rparr>,
    sbx_AllowUnsandboxedFallback = False\<rparr>, cfg_Collector = \<lparr>coll_Inputs = None, coll_Processors
    = None, coll_Aggregators = None, coll_Outputs = None\<rparr>, cfg_PluginGateway = \<lparr>pgw_Enabled =
    False, pgw_PluginsDir = ''/etc/opsagent/plugins'', pgw_StartupTimeoutSeconds = 10,
    pgw_HealthCheckIntervalSecs = 30, pgw_MaxRestarts = 3, pgw_RestartBackoffSeconds = 5,
    pgw_FileWatchDebounceSecs = 2, pgw_PluginConfigs = None\<rparr>, cfg_Checker = \<lparr>chk_Enabled =
    True, chk_MaxConcurrent = 5, chk_DefaultTimeoutSeconds = 30, chk_DisabledCheckers = None\<rparr>,
    cfg_Gateway = \<lparr>gw_Enabled = False, gw_ListenAddr = '':18081'', gw_MaxTunnels = 100,
    gw_TunnelTimeoutSeconds = 30, gw_IdleTimeoutSeconds = 300, gw_Hosts = None\<rparr>, cfg_Tracing =
    \<lparr>trc_Enabled = False, trc_Receiver = \<lparr>trcv_GRPCAddr = ''0.0.0.0:4317'', trcv_HTTPAddr =
    ''0.0.0.0:4318''\<rparr>, trc_Processor = \<lparr>tproc_BatchTimeoutMs = 5000, tproc_MaxBatchSize =
    512\<rparr>, trc_Exporter = \<lparr>texp_Endpoint = [], texp_Protocol = ''grpc''\<rparr>\<rparr>,
    cfg_Alerting = \<lparr>alerting_Enabled = False, alerting_Rules = None\<rparr>, cfg_Discovery =
    \<lparr>disc_Enabled = False, disc_IntervalSec = 300, disc_Layers = None\<rparr>, cfg_Updater =
    \<lparr>upd_Enabled = False, upd_CurrentPath = [], upd_BackupPath = [], upd_DownloadDir = []\<rparr>,
    cfg_WASM = \<lparr>wasm_Enabled = False, wasm_PluginsDir = ''/etc/opsagent/wasm-plugins'',
    wasm_MaxModules = 10, wasm_CacheDir = ''/var/lib/opsagent/wasm-cache''\<rparr>, cfg_Federation =
    \<lparr>fed_Enabled = False, fed_Hub = \<lparr>hub_ListenAddr = '':9443'', hub_Region = [], hub_MaxLeaves
    = 500, hub_LeafHeartbeatTimeoutSeconds = 60, hub_MetricsAggregationIntervalSec = 30, hub_Security =
    \<lparr>fsec_MTLS = \<lparr>mtls_CertFile = [], mtls_KeyFile = [], mtls_CAFile = []\<rparr>, fsec_PSK =
    []\<rparr>, hub_Groups = None, hub_ConfigLevels = \<lparr>clev_Global = None, clev_Regions = None,
    clev_Groups = None, clev_Agents = None\<rparr>, hub_Canary = \<lparr>canary_Strategy = ''percentage'',
    canary_Stages = None\<rparr>, hub_Operations = \<lparr>ops_MaxConcurrent = 50, ops_DefaultTimeoutSeconds
    = 300, ops_RetryPolicy = \<lparr>retry_MaxRetries = 3, retry_BackoffSeconds = 10\<rparr>\<rparr>\<rparr>,
    fed_Leaf = \<lparr>leaf_HubAddr = [], leaf_ReconnectIntervalSec = 5, leaf_ReportIntervalSec = 30,
    leaf_Fallback = \<lparr>fallback_Enabled = False, fallback_Mode = ''standalone'', fallback_PlatformAddr =
    [], fallback_CheckIntervalSec = 30\<rparr>\<rparr>\<rparr>\<rparr>"

lemma example_trims:
  "TrimSpace ''uptime'' = ''uptime''" "TrimSpace ''0123456789abcdef0123456789abcdef'' = ''0123456789abcdef0123456789abcdef''"
  "TrimSpace ''/metrics'' = ''/metrics''" "TrimSpace ''hub:443'' = ''hub:443''"
  by code_simp+

lemmas validate_defs = Validate_def validate_agent_def validate_reporter_def validate_auth_def validate_prometheus_def
  validate_plugin_def validate_grpc_def validate_sandbox_def validate_plugin_gateway_def validate_checker_def
  validate_gateway_def validate_tracing_def validate_alerting_def validate_federation_def AgentModeStandalone_def
  AgentModeHub_def AgentModeLeaf_def

lemma example_valid: "Validate example_config = None"
  by (simp add: validate_defs example_config_def example_trims HasPrefix_def)


subsection \<open>Properties of the agent's reload\<close>


definition no_factories :: factories where
  "no_factories = \<lparr>GetInput = \<lambda>_. None, GetProcessor = \<lambda>_. None, GetAggregator = \<lambda>_. None, GetOutput = \<lambda>_. None\<rparr>"

definition example_state :: agent_state where
  "example_state = \<lparr>ag_sched = sched_Start (NewScheduler [] [] [] []),
     ag_server = \<lparr>op_Auth = auth_of example_config, op_Prometheus = prometheus_of example_config\<rparr>\<rparr>"


text \<open>The example with a longer token, and with an input of a type nobody registered.\<close>

definition example_token :: Config where
  "example_token = example_config\<lparr>cfg_Auth := \<lparr>auth_Enabled = True, auth_BearerToken = ''0123456789abcdef0123456789abcdef0''\<rparr>\<rparr>"

definition example_unknown_input :: Config where
  "example_unknown_input = example_config\<lparr>cfg_Collector :=
     (cfg_Collector example_config)\<lparr>coll_Inputs := Some [\<lparr>inst_Type = ''nosuch'', inst_Config = None\<rparr>]\<rparr>\<rparr>"

lemma example_variants_valid: "Validate example_token = None" "Validate example_unknown_input = None"
proof -
  have "TrimSpace ''0123456789abcdef0123456789abcdef0'' = ''0123456789abcdef0123456789abcdef0''" by code_simp
  then show "Validate example_token = None"
    by (simp add: validate_defs example_token_def example_config_def example_trims HasPrefix_def)
  show "Validate example_unknown_input = None"
    by (simp add: validate_defs example_unknown_input_def example_config_def example_trims HasPrefix_def)
qed

lemmas diff_defs = nonReloadable_def diffAgent_def diffServer_def diffGRPC_def diffExecutor_def diffGateway_def
  diff_str_def diff_int_def change_if_def Let_def


text \<open>When the new collector pipeline cannot be built, the failed reload is not undone: the error is
  returned and the old configuration kept, but the scheduler of the running agent has been stopped
  and still reports that it runs.\<close>

theorem failed_collector_reload_stops:
  assumes "parse yaml = Inr new" "length yaml \<le> maxConfigYAMLSize"
    and "Diff old new = Inr (cs, [])" "CollectorChanged cs"
    and "build_pipeline reg (toReloadConfig (cfg_Collector new)) = Inl e" "sc_running (ag_sched s)"
  shows "\<exists>m s'. cr_Apply (agent_ops reg) parse yaml (agent_reloader old) s = (Some m, agent_reloader old, s')
     \<and> \<not> sc_active (ag_sched s') \<and> sc_running (ag_sched s') \<and> \<not> in_step reg CollectorReloader old s'"
  using assms
  by (simp add: cr_Apply_def agent_reloader_def agent_ops_def CollectorReloader_Apply_def sched_Reload_def
      Let_def rollback_all_def runs_pipeline_def split: sum.splits)

theorem failed_collector_reload_stops_witness:
  "\<exists>m s'. cr_Apply (agent_ops no_factories) (\<lambda>_. Inr example_unknown_input) [] (agent_reloader example_config) example_state
       = (Some m, agent_reloader example_config, s')
     \<and> \<not> sc_active (ag_sched s') \<and> sc_running (ag_sched s') \<and> \<not> in_step no_factories CollectorReloader example_config s'"
proof (rule failed_collector_reload_stops)
  have "nonReloadable example_config example_unknown_input = []"
    by (simp add: diff_defs example_unknown_input_def example_config_def)
  then show "Diff example_config example_unknown_input = Inr (changeSet example_config example_unknown_input, [])"
    by (simp add: Diff_def example_variants_valid)
  show "CollectorChanged (changeSet example_config example_unknown_input)"
    by (simp add: changeSet_def deepEqual_collector_def example_unknown_input_def example_config_def)
qed (simp_all add: build_pipeline_def no_factories_def toReloadConfig_def plugin_configs_def
      example_unknown_input_def example_config_def example_state_def sched_Start_def maxConfigYAMLSize_def)

text \<open>Changes of the alerting, checker, plugin gateway, tracing, discovery, updater, WASM and federation
  sections and of the agent's mode and audit log are accepted by a hot reload and become the current
  configuration, although nothing applies them: the state of the agent is the same afterwards.\<close>

theorem reload_accepts_without_applying:
  assumes "parse yaml = Inr new" "length yaml \<le> maxConfigYAMLSize" "Validate new = None"
    and "new = old\<lparr>cfg_Agent := (cfg_Agent old)\<lparr>agent_Mode := md, agent_AuditLog := al\<rparr>, cfg_PluginGateway := pg,
           cfg_Checker := ck, cfg_Tracing := tr, cfg_Alerting := ar, cfg_Discovery := di, cfg_Updater := up,
           cfg_WASM := wa, cfg_Federation := fe\<rparr>"
    and "deepEqual_collector (cfg_Collector old) (cfg_Collector old)"
  shows "cr_Apply (agent_ops reg) parse yaml (agent_reloader old) s = (None, (agent_reloader old)\<lparr>cr_current := new\<rparr>, s)"
proof -
  have hosts: "diff_host i h h = []" for i h
    by (simp add: diff_host_def Let_def)
  have "diff_hosts i hs hs = []" for i hs
    by (induction hs arbitrary: i) (simp_all add: hosts)
  then have nr: "nonReloadable old new = []"
    by (simp add: assms(4) nonReloadable_def diffAgent_def diffServer_def diffGRPC_def diffExecutor_def diffGateway_def Let_def)
  have cs: "\<not> CollectorChanged (changeSet old new)" "\<not> AuthChanged (changeSet old new)"
      "\<not> PrometheusChanged (changeSet old new)" "\<not> ReporterChanged (changeSet old new)"
    using assms(5) by (simp_all add: changeSet_def assms(4) diffAuth_def diffPrometheus_def diffReporter_def)
  show ?thesis
    using assms(1-3) nr cs by (simp add: cr_Apply_def Diff_def agent_reloader_def agent_ops_def)
qed

definition example_hub :: Config where
  "example_hub = example_config\<lparr>cfg_Agent := (cfg_Agent example_config)\<lparr>agent_Mode := AgentModeHub\<rparr>\<rparr>"

theorem reload_accepts_without_applying_witness:
  "cr_Apply (agent_ops no_factories) (\<lambda>_. Inr example_hub) [] (agent_reloader example_config) example_state
     = (None, (agent_reloader example_config)\<lparr>cr_current := example_hub\<rparr>, example_state)"
proof (rule reload_accepts_without_applying)
  show "Validate example_hub = None"
    by (simp add: validate_defs example_hub_def example_config_def example_trims HasPrefix_def)
  show "example_hub = example_config\<lparr>cfg_Agent := (cfg_Agent example_config)\<lparr>agent_Mode := AgentModeHub,
      agent_AuditLog := agent_AuditLog (cfg_Agent example_config)\<rparr>, cfg_PluginGateway := cfg_PluginGateway example_config,
      cfg_Checker := cfg_Checker example_config, cfg_Tracing := cfg_Tracing example_config,
      cfg_Alerting := cfg_Alerting example_config, cfg_Discovery := cfg_Discovery example_config,
      cfg_Updater := cfg_Updater example_config, cfg_WASM := cfg_WASM example_config,
      cfg_Federation := cfg_Federation example_config\<rparr>"
    by (simp add: example_hub_def example_config_def)
qed (simp_all add: maxConfigYAMLSize_def deepEqual_collector_def instances_nan_def example_config_def)

theorem reload_keeps_restart_sections_witness:
  "\<exists>cr s'. cr_Apply (agent_ops no_factories) (\<lambda>_. Inr example_hub) [] (agent_reloader example_config) example_state = (None, cr, s')
     \<and> cfg_GRPC (cr_current cr) = cfg_GRPC example_config"
proof -
  have "Validate example_hub = None"
    by (simp add: validate_defs example_hub_def example_config_def example_trims HasPrefix_def)
  moreover have "nonReloadable example_config example_hub = []"
    by (simp add: diff_defs example_hub_def example_config_def)
  moreover have "changeSet example_config example_hub = \<lparr>CollectorChanged = False, ReporterChanged = False, AuthChanged = False,
      PrometheusChanged = False, PluginGatewayChanged = False, CheckerChanged = False, AlertingChanged = False\<rparr>"
    by (simp add: changeSet_def example_hub_def example_config_def deepEqual_collector_def instances_nan_def
        deepEqual_plugin_gateway_def deepEqual_alerting_def diffReporter_def diffAuth_def diffPrometheus_def
        diffPluginGateway_def diffChecker_def diffAlerting_def)
  ultimately have run: "cr_Apply (agent_ops no_factories) (\<lambda>_. Inr example_hub) [] (agent_reloader example_config) example_state
      = (None, (agent_reloader example_config)\<lparr>cr_current := example_hub\<rparr>, example_state)"
    by (simp add: cr_Apply_def Diff_def agent_reloader_def agent_ops_def)
  with reload_keeps_restart_sections [OF run] show ?thesis by (simp add: agent_reloader_def)
qed

subsection \<open>The server of the example\<close>

definition example_options :: srv_options where
  "example_options = \<lparr>op_Auth = auth_of example_token,
     op_Prometheus = \<lparr>sp_Enabled = True, sp_Path = ''/metrics'', sp_ProtectWithAuth = True\<rparr>\<rparr>"

definition example_moved :: Config where
  "example_moved = example_token\<lparr>cfg_Prometheus := \<lparr>prom_Enabled = True, prom_Path = ''/m2'', prom_ProtectWithAuth = True\<rparr>\<rparr>"

lemma example_server: "\<exists>srv. New_server example_options = Some srv \<and> sv_options srv = example_options
    \<and> longest_route ''/api/v1/exec'' (sv_routes srv) = Some (''/api/v1/exec'', HandleExec)"
  by (simp add: example_options_def New_server_def registerRoutes_def fixed_routes_def srv_New_def Let_def route_matches_def
      HasPrefix_def HasSuffix_def)

theorem prometheus_reload_unprotects_witness:
  "\<exists>srv. New_server example_options = Some srv
     \<and> (serve srv ''/metrics'' [] = (PlainUnauthorized, None)
     \<and> serve (srv_reload_step (ApplyPrometheus example_moved) srv) ''/metrics'' [] = (Next, Some HandlePrometheusMetrics))"
proof -
  obtain srv where srv: "New_server example_options = Some srv" "sv_options srv = example_options" using example_server by blast
  have t: "TrimSpace [] = []" by code_simp
  have "serve srv ''/metrics'' [] = (PlainUnauthorized, None)"
    by (simp add: t serve_def srv(2) authMiddleware_def requiresAuth_def example_options_def auth_of_def example_token_def HasPrefix_def)
  with prometheus_reload_unprotects [OF srv(1), of "''/metrics''" example_moved "[]"] srv(1) show ?thesis
    by (simp add: example_options_def example_moved_def HasPrefix_def)
qed

theorem api_stays_guarded_witness:
  "\<exists>srv. New_server example_options = Some srv
     \<and> (let srv' = fold srv_reload_step [ApplyPrometheus example_moved] srv in
        serve srv' ''/api/v1/exec'' (''Bearer '' @ auth_BearerToken (cfg_Auth example_token)) = (Next, Some HandleExec)
        \<and> TrimSpace (''Bearer '' @ auth_BearerToken (cfg_Auth example_token))
            = ''Bearer '' @ sa_BearerToken (op_Auth (sv_options srv')))"
proof -
  obtain srv where srv: "New_server example_options = Some srv" "sv_options srv = example_options"
      "longest_route ''/api/v1/exec'' (sv_routes srv) = Some (''/api/v1/exec'', HandleExec)" using example_server by blast
  let ?h = "''Bearer 0123456789abcdef0123456789abcdef0''"
  let ?srv = "fold srv_reload_step [ApplyPrometheus example_moved] srv"
  have t: "TrimSpace ?h = ?h" by code_simp
  have run: "serve ?srv ''/api/v1/exec'' ?h = (Next, Some HandleExec)"
    by (simp add: serve_def reload_options_def PrometheusReloader_Apply_def UpdatePrometheus_def srv authMiddleware_def t
        example_options_def auth_of_def example_token_def)
  have "TrimSpace ?h = ''Bearer '' @ sa_BearerToken (op_Auth (sv_options ?srv))"
    by (rule api_stays_guarded [OF srv(1) _ run]) (simp_all add: example_options_def auth_of_def example_token_def guarded_handlers_def)
  with run srv(1) show ?thesis by (simp add: example_token_def Let_def)
qed

end
