(* ===== verification/Sandbox.thy ===== *)
theory Sandbox
imports Go_Values
begin

text \<open>
  Sandboxed execution, \<open>internal/sandbox\<close>: the policy (\<open>policy.go\<close>), the nsjail command line
  (\<open>nsjail.go\<close>), the streaming of output (\<open>output_streamer.go\<close>) and the executor
  (\<open>executor.go\<close>). What the operating system does (creating the cgroup, running the process) is
  an argument; the executor's result and the exact invocation of nsjail are computed from it.
\<close>

subsection \<open>policy.go\<close>

record Policy =
  p_AllowedCommands :: "string list"
  p_BlockedCommands :: "string list"
  p_BlockedKeywords :: "string list"
  p_AllowedInterpreters :: "string list"
  p_MaxScriptBytes :: int
  p_AllowSudo :: bool
  p_AllowNetwork :: bool

definition toSet :: "string list \<Rightarrow> string list" where
  "toSet items = filter (\<lambda>t. t \<noteq> []) (map TrimSpace items)"

definition shellMetachars :: "string list" where
  "shellMetachars = ['';'', ''&&'', ''||'', ''|'', [CHR 0x60], ''$('', ''${'', ''>'', ''<'', [CHR 0x0A],
     [CHR 0x27], [CHR 0x22], [CHR 0x5C], ''*'', ''?'', ''#'', ''~'', ''!'', ''('', '')'', ''['', '']'', ''{'', ''}'']"

definition containsShellMetacharacters :: "string \<Rightarrow> bool" where
  "containsShellMetacharacters s = list_ex (\<lambda>mc. Contains s mc) shellMetachars"

definition ValidateCommand :: "Policy \<Rightarrow> string \<Rightarrow> string list \<Rightarrow> err" where
  "ValidateCommand p command args =
     (let cmdName = TrimSpace command in
      first_err
        ([fail_if (cmdName = []) ''command is required'',
          fail_if (containsShellMetacharacters cmdName) ''command name contains shell metacharacters: %q'',
          fail_if (cmdName \<in> set (toSet (p_BlockedCommands p))) ''command %q is blocked by policy'',
          fail_if (p_AllowedCommands p \<noteq> [] \<and> cmdName \<notin> set (toSet (p_AllowedCommands p)))
            ''command %q is not in the allowed list'']
         @ map (\<lambda>arg. fail_if (containsShellMetacharacters arg) ''argument %d contains shell metacharacters: %q'') args
         @ [fail_if (cmdName = ''sudo'' \<and> \<not> p_AllowSudo p) ''sudo is not allowed by policy'']))"

definition ValidateScript :: "Policy \<Rightarrow> string \<Rightarrow> string \<Rightarrow> err" where
  "ValidateScript p interpreter script =
     (let maxBytes = (if p_MaxScriptBytes p \<le> 0 then 1024 * 1024 else p_MaxScriptBytes p);
          lowerScript = ToLower script in
      first_err
        ([fail_if (interpreter = []) ''interpreter is required'',
          fail_if (p_AllowedInterpreters p \<noteq> [] \<and> interpreter \<notin> set (toSet (p_AllowedInterpreters p)))
            ''interpreter %q is not allowed'',
          fail_if (int (length script) > maxBytes) ''script size %d bytes exceeds maximum %d bytes'']
         @ map (\<lambda>kw. fail_if (Contains lowerScript (ToLower kw)) ''script contains blocked keyword %q'')
             (p_BlockedKeywords p)))"

subsection \<open>nsjail.go\<close>

definition sanitizeTaskID :: "string \<Rightarrow> string result" where
  "sanitizeTaskID taskID =
     (if taskID = [] then Inl ''task ID is required''
      else let cleaned = path_Clean taskID in
        if cleaned = ''.'' \<or> cleaned = ''..'' \<or> ContainsAny cleaned [CHR 0x2F, CHR 0x5C]
        then Inl ''invalid task ID: %q contains path traversal''
        else if ContainsAny cleaned [CHR 0x00] then Inl ''invalid task ID: contains null byte''
        else Inr cleaned)"

record NsjailConfig =
  ns_TimeLimit :: int
  ns_MemoryMB :: int
  ns_CPUPercent :: int
  ns_MaxPIDs :: int
  ns_MaxFileSize :: int
  ns_NetworkMode :: string
  ns_AllowedIPs :: "string list"
  ns_WorkDir :: string

definition nl :: string where "nl = [CHR 0x0A]"

definition baseSyscalls :: string where
  "baseSyscalls = join_with nl
    [''ALLOW {'',
     ''    read, write, open, close, mmap, munmap, mprotect, brk,'',
     ''    access, stat, fstat, lstat, ioctl, pread64, pwrite64,'',
     ''    readv, writev, pipe, dup, dup2, nanosleep, getpid,'',
     ''    execve, exit, wait4, kill, uname,'',
     ''    fcntl, flock, fsync, fdatasync, truncate, ftruncate,'',
     ''    getdents, getcwd, chdir, rename, mkdir, rmdir, link,'',
     ''    unlink, readlink, chmod, chown, umask, gettimeofday,'',
     ''    getuid, getgid, geteuid, getegid, getppid, getpgrp,'',
     ''    set_tid_address, futex, epoll_create, epoll_ctl,'',
     ''    epoll_wait, clock_gettime, exit_group, set_robust_list,'',
     ''    openat, mkdirat, newfstatat, unlinkat, renameat,'',
     ''    readlinkat, faccessat, epoll_create1, pipe2, dup3,'',
     ''    prlimit64, getrandom, rseq, sigaltstack, rt_sigaction,'',
     ''    rt_sigprocmask, madvise, getpeername, getsockname,'',
     ''    timerfd_create, timerfd_settime, timerfd_gettime'',
     ''}'']"

definition networkSyscalls :: string where
  "networkSyscalls = join_with nl
    ['','',
     ''    socket, connect, bind, listen, accept, accept4,'',
     ''    sendto, recvfrom, sendmsg, recvmsg, shutdown,'',
     ''    setsockopt, getsockopt, socketpair, eventfd2'']"

definition seccompPolicyString :: "NsjailConfig \<Rightarrow> string" where
  "seccompPolicyString c =
     (if ns_NetworkMode c = ''allowlist''
      then take (length baseSyscalls - 1) baseSyscalls @ networkSyscalls @ nl @ ''}''
      else baseSyscalls)"

text \<open>\<open>None\<close> is the nil slice that an invalid task ID gives.\<close>

definition ToArgs :: "NsjailConfig \<Rightarrow> string \<Rightarrow> string list option" where
  "ToArgs c taskID =
     (case sanitizeTaskID taskID of
        Inl _ \<Rightarrow> None
      | Inr tid \<Rightarrow> Some
         ([''--mode=ONCE'', ''--really_quiet'', ''--name=sandbox-'' @ tid]
          @ (if ns_TimeLimit c > 0 then [''--time_limit='' @ itoa (ns_TimeLimit c)] else [])
          @ (if ns_MemoryMB c > 0 then [''--cgroup_mem_max='' @ itoa (wrap64 (ns_MemoryMB c * 1024 * 1024))] else [])
          @ (if ns_CPUPercent c > 0 then [''--cgroup_cpu_ms_per_sec='' @ itoa (wrap64 (ns_CPUPercent c * 10))] else [])
          @ (if ns_MaxPIDs c > 0 then [''--cgroup_pids_max='' @ itoa (ns_MaxPIDs c)] else [])
          @ [''--uid_mapping=0:65534:1'', ''--gid_mapping=0:65534:1'']
          @ map (\<lambda>dir. ''--bindmount_ro='' @ dir) [''/usr'', ''/lib'', ''/lib64'', ''/bin'']
          @ [''--tmpfsmount=/etc:tmpfs:size=1048576'', ''--tmpfsmount=/tmp:tmpfs:size=67108864'',
             ''--tmpfsmount=/work:tmpfs:size=134217728'']
          @ [''--seccomp_policy_string='' @ seccompPolicyString c]
          @ (if ns_NetworkMode c = ''allowlist'' then [''--disable_clone_newnet''] else [])
          @ [''--cwd='' @ (if ns_WorkDir c = [] then ''/work'' else ns_WorkDir c)]))"

definition CommandArgs :: "NsjailConfig \<Rightarrow> string \<Rightarrow> string \<Rightarrow> string list \<Rightarrow> string list option" where
  "CommandArgs c taskID command cmdArgs =
     (case ToArgs c taskID of None \<Rightarrow> None | Some args \<Rightarrow> Some (args @ [''--'', command] @ cmdArgs))"

definition interpreterToPath :: "string \<Rightarrow> string result" where
  "interpreterToPath i =
     (if i = ''bash'' then Inr ''/bin/bash''
      else if i = ''sh'' then Inr ''/bin/sh''
      else if i = ''python3'' then Inr ''/usr/bin/python3''
      else if i = ''python'' then Inr ''/usr/bin/python3''
      else if i = ''ruby'' then Inr ''/usr/bin/ruby''
      else if i = ''node'' then Inr ''/usr/bin/node''
      else if i = ''perl'' then Inr ''/usr/bin/perl''
      else Inl ''unsupported interpreter %q'')"

definition ScriptArgs :: "NsjailConfig \<Rightarrow> string \<Rightarrow> string \<Rightarrow> string \<Rightarrow> string list result" where
  "ScriptArgs c taskID interpreter scriptPath =
     (case sanitizeTaskID taskID of Inl e \<Rightarrow> Inl e
      | Inr tid \<Rightarrow> (case interpreterToPath interpreter of Inl e \<Rightarrow> Inl e
         | Inr interpPath \<Rightarrow> Inr ((case ToArgs c tid of None \<Rightarrow> [] | Some args \<Rightarrow> args) @ [''--'', interpPath, scriptPath])))"

subsection \<open>output_streamer.go\<close>

text \<open>\<open>os_sent\<close> is what the sender callback has received so far, one element per call.\<close>

record OutputStreamer =
  os_flushSize :: int
  os_buf :: string
  os_sent :: "string list"

definition NewOutputStreamer :: "int \<Rightarrow> OutputStreamer" where
  "NewOutputStreamer flushSize = \<lparr>os_flushSize = flushSize, os_buf = [], os_sent = []\<rparr>"

definition Flush :: "OutputStreamer \<Rightarrow> OutputStreamer" where
  "Flush s = s\<lparr>os_buf := [], os_sent := os_sent s @ (if os_buf s \<noteq> [] then [os_buf s] else [])\<rparr>"

text \<open>A write is two critical sections; \<open>Write_append\<close> is the first and tells whether to flush.\<close>

definition Write_append :: "string \<Rightarrow> OutputStreamer \<Rightarrow> bool \<times> OutputStreamer" where
  "Write_append data s =
     (let s' = s\<lparr>os_buf := os_buf s @ data\<rparr> in (int (length (os_buf s')) \<ge> os_flushSize s, s'))"

definition os_Write :: "string \<Rightarrow> OutputStreamer \<Rightarrow> OutputStreamer" where
  "os_Write data s = (case Write_append data s of (shouldFlush, s') \<Rightarrow> if shouldFlush then Flush s' else s')"

text \<open>The critical sections of the writer, the ticker and Stop, in the order they happen.\<close>

datatype os_section = AppendSection string | FlushSection

fun os_run :: "os_section list \<Rightarrow> OutputStreamer \<Rightarrow> OutputStreamer" where
  "os_run [] s = s"
| "os_run (AppendSection d # xs) s = os_run xs (snd (Write_append d s))"
| "os_run (FlushSection # xs) s = os_run xs (Flush s)"

definition os_Stop :: "OutputStreamer \<Rightarrow> OutputStreamer" where
  "os_Stop s = Flush s"

subsection \<open>executor.go\<close>

record SbxConfig =
  sc_NsjailPath :: string
  sc_WorkDir :: string
  sc_CgroupBase :: string
  sc_MemoryMB :: int
  sc_CPUPercent :: int
  sc_MaxPIDs :: int
  sc_TimeoutSec :: int
  sc_MaxTimeoutSec :: int
  sc_MaxOutputKB :: int
  sc_NetworkMode :: string
  sc_Policy :: Policy
  sc_MaxConcurrentTasks :: int

record SandboxOverride =
  ov_MemoryMB :: int
  ov_CPUPercent :: int
  ov_MaxPIDs :: int
  ov_NetworkMode :: string
  ov_AllowedIPs :: "string list"
  ov_MaxOutputKB :: int

record ExecRequest =
  rq_TaskID :: string
  rq_Command :: string
  rq_Args :: "string list"
  rq_Script :: string
  rq_Interpreter :: string
  rq_Env :: "string gomap"
  rq_Timeout :: duration
  rq_SandboxCfg :: "SandboxOverride option"

record ExecResult =
  er_TaskID :: string
  er_ExitCode :: int
  er_TimedOut :: bool
  er_Truncated :: bool
  er_Killed :: bool

text \<open>The defaults NewExecutor fills in; the second component is the capacity of the semaphore.\<close>

definition NewExecutor :: "SbxConfig \<Rightarrow> SbxConfig \<times> int" where
  "NewExecutor cfg0 =
     (let c1 = (if sc_NsjailPath cfg0 = [] then cfg0\<lparr>sc_NsjailPath := ''nsjail''\<rparr> else cfg0);
          c2 = (if sc_WorkDir c1 = [] then c1\<lparr>sc_WorkDir := ''/work''\<rparr> else c1);
          c3 = (if sc_MemoryMB c2 \<le> 0 then c2\<lparr>sc_MemoryMB := 128\<rparr> else c2);
          c4 = (if sc_CPUPercent c3 \<le> 0 then c3\<lparr>sc_CPUPercent := 50\<rparr> else c3);
          c5 = (if sc_MaxPIDs c4 \<le> 0 then c4\<lparr>sc_MaxPIDs := 32\<rparr> else c4);
          c6 = (if sc_TimeoutSec c5 \<le> 0 then c5\<lparr>sc_TimeoutSec := 30\<rparr> else c5);
          c7 = (if sc_MaxTimeoutSec c6 \<le> 0 then c6\<lparr>sc_MaxTimeoutSec := wrap64 (sc_TimeoutSec c6 * 10)\<rparr> else c6);
          c8 = (if sc_MaxOutputKB c7 \<le> 0 then c7\<lparr>sc_MaxOutputKB := 512\<rparr> else c7);
          c9 = (if sc_NetworkMode c8 = [] then c8\<lparr>sc_NetworkMode := ''disabled''\<rparr> else c8)
      in (c9, if sc_MaxConcurrentTasks c9 \<le> 0 then 4 else sc_MaxConcurrentTasks c9))"

definition override_limit :: "int \<Rightarrow> int \<Rightarrow> int \<Rightarrow> int" where
  "override_limit base req cap = (if req > 0 then min req cap else base)"

definition buildNsjailConfig :: "SbxConfig \<Rightarrow> ExecRequest \<Rightarrow> NsjailConfig" where
  "buildNsjailConfig cfg req =
     (let base = \<lparr>ns_TimeLimit = (if sc_TimeoutSec cfg > sc_MaxTimeoutSec cfg then sc_MaxTimeoutSec cfg else sc_TimeoutSec cfg),
                  ns_MemoryMB = sc_MemoryMB cfg, ns_CPUPercent = sc_CPUPercent cfg, ns_MaxPIDs = sc_MaxPIDs cfg,
                  ns_MaxFileSize = 0, ns_NetworkMode = sc_NetworkMode cfg, ns_AllowedIPs = [],
                  ns_WorkDir = sc_WorkDir cfg\<rparr> in
      case rq_SandboxCfg req of
        None \<Rightarrow> base
      | Some ov \<Rightarrow>
          base\<lparr>ns_MemoryMB := override_limit (ns_MemoryMB base) (ov_MemoryMB ov) 1024,
               ns_CPUPercent := override_limit (ns_CPUPercent base) (ov_CPUPercent ov) 100,
               ns_MaxPIDs := override_limit (ns_MaxPIDs base) (ov_MaxPIDs ov) 256,
               ns_NetworkMode := (if ov_NetworkMode ov \<noteq> [] then ov_NetworkMode ov else ns_NetworkMode base),
               ns_AllowedIPs := (if ov_AllowedIPs ov \<noteq> [] then ov_AllowedIPs ov else ns_AllowedIPs base)\<rparr>)"

definition sandboxAllowedEnvVars :: "string list" where
  "sandboxAllowedEnvVars = [''PATH'', ''HOME'', ''LANG'', ''TERM'', ''USER'', ''SHELL'', ''HOSTNAME'', ''TMPDIR'']"

definition buildSandboxEnv :: "string gomap \<Rightarrow> string list" where
  "buildSandboxEnv reqEnv =
     [''PATH=/usr/local/sbin:/usr/local/bin:/usr/sbin:/usr/bin:/sbin:/bin'', ''HOME=/tmp'', ''LANG=C'']
     @ map (\<lambda>(k, v). k @ ''='' @ v) (filter (\<lambda>(k, v). k \<in> set sandboxAllowedEnvVars) reqEnv)"

text \<open>
  What the system did: the error of the context if it ended before a slot of the semaphore was free,
  whether the cgroup was created and its limits set, the output the process wrote (one element per
  write), how it ended, and whether the deadline had passed by then.
\<close>

datatype exit_state = ExitOK | ExitErr int | OtherErr

record sys_outcome =
  sys_ctx_err :: err
  sys_cgroup_err :: err
  sys_limits_err :: err
  sys_stdout :: "string list"
  sys_stderr :: "string list"
  sys_exit :: exit_state
  sys_deadline :: bool

text \<open>
  The invocation of nsjail: the program, its arguments, its environment, the time limit, and the
  addresses for which the allowlist network was set up before it (a failure of that is only logged).
\<close>

record invocation =
  iv_path :: string
  iv_args :: "string list"
  iv_env :: "string list"
  iv_timeout :: duration
  iv_network :: "string list option"

definition run_network :: "ExecRequest \<Rightarrow> NsjailConfig \<Rightarrow> string list option" where
  "run_network req nsCfg =
     (case rq_SandboxCfg req of
        None \<Rightarrow> None
      | Some ov \<Rightarrow> if ns_NetworkMode nsCfg = ''allowlist'' \<and> ov_AllowedIPs ov \<noteq> [] then Some (ov_AllowedIPs ov) else None)"

definition run_timeout :: "SbxConfig \<Rightarrow> ExecRequest \<Rightarrow> duration" where
  "run_timeout cfg req =
     (let timeout = (if rq_Timeout req \<le> 0 then wrap64 (sc_TimeoutSec cfg * Second) else rq_Timeout req);
          maxTimeout = wrap64 (sc_MaxTimeoutSec cfg * Second)
      in if timeout > maxTimeout then maxTimeout else timeout)"

definition maxOutputBytes :: "SbxConfig \<Rightarrow> ExecRequest \<Rightarrow> int" where
  "maxOutputBytes cfg req =
     (case rq_SandboxCfg req of
        Some ov \<Rightarrow> if ov_MaxOutputKB ov > 0 then wrap64 (ov_MaxOutputKB ov * 1024) else wrap64 (sc_MaxOutputKB cfg * 1024)
      | None \<Rightarrow> wrap64 (sc_MaxOutputKB cfg * 1024))"

definition stream :: "int \<Rightarrow> string list \<Rightarrow> string list" where
  "stream flushSize writes = os_sent (os_Stop (fold os_Write writes (NewOutputStreamer flushSize)))"

text \<open>
  \<open>run\<close>: the result carries the invocation, the chunks the output sender received and the
  \<open>ExecResult\<close>. The statistics of the cgroup and the audit record of the run are left out.
\<close>

definition sbx_run :: "SbxConfig \<Rightarrow> ExecRequest \<Rightarrow> NsjailConfig \<Rightarrow> string list \<Rightarrow> sys_outcome
    \<Rightarrow> (invocation \<times> string list \<times> ExecResult) result" where
  "sbx_run cfg req nsCfg nsjailArgs sys =
    (case sys_ctx_err sys of Some e \<Rightarrow> Inl e | None \<Rightarrow>
     (let cg = sc_CgroupBase cfg \<noteq> [] in
      case (if cg then (case sanitizeTaskID (rq_TaskID req) of Inl e \<Rightarrow> Some e | Inr _ \<Rightarrow> sys_cgroup_err sys) else None) of
        Some e \<Rightarrow> Inl (''create cgroup: '' @ e)
      | None \<Rightarrow>
         (case (if cg then sys_limits_err sys else None) of
            Some e \<Rightarrow> Inl (''set cgroup limits: '' @ e)
          | None \<Rightarrow>
             (let flushSize = quot64 (maxOutputBytes cfg req) 2;
                  out = stream flushSize (sys_stdout sys);
                  errs = stream flushSize (sys_stderr sys);
                  timedOut = (sys_exit sys \<noteq> ExitOK \<and> sys_deadline sys)
              in Inr (\<lparr>iv_path = sc_NsjailPath cfg, iv_args = nsjailArgs, iv_env = buildSandboxEnv (rq_Env req),
                       iv_timeout = run_timeout cfg req, iv_network = run_network req nsCfg\<rparr>,
                      out,
                      \<lparr>er_TaskID = rq_TaskID req,
                       er_ExitCode = (if timedOut then - 1
                                      else case sys_exit sys of ExitOK \<Rightarrow> 0 | ExitErr n \<Rightarrow> n | OtherErr \<Rightarrow> - 1),
                       er_TimedOut = timedOut,
                       er_Truncated = (int (length (concat out)) \<ge> flushSize \<or> int (length (concat errs)) \<ge> flushSize),
                       er_Killed = timedOut\<rparr>)))))"

text \<open>A nil argument list is passed on to \<open>run\<close> as it is.\<close>

definition ExecuteCommand :: "SbxConfig \<Rightarrow> ExecRequest \<Rightarrow> sys_outcome \<Rightarrow> (invocation \<times> string list \<times> ExecResult) result" where
  "ExecuteCommand cfg req sys =
     (case ValidateCommand (sc_Policy cfg) (rq_Command req) (rq_Args req) of
        Some e \<Rightarrow> Inl (''policy validation failed: '' @ e)
      | None \<Rightarrow>
         (let nsCfg = buildNsjailConfig cfg req;
              args = (case CommandArgs nsCfg (rq_TaskID req) (rq_Command req) (rq_Args req) of None \<Rightarrow> [] | Some a \<Rightarrow> a)
          in sbx_run cfg req nsCfg args sys))"

text \<open>\<open>tmp\<close> is the path of the temporary script file, or the error of writing it.\<close>

definition ExecuteScript :: "SbxConfig \<Rightarrow> ExecRequest \<Rightarrow> string result \<Rightarrow> sys_outcome \<Rightarrow> (invocation \<times> string list \<times> ExecResult) result" where
  "ExecuteScript cfg req tmp sys =
     (case ValidateScript (sc_Policy cfg) (rq_Interpreter req) (rq_Script req) of
        Some e \<Rightarrow> Inl (''policy validation failed: '' @ e)
      | None \<Rightarrow>
         (let nsCfg = buildNsjailConfig cfg req in
          case (case sanitizeTaskID (rq_TaskID req) of Inl e \<Rightarrow> Inl e | Inr _ \<Rightarrow> tmp) of
            Inl e \<Rightarrow> Inl (''write script: '' @ e)
          | Inr scriptPath \<Rightarrow>
             (case ScriptArgs nsCfg (rq_TaskID req) (rq_Interpreter req) scriptPath of
                Inl e \<Rightarrow> Inl (''script args: '' @ e)
              | Inr args \<Rightarrow> sbx_run cfg req nsCfg args sys)))"

subsection \<open>Lemmas on the policy\<close>






lemma path_Clean_nonempty: "path_Clean p \<noteq> []"
  by (simp add: path_Clean_def Let_def)

lemma three_guards:
  "(if a then Inl x else if b then Inl y else if c then Inl z else Inr w) = Inr v \<longleftrightarrow> \<not> a \<and> \<not> b \<and> \<not> c \<and> w = v"
  by simp

lemma sanitizeTaskID_Inr:
  "sanitizeTaskID t = Inr tid \<longleftrightarrow> t \<noteq> [] \<and> tid = path_Clean t \<and> tid \<noteq> ''.'' \<and> tid \<noteq> ''..''
     \<and> \<not> ContainsAny tid [CHR 0x2F, CHR 0x5C] \<and> \<not> ContainsAny tid [CHR 0x00]"
  unfolding sanitizeTaskID_def Let_def three_guards by blast

subsection \<open>Lemmas on streaming\<close>

lemma Flush_concat: "concat (os_sent (Flush s)) = concat (os_sent s) @ os_buf s" "os_buf (Flush s) = []"
  by (auto simp: Flush_def)

fun appended :: "os_section list \<Rightarrow> string" where
  "appended [] = []"
| "appended (AppendSection d # xs) = d @ appended xs"
| "appended (FlushSection # xs) = appended xs"

lemma os_run_concat: "concat (os_sent (os_run xs s)) @ os_buf (os_run xs s) = concat (os_sent s) @ os_buf s @ appended xs"
  by (induction xs s rule: os_run.induct) (auto simp: Write_append_def Let_def Flush_concat)

lemma fold_Write_concat:
  "concat (os_sent (fold os_Write ws s)) @ os_buf (fold os_Write ws s) = concat (os_sent s) @ os_buf s @ concat ws"
proof (induction ws arbitrary: s)
  case (Cons w ws)
  have "concat (os_sent (os_Write w s)) @ os_buf (os_Write w s) = concat (os_sent s) @ os_buf s @ w"
    by (simp add: os_Write_def Write_append_def Let_def Flush_concat)
  with Cons.IH [of "os_Write w s"] show ?case by (simp flip: append_assoc)
qed simp

lemma stream_concat: "concat (stream n ws) = concat ws"
  using fold_Write_concat [of ws "NewOutputStreamer n"]
  by (simp add: stream_def os_Stop_def Flush_concat NewOutputStreamer_def)

subsection \<open>Properties\<close>

lemma ExecuteCommand_valid:
  assumes "ExecuteCommand cfg req sys = Inr (iv, out, res)"
  shows "ValidateCommand (sc_Policy cfg) (rq_Command req) (rq_Args req) = None"
    and "iv_args iv = (case CommandArgs (buildNsjailConfig cfg req) (rq_TaskID req) (rq_Command req) (rq_Args req) of
           None \<Rightarrow> [] | Some a \<Rightarrow> a)"
  using assms by (auto simp: ExecuteCommand_def sbx_run_def Let_def split: option.splits if_splits sum.splits)


definition ls_policy :: Policy where
  "ls_policy = \<lparr>p_AllowedCommands = [''ls''], p_BlockedCommands = [''rm''], p_BlockedKeywords = [''Shutdown''],
     p_AllowedInterpreters = [''bash''], p_MaxScriptBytes = 100, p_AllowSudo = False, p_AllowNetwork = False\<rparr>"

definition ls_cfg :: SbxConfig where
  "ls_cfg = \<lparr>sc_NsjailPath = [], sc_WorkDir = [], sc_CgroupBase = [], sc_MemoryMB = 0, sc_CPUPercent = 0, sc_MaxPIDs = 0,
     sc_TimeoutSec = 0, sc_MaxTimeoutSec = 0, sc_MaxOutputKB = 0, sc_NetworkMode = [], sc_Policy = ls_policy,
     sc_MaxConcurrentTasks = 0\<rparr>"

definition ls_req :: "string \<Rightarrow> SandboxOverride option \<Rightarrow> ExecRequest" where
  "ls_req tid ov = \<lparr>rq_TaskID = tid, rq_Command = ''ls'', rq_Args = [''-l''], rq_Script = ''echo hi'', rq_Interpreter = ''bash'',
     rq_Env = [(''LANG'', ''de''), (''LD_PRELOAD'', ''x'')], rq_Timeout = 0, rq_SandboxCfg = ov\<rparr>"

definition sys_fine :: sys_outcome where
  "sys_fine = \<lparr>sys_ctx_err = None, sys_cgroup_err = None, sys_limits_err = None, sys_stdout = [''hello''], sys_stderr = [], sys_exit = ExitOK,
     sys_deadline = False\<rparr>"

lemma ls_trim: "TrimSpace ''ls'' = ''ls''" "TrimSpace ''rm'' = ''rm''" "TrimSpace ''bash'' = ''bash''"
  by code_simp+

lemma ls_valid: "ValidateCommand ls_policy ''ls'' [''-l''] = None"
  by (simp add: ValidateCommand_def ls_policy_def ls_trim toSet_def containsShellMetacharacters_def shellMetachars_def HasPrefix_def)

lemma ls_runs: "\<exists>iv out res. ExecuteCommand (fst (NewExecutor ls_cfg)) (ls_req tid ov) sys_fine = Inr (iv, out, res)"
  by (simp add: ExecuteCommand_def NewExecutor_def ls_cfg_def ls_req_def ls_valid sbx_run_def Let_def sys_fine_def)


lemma ToLower_append [simp]: "ToLower (a @ b) = ToLower a @ ToLower b"
  by (simp add: ToLower_def)

text \<open>A script that is run has a known and allowed interpreter and at most the configured size, and no
  part of it is a blocked keyword in any mix of upper and lower case letters.\<close>

theorem script_policy_enforced:
  assumes "ExecuteScript cfg req tmp sys = Inr (iv, out, res)"
  defines "p \<equiv> sc_Policy cfg"
  shows "(p_AllowedInterpreters p \<noteq> [] \<longrightarrow> rq_Interpreter req \<in> set (toSet (p_AllowedInterpreters p)))
    \<and> (\<exists>path. interpreterToPath (rq_Interpreter req) = Inr path \<and> path \<in> set (iv_args iv))
    \<and> int (length (rq_Script req)) \<le> (if p_MaxScriptBytes p \<le> 0 then 1048576 else p_MaxScriptBytes p)
    \<and> (\<forall>kw \<in> set (p_BlockedKeywords p). \<forall>a m b. rq_Script req = a @ m @ b \<longrightarrow> ToLower m \<noteq> ToLower kw)"
proof -
  have v: "ValidateScript p (rq_Interpreter req) (rq_Script req) = None"
    using assms(1) by (auto simp: ExecuteScript_def p_def split: option.splits)
  have path: "\<exists>path. interpreterToPath (rq_Interpreter req) = Inr path \<and> path \<in> set (iv_args iv)"
    using assms(1) by (auto simp: ExecuteScript_def ScriptArgs_def sbx_run_def Let_def split: option.splits sum.splits if_splits)
  have kws: "\<forall>kw \<in> set (p_BlockedKeywords p). \<not> Contains (ToLower (rq_Script req)) (ToLower kw)"
    using v unfolding ValidateScript_def Let_def by auto
  have "ToLower m \<noteq> ToLower kw" if "kw \<in> set (p_BlockedKeywords p)" "rq_Script req = a @ m @ b" for kw a m b
  proof
    assume "ToLower m = ToLower kw"
    then have "Contains (ToLower (rq_Script req)) (ToLower kw)" using that(2) by (auto simp: Contains_iff)
    with kws that(1) show False by blast
  qed
  with v path show ?thesis unfolding ValidateScript_def Let_def by (auto split: if_splits)
qed

lemma t1_ok: "sanitizeTaskID ''t1'' = Inr ''t1''"
  by code_simp

theorem script_policy_enforced_witness:
  "\<exists>iv out res. ExecuteScript (fst (NewExecutor ls_cfg)) (ls_req ''t1'' None) (Inr ''/tmp/s.sh'') sys_fine = Inr (iv, out, res)
     \<and> (\<exists>path. interpreterToPath ''bash'' = Inr path \<and> path \<in> set (iv_args iv))"
proof -
  have "ValidateScript ls_policy ''bash'' ''echo hi'' = None"
    by (simp add: ValidateScript_def ls_policy_def ls_trim toSet_def) code_simp
  then obtain iv out res where run:
    "ExecuteScript (fst (NewExecutor ls_cfg)) (ls_req ''t1'' None) (Inr ''/tmp/s.sh'') sys_fine = Inr (iv, out, res)"
    by (simp add: ExecuteScript_def NewExecutor_def ls_cfg_def ls_req_def t1_ok ScriptArgs_def interpreterToPath_def sbx_run_def Let_def sys_fine_def)
  from script_policy_enforced [OF run] run show ?thesis by (auto simp: ls_req_def)
qed

text \<open>C33: Whatever order the writes, the periodic flushes and the final flush of Stop interleave in, the
  receiver gets every byte exactly once and in the order written, and every chunk is non-empty.\<close>

theorem streaming_lossless:
  "concat (os_sent (os_Stop (os_run xs (NewOutputStreamer n)))) = appended xs
   \<and> [] \<notin> set (os_sent (os_Stop (os_run xs (NewOutputStreamer n))))"
proof -
  have "[] \<notin> set (os_sent s) \<Longrightarrow> [] \<notin> set (os_sent (os_run xs s))" for s
    by (induction xs s rule: os_run.induct) (auto simp: Write_append_def Let_def Flush_def)
  then have "[] \<notin> set (os_sent (os_Stop (os_run xs (NewOutputStreamer n))))"
    by (auto simp: os_Stop_def Flush_def NewOutputStreamer_def)
  then show ?thesis
    using os_run_concat [of xs "NewOutputStreamer n"]
    by (simp add: os_Stop_def Flush_concat NewOutputStreamer_def)
qed

text \<open>The output limit does not limit the output: whatever the limit, the receiver of a run gets all
  of standard output, also when the result is marked as truncated.\<close>

theorem output_never_truncated:
  assumes "sbx_run cfg req nsCfg args sys = Inr (iv, out, res)"
  shows "concat out = concat (sys_stdout sys)
    \<and> (er_Truncated res \<longleftrightarrow> int (length (concat (sys_stdout sys))) \<ge> quot64 (maxOutputBytes cfg req) 2
         \<or> int (length (concat (sys_stderr sys))) \<ge> quot64 (maxOutputBytes cfg req) 2)"
  using assms by (auto simp: sbx_run_def Let_def stream_concat split: option.splits if_splits sum.splits)

theorem output_never_truncated_witness:
  "\<exists>iv out res. sbx_run ls_cfg (ls_req ''t1'' None) (buildNsjailConfig ls_cfg (ls_req ''t1'' None)) [] sys_fine = Inr (iv, out, res)
     \<and> concat out = ''hello'' \<and> er_Truncated res"
proof -
  obtain iv out res where run:
    "sbx_run ls_cfg (ls_req ''t1'' None) (buildNsjailConfig ls_cfg (ls_req ''t1'' None)) [] sys_fine = Inr (iv, out, res)"
    by (simp add: sbx_run_def ls_cfg_def Let_def sys_fine_def)
  from output_never_truncated [OF run] run show ?thesis
    by (simp add: sys_fine_def maxOutputBytes_def ls_req_def ls_cfg_def wrap64_def quot64_def)
qed

lemma sandbox_env_allowed:
  "\<forall>x \<in> set (buildSandboxEnv env). \<exists>k \<in> set sandboxAllowedEnvVars. \<exists>v. x = k @ ''='' @ v"
proof
  fix x assume "x \<in> set (buildSandboxEnv env)"
  then consider "x = ''PATH'' @ ''='' @ ''/usr/local/sbin:/usr/local/bin:/usr/sbin:/usr/bin:/sbin:/bin''"
    | "x = ''HOME'' @ ''='' @ ''/tmp''" | "x = ''LANG'' @ ''='' @ ''C''"
    | k v where "x = k @ ''='' @ v" "k \<in> set sandboxAllowedEnvVars"
    by (auto simp: buildSandboxEnv_def)
  moreover have "''PATH'' \<in> set sandboxAllowedEnvVars" "''HOME'' \<in> set sandboxAllowedEnvVars" "''LANG'' \<in> set sandboxAllowedEnvVars"
    by (simp_all add: sandboxAllowedEnvVars_def)
  ultimately show "\<exists>k \<in> set sandboxAllowedEnvVars. \<exists>v. x = k @ ''='' @ v"
    by cases blast+
qed

lemma NewExecutor_pos:
  "0 < sc_MemoryMB (fst (NewExecutor c))" "0 < sc_CPUPercent (fst (NewExecutor c))"
  "0 < sc_MaxPIDs (fst (NewExecutor c))" "0 < sc_TimeoutSec (fst (NewExecutor c))" "0 < snd (NewExecutor c)"
  by (simp_all add: NewExecutor_def Let_def)

text \<open>Every variable in the environment of the sandboxed process is on the allow list whatever the
  request asks for, and the run gets a positive time limit that is at most the configured maximum, as long as the
  configured seconds fit in a 64-bit duration.\<close>

theorem sandbox_env_and_timeout:
  assumes "ExecuteCommand (fst (NewExecutor c)) req sys = Inr (iv, out, res)"
    and "sc_TimeoutSec (fst (NewExecutor c)) \<le> 10 ^ 9" "0 < sc_MaxTimeoutSec (fst (NewExecutor c))"
        "sc_MaxTimeoutSec (fst (NewExecutor c)) \<le> 10 ^ 9"
  shows "(\<forall>x \<in> set (iv_env iv). \<exists>k \<in> set sandboxAllowedEnvVars. \<exists>v. x = k @ ''='' @ v)
    \<and> 0 < iv_timeout iv \<and> iv_timeout iv \<le> sc_MaxTimeoutSec (fst (NewExecutor c)) * Second"
proof -
  let ?c = "fst (NewExecutor c)"
  have iv: "iv_env iv = buildSandboxEnv (rq_Env req)" "iv_timeout iv = run_timeout ?c req"
    using assms(1) by (auto simp: ExecuteCommand_def sbx_run_def Let_def split: option.splits if_splits sum.splits)
  have "wrap64 (sc_TimeoutSec ?c * Second) = sc_TimeoutSec ?c * Second"
      "wrap64 (sc_MaxTimeoutSec ?c * Second) = sc_MaxTimeoutSec ?c * Second"
    using assms NewExecutor_pos(4) [of c] by (simp_all add: wrap64_def Second_def)
  then have "0 < run_timeout ?c req \<and> run_timeout ?c req \<le> sc_MaxTimeoutSec ?c * Second"
    using assms(3) NewExecutor_pos(4) [of c] by (auto simp: run_timeout_def Let_def Second_def)
  with iv sandbox_env_allowed show ?thesis by simp
qed

theorem sandbox_env_and_timeout_witness:
  "\<exists>iv out res. ExecuteCommand (fst (NewExecutor ls_cfg)) (ls_req ''t1'' None) sys_fine = Inr (iv, out, res)
     \<and> (\<forall>x \<in> set (iv_env iv). \<exists>k \<in> set sandboxAllowedEnvVars. \<exists>v. x = k @ ''='' @ v)
     \<and> 0 < iv_timeout iv \<and> iv_timeout iv \<le> 300 * Second"
proof -
  obtain iv out res where run: "ExecuteCommand (fst (NewExecutor ls_cfg)) (ls_req ''t1'' None) sys_fine = Inr (iv, out, res)"
    using ls_runs by blast
  have "sc_TimeoutSec (fst (NewExecutor ls_cfg)) = 30" "sc_MaxTimeoutSec (fst (NewExecutor ls_cfg)) = 300"
    by (simp_all add: NewExecutor_def ls_cfg_def Let_def wrap64_def)
  with sandbox_env_and_timeout [OF run] run show ?thesis by simp
qed



abbreviation big_override :: SandboxOverride where
  "big_override \<equiv> \<lparr>ov_MemoryMB = 999999, ov_CPUPercent = 900, ov_MaxPIDs = 9999, ov_NetworkMode = ''allowlist'',
     ov_AllowedIPs = [], ov_MaxOutputKB = 0\<rparr>"


text \<open>Asking for the allowlist network without naming an address is meant to fall back to no network,
  but the command line is built before the fallback: the command runs with the option that keeps it in
  the network namespace of the host and with the network system calls allowed.\<close>

theorem allowlist_fallback_keeps_network:
  assumes "ExecuteCommand cfg req sys = Inr (iv, out, res)" "sanitizeTaskID (rq_TaskID req) = Inr tid"
    and "rq_SandboxCfg req = Some ov" "ov_NetworkMode ov = ''allowlist''" "ov_AllowedIPs ov = []"
  shows "''--disable_clone_newnet'' \<in> set (iv_args iv)
    \<and> ''--seccomp_policy_string='' @ take (length baseSyscalls - 1) baseSyscalls @ networkSyscalls @ nl @ ''}'' \<in> set (iv_args iv)"
proof -
  have mode: "ns_NetworkMode (buildNsjailConfig cfg req) = ''allowlist''"
    using assms(3,4) by (simp add: buildNsjailConfig_def Let_def)
  then show ?thesis
    using ExecuteCommand_valid(2) [OF assms(1)] assms(2)
    by (simp add: CommandArgs_def ToArgs_def seccompPolicyString_def)
qed

theorem allowlist_fallback_keeps_network_witness:
  "\<exists>iv out res. ExecuteCommand (fst (NewExecutor ls_cfg)) (ls_req ''t1'' (Some big_override)) sys_fine = Inr (iv, out, res)
     \<and> ''--disable_clone_newnet'' \<in> set (iv_args iv)"
proof -
  obtain iv out res where run:
      "ExecuteCommand (fst (NewExecutor ls_cfg)) (ls_req ''t1'' (Some big_override)) sys_fine = Inr (iv, out, res)"
    using ls_runs by blast
  from allowlist_fallback_keeps_network [OF run] run show ?thesis by (simp add: ls_req_def t1_ok)
qed

text \<open>A command with an invalid task ID is not rejected when cgroups are off: nsjail is started with no
  arguments at all, and the run is reported like any other.\<close>

theorem invalid_task_id_runs_bare_nsjail:
  assumes "sanitizeTaskID (rq_TaskID req) = Inl e" "sc_CgroupBase cfg = []"
    and "ValidateCommand (sc_Policy cfg) (rq_Command req) (rq_Args req) = None" "sys_ctx_err sys = None"
  shows "\<exists>iv out res. ExecuteCommand cfg req sys = Inr (iv, out, res) \<and> iv_path iv = sc_NsjailPath cfg \<and> iv_args iv = []"
  using assms by (simp add: ExecuteCommand_def sbx_run_def Let_def CommandArgs_def ToArgs_def)

theorem invalid_task_id_runs_bare_nsjail_witness:
  "\<exists>iv out res. ExecuteCommand (fst (NewExecutor ls_cfg)) (ls_req ''../x'' None) sys_fine = Inr (iv, out, res)
     \<and> iv_path iv = ''nsjail'' \<and> iv_args iv = []"
proof -
  have "isl (sanitizeTaskID ''../x'')" by code_simp
  then obtain e where e: "sanitizeTaskID ''../x'' = Inl e" by (auto simp: isl_def)
  have p: "sc_NsjailPath (fst (NewExecutor ls_cfg)) = ''nsjail''" "sc_CgroupBase (fst (NewExecutor ls_cfg)) = []"
      "sc_Policy (fst (NewExecutor ls_cfg)) = ls_policy"
    by (simp_all add: NewExecutor_def ls_cfg_def Let_def)
  show ?thesis
    using invalid_task_id_runs_bare_nsjail [of "ls_req ''../x'' None" e "fst (NewExecutor ls_cfg)" sys_fine] e p ls_valid
    by (simp add: ls_req_def sys_fine_def)
qed

text \<open>The identifiers in a policy text.\<close>

definition ident_char :: "char \<Rightarrow> bool" where
  "ident_char c = (let n = of_char c :: nat in (97 \<le> n \<and> n \<le> 122) \<or> (48 \<le> n \<and> n \<le> 57) \<or> n = 95)"

fun idents :: "string \<Rightarrow> string \<Rightarrow> string list" where
  "idents w [] = (if w = [] then [] else [rev w])"
| "idents w (c # cs) = (if ident_char c then idents (c # w) cs
                        else (if w = [] then idents [] cs else rev w # idents [] cs))"

lemma syscalls_plain:
  "list_all (\<lambda>w. w \<notin> set (idents [] baseSyscalls)) [''clone'', ''fork'', ''vfork'', ''socket'', ''connect'', ''bind'']"
  by code_simp

lemma syscalls_network:
  "list_all (\<lambda>w. w \<notin> set (idents [] (take (length baseSyscalls - 1) baseSyscalls @ networkSyscalls @ nl @ ''}'')))
     [''clone'', ''fork'', ''vfork'']"
  by code_simp

text \<open>No seccomp policy lets a sandboxed process create another one with clone, fork or vfork, and
  without the allowlist network mode none lets it open a socket.\<close>

theorem seccomp_excludes:
  "set [''clone'', ''fork'', ''vfork''] \<inter> set (idents [] (seccompPolicyString c)) = {}
   \<and> (ns_NetworkMode c \<noteq> ''allowlist'' \<longrightarrow> set [''socket'', ''connect'', ''bind''] \<inter> set (idents [] (seccompPolicyString c)) = {})"
  using syscalls_plain syscalls_network by (auto simp: seccompPolicyString_def)

theorem seccomp_excludes_witness:
  "set [''socket'', ''connect'', ''bind''] \<inter> set (idents [] (seccompPolicyString (buildNsjailConfig (fst (NewExecutor ls_cfg)) (ls_req ''t1'' None)))) = {}"
  using seccomp_excludes [of "buildNsjailConfig (fst (NewExecutor ls_cfg)) (ls_req ''t1'' None)"]
  by (simp add: buildNsjailConfig_def NewExecutor_def ls_cfg_def ls_req_def Let_def)

end
