(* ===== verification/Grpc_Client.thy ===== *)
theory Grpc_Client
imports Metrics Interfaces
begin

text \<open>
  The client of the platform (\<open>internal/grpcclient\<close>): the ring buffer of metrics that could not be
  sent (\<open>cache.go\<close>), sending, replaying and flushing it and the connection loop (\<open>client.go\<close>), and
  the file it is persisted to (\<open>persist.go\<close>). The ring buffer is a \<open>bounded_fifo\<close>.
\<close>

subsection \<open>cache.go\<close>

text \<open>A slot of the buffer is None while its pointer is nil.\<close>

record MetricCache =
  mc_buf :: "Metric option list"
  mc_maxSize :: nat
  mc_head :: nat
  mc_tail :: nat
  mc_count :: nat

definition NewMetricCache :: "int \<Rightarrow> MetricCache" where
  "NewMetricCache maxSize =
     (let n = (if maxSize \<le> 0 then 1 else nat maxSize)
      in \<lparr>mc_buf = replicate n None, mc_maxSize = n, mc_head = 0, mc_tail = 0, mc_count = 0\<rparr>)"

text \<open>None is the panic of an index out of range.\<close>

definition mc_Add :: "Metric \<Rightarrow> MetricCache \<Rightarrow> MetricCache option" where
  "mc_Add m c =
     (if mc_head c < length (mc_buf c) then
        (let c1 = c\<lparr>mc_buf := (mc_buf c)[mc_head c := Some m], mc_head := (mc_head c + 1) mod mc_maxSize c\<rparr>
         in Some (if mc_count c1 = mc_maxSize c1 then c1\<lparr>mc_tail := (mc_tail c1 + 1) mod mc_maxSize c1\<rparr>
                  else c1\<lparr>mc_count := mc_count c1 + 1\<rparr>))
      else None)"

fun drain_loop :: "nat list \<Rightarrow> nat \<Rightarrow> nat \<Rightarrow> Metric option list \<Rightarrow> Metric option list \<times> Metric option list" where
  "drain_loop [] tail n buf = ([], buf)"
| "drain_loop (i # is) tail n buf =
     (let idx = (tail + i) mod n; (rest, buf') = drain_loop is tail n (buf[idx := None]) in (buf ! idx # rest, buf'))"

definition mc_Drain :: "MetricCache \<Rightarrow> Metric option list \<times> MetricCache" where
  "mc_Drain c =
     (if mc_count c = 0 then ([], c)
      else case drain_loop [0..<mc_count c] (mc_tail c) (mc_maxSize c) (mc_buf c) of
             (res, buf) \<Rightarrow> (res, c\<lparr>mc_buf := buf, mc_head := 0, mc_tail := 0, mc_count := 0\<rparr>))"

definition mc_Len :: "MetricCache \<Rightarrow> nat" where
  "mc_Len c = mc_count c"

subsection \<open>The ring buffer is a bounded queue\<close>

definition mc_slot :: "MetricCache \<Rightarrow> nat \<Rightarrow> Metric option" where
  "mc_slot c i = mc_buf c ! ((mc_tail c + i) mod mc_maxSize c)"

definition mc_contents :: "MetricCache \<Rightarrow> Metric list" where
  "mc_contents c = map (\<lambda>i. the (mc_slot c i)) [0..<mc_count c]"

definition mc_ok :: "MetricCache \<Rightarrow> bool" where
  "mc_ok c \<longleftrightarrow> 0 < mc_maxSize c \<and> length (mc_buf c) = mc_maxSize c \<and> mc_tail c < mc_maxSize c
     \<and> mc_count c \<le> mc_maxSize c \<and> mc_head c = (mc_tail c + mc_count c) mod mc_maxSize c
     \<and> (\<forall>i < mc_count c. mc_slot c i \<noteq> None)"

lemma ring_index: "t < n \<Longrightarrow> i \<le> n \<Longrightarrow> (t + i) mod n = (if t + i < n then t + i else t + i - n)" for t n i :: nat
  by (auto simp: mod_if)

lemma ring_index_inj: "t < n \<Longrightarrow> i < n \<Longrightarrow> j < n \<Longrightarrow> (t + i) mod n = (t + j) mod n \<longleftrightarrow> i = j" for t n i j :: nat
  by (auto simp: ring_index split: if_splits)

lemma mc_ok_New [intro]: "mc_ok (NewMetricCache n)" "mc_contents (NewMetricCache n) = []"
    "mc_maxSize (NewMetricCache n) = nat (max n 1)"
  by (auto simp: mc_ok_def NewMetricCache_def mc_contents_def Let_def)

lemma mc_Add_room:
  assumes "mc_ok c" "mc_count c < mc_maxSize c"
  shows "\<exists>c'. mc_Add m c = Some c' \<and> mc_ok c' \<and> mc_maxSize c' = mc_maxSize c \<and> mc_contents c' = mc_contents c @ [m]"
proof -
  let ?n = "mc_maxSize c" and ?h = "mc_head c"
  let ?c = "c\<lparr>mc_buf := (mc_buf c)[?h := Some m], mc_head := (?h + 1) mod ?n, mc_count := mc_count c + 1\<rparr>"
  have h: "?h = (mc_tail c + mc_count c) mod ?n" "?h < length (mc_buf c)" using assms by (simp_all add: mc_ok_def)
  have slot: "mc_slot ?c i = (if i = mc_count c then Some m else mc_slot c i)" if "i \<le> mc_count c" for i
    using that assms h ring_index_inj [of "mc_tail c" ?n i "mc_count c"] by (auto simp: mc_slot_def mc_ok_def)
  have "mc_Add m c = Some ?c" using assms h by (simp add: mc_Add_def Let_def)
  moreover have "mc_ok ?c" using assms slot by (auto simp: mc_ok_def mod_Suc_eq)
  moreover have "mc_contents ?c = mc_contents c @ [m]" using slot by (auto simp: mc_contents_def)
  ultimately show ?thesis by auto
qed

lemma mc_Add_full:
  assumes "mc_ok c" "mc_count c = mc_maxSize c"
  shows "\<exists>c'. mc_Add m c = Some c' \<and> mc_ok c' \<and> mc_maxSize c' = mc_maxSize c \<and> mc_contents c' = tl (mc_contents c) @ [m]"
proof -
  let ?n = "mc_maxSize c" and ?t = "mc_tail c"
  let ?c = "c\<lparr>mc_buf := (mc_buf c)[?t := Some m], mc_head := (?t + 1) mod ?n, mc_tail := (?t + 1) mod ?n\<rparr>"
  have n: "0 < ?n" "?t < ?n" "mc_head c = ?t" "length (mc_buf c) = ?n" using assms by (simp_all add: mc_ok_def)
  have idx: "((?t + 1) mod ?n + i) mod ?n = (?t + Suc i) mod ?n" for i by (simp add: mod_simps)
  have slot: "mc_slot ?c i = (if Suc i = ?n then Some m else mc_slot c (Suc i))" if "i < ?n" for i
  proof (cases "Suc i = ?n")
    case True
    then have "(?t + Suc i) mod ?n = ?t" using n by simp
    with True n idx [of i] show ?thesis by (simp add: mc_slot_def)
  next
    case False
    with that n idx [of i] ring_index_inj [of ?t ?n "Suc i" 0] show ?thesis by (auto simp: mc_slot_def)
  qed
  have "mc_Add m c = Some ?c" using assms n by (simp add: mc_Add_def Let_def)
  moreover have "mc_ok ?c" using assms slot by (auto simp: mc_ok_def)
  moreover have "mc_contents ?c = tl (mc_contents c) @ [m]"
  proof (rule nth_equalityI)
    show "length (mc_contents ?c) = length (tl (mc_contents c) @ [m])" using assms n by (simp add: mc_contents_def)
    show "mc_contents ?c ! i = (tl (mc_contents c) @ [m]) ! i" if "i < length (mc_contents ?c)" for i
      using that assms slot [of i] by (auto simp: mc_contents_def nth_append nth_tl)
  qed
  ultimately show ?thesis by auto
qed

lemma mc_contents_length [simp]: "length (mc_contents c) = mc_count c"
  by (simp add: mc_contents_def)

interpretation cache: bounded_fifo mc_Add mc_contents mc_maxSize mc_ok
proof
  show "length (mc_contents q) \<le> mc_maxSize q" if "mc_ok q" for q using that by (simp add: mc_ok_def)
  show "\<exists>q'. mc_Add x q = Some q' \<and> mc_ok q' \<and> mc_maxSize q' = mc_maxSize q
      \<and> mc_contents q' = last_n (mc_maxSize q) (mc_contents q @ [x])" if "mc_ok q" for x q
  proof (cases "mc_count q = mc_maxSize q")
    case True
    moreover have "last_n (mc_maxSize q) (mc_contents q @ [x]) = tl (mc_contents q) @ [x]"
      using True that mc_contents_length [of q] by (cases "mc_contents q") (auto simp: last_n_def mc_ok_def)
    ultimately show ?thesis using mc_Add_full [OF that] by metis
  next
    case False
    then have "mc_count q < mc_maxSize q" using that by (simp add: mc_ok_def)
    then show ?thesis using mc_Add_room [OF that] by fastforce
  qed
qed

lemma drain_loop_result:
  assumes "distinct is" "\<forall>i \<in> set is. i < n" "t < n" "length buf = n"
  shows "fst (drain_loop is t n buf) = map (\<lambda>i. buf ! ((t + i) mod n)) is \<and> length (snd (drain_loop is t n buf)) = n"
  using assms
proof (induction "is" arbitrary: buf)
  case (Cons i "is")
  have "buf[(t + i) mod n := None] ! ((t + j) mod n) = buf ! ((t + j) mod n)" if "j \<in> set is" for j
    using that Cons.prems ring_index_inj [of t n i j] by auto
  with Cons.IH [of "buf[(t + i) mod n := None]"] Cons.prems show ?case
    by (auto simp: Let_def split: prod.splits)
qed simp

lemma mc_Drain_spec:
  assumes "mc_ok c"
  shows "\<exists>c'. mc_Drain c = (map Some (mc_contents c), c') \<and> mc_ok c' \<and> mc_contents c' = [] \<and> mc_maxSize c' = mc_maxSize c"
proof (cases "mc_count c = 0")
  case False
  have ok: "0 < mc_maxSize c" "mc_tail c < mc_maxSize c" "length (mc_buf c) = mc_maxSize c" "mc_count c \<le> mc_maxSize c"
    using assms by (simp_all add: mc_ok_def)
  obtain res buf where d: "drain_loop [0..<mc_count c] (mc_tail c) (mc_maxSize c) (mc_buf c) = (res, buf)" by force
  have r: "res = map (mc_slot c) [0..<mc_count c]" "length buf = mc_maxSize c"
    using drain_loop_result [of "[0..<mc_count c]" "mc_maxSize c" "mc_tail c" "mc_buf c"] d ok by (auto simp: mc_slot_def)
  moreover have "map (mc_slot c) [0..<mc_count c] = map Some (mc_contents c)"
    using assms by (auto simp: mc_contents_def mc_ok_def)
  ultimately show ?thesis using d False ok by (auto simp: mc_Drain_def mc_ok_def mc_contents_def)
qed (use assms in \<open>auto simp: mc_Drain_def mc_contents_def\<close>)

subsection \<open>client.go\<close>

text \<open>
  \<open>cl_conn\<close> and \<open>cl_stream\<close> name the connection and the stream the client holds, \<open>cl_open\<close> the
  connections that were opened and not closed. \<open>cl_net\<close> says which of the next calls of \<open>Send\<close>
  succeed (none after its end), \<open>cl_sent\<close> collects the metric batches that were sent.
\<close>

record Client =
  cl_cache :: MetricCache
  cl_conn :: "nat option"
  cl_stream :: "nat option"
  cl_connected :: bool
  cl_open :: "nat list"
  cl_net :: "bool list"
  cl_sent :: "Metric list list"

definition NewClient :: "int \<Rightarrow> bool list \<Rightarrow> Client" where
  "NewClient cacheMaxSize net =
     \<lparr>cl_cache = NewMetricCache (if cacheMaxSize \<le> 0 then 10000 else cacheMaxSize), cl_conn = None, cl_stream = None,
      cl_connected = False, cl_open = [], cl_net = net, cl_sent = []\<rparr>"

definition cl_Send :: "Metric list \<Rightarrow> Client \<Rightarrow> bool \<times> Client" where
  "cl_Send batch c =
     (case cl_net c of
        [] \<Rightarrow> (False, c)
      | True # net \<Rightarrow> (True, c\<lparr>cl_net := net, cl_sent := cl_sent c @ [batch]\<rparr>)
      | False # net \<Rightarrow> (False, c\<lparr>cl_net := net\<rparr>))"

definition cache_all :: "Metric list \<Rightarrow> Client \<Rightarrow> Client option" where
  "cache_all ms c = map_option (\<lambda>q. c\<lparr>cl_cache := q\<rparr>) (add_all mc_Add ms (cl_cache c))"

definition SendMetrics :: "Metric list \<Rightarrow> Client \<Rightarrow> Client option" where
  "SendMetrics metrics c =
     (if metrics = [] then Some c
      else if \<not> cl_connected c \<or> cl_stream c = None then cache_all metrics c
      else case cl_Send metrics c of (sent, c') \<Rightarrow> if sent then Some c' else cache_all metrics c')"

function replay_loop :: "Metric list \<Rightarrow> Client \<Rightarrow> Client option" where
  "replay_loop metrics c =
     (if metrics = [] then Some c
      else case cl_Send (take 100 metrics) c of
             (True, c') \<Rightarrow> replay_loop (drop 100 metrics) c'
           | (False, c') \<Rightarrow> cache_all metrics c')"
  by pat_completeness auto
termination by (relation "measure (length \<circ> fst)") auto

declare replay_loop.simps [simp del]

text \<open>A nil entry in the drained metrics would panic when it is converted (None).\<close>

definition replayCache :: "Client \<Rightarrow> Client option" where
  "replayCache c =
     (case mc_Drain (cl_cache c) of (drained, q) \<Rightarrow>
        (let c1 = c\<lparr>cl_cache := q\<rparr> in
         if drained = [] then Some c1
         else if cl_stream c1 = None then Some c1
         else case those drained of None \<Rightarrow> None | Some metrics \<Rightarrow> replay_loop metrics c1))"

definition closeConn :: "Client \<Rightarrow> Client" where
  "closeConn c =
     (case cl_conn c of
        Some n \<Rightarrow> c\<lparr>cl_open := filter (\<lambda>k. k \<noteq> n) (cl_open c), cl_conn := None, cl_stream := None, cl_connected := False\<rparr>
      | None \<Rightarrow> c\<lparr>cl_stream := None, cl_connected := False\<rparr>)"

text \<open>
  \<open>dn\<close> says for each batch whether the context had ended when it was its turn (False after the
  end of the list). The result is what remains to be persisted.
\<close>

function flush_loop :: "Metric list \<Rightarrow> bool list \<Rightarrow> Client \<Rightarrow> Metric list \<times> Client" where
  "flush_loop metrics dn c =
     (if metrics = [] then ([], c)
      else if dn \<noteq> [] \<and> hd dn then (metrics, c)
      else case cl_Send (take 100 metrics) c of
             (True, c') \<Rightarrow> flush_loop (drop 100 metrics) (tl dn) c'
           | (False, c') \<Rightarrow> (metrics, c'))"
  by pat_completeness auto
termination by (relation "measure (length \<circ> fst)") auto

declare flush_loop.simps [simp del]

text \<open>
  \<open>persist\<close> writes the file, \<open>Inl\<close> an error. The result carries what the file then holds, None when it
  was not written.
\<close>

definition FlushAndStop :: "(Metric list \<Rightarrow> string + 'f) \<Rightarrow> bool list \<Rightarrow> string \<Rightarrow> Client \<Rightarrow> ('f option \<times> Client) option" where
  "FlushAndStop persist dn persistPath c =
     (case mc_Drain (cl_cache c) of (drained, q) \<Rightarrow>
        (let c1 = c\<lparr>cl_cache := q\<rparr> in
         case those drained of
           None \<Rightarrow> None
         | Some metrics \<Rightarrow>
            (case (if cl_stream c1 = None then (metrics, c1) else flush_loop metrics dn c1) of
               (rest, c2) \<Rightarrow>
                 Some (if rest \<noteq> [] \<and> persistPath \<noteq> [] then (case persist rest of Inl _ \<Rightarrow> None | Inr f \<Rightarrow> Some f) else None,
                       closeConn c2))))"

text \<open>
  \<open>connect\<close> fails before or after it has opened a connection (which it then closes again), or
  succeeds with a new connection.
\<close>

datatype connect_outcome = ConnectFails string | ConnectOK nat

definition connect :: "connect_outcome \<Rightarrow> Client \<Rightarrow> (err \<times> Client) option" where
  "connect o' c =
     (case o' of
        ConnectFails e \<Rightarrow> Some (Some e, c)
      | ConnectOK n \<Rightarrow>
          map_option (Pair None)
            (replayCache (c\<lparr>cl_conn := Some n, cl_stream := Some n, cl_connected := True, cl_open := n # cl_open c\<rparr>)))"

text \<open>The inner loop: the delays it waits and, unless the context ended (the list ran out), the connected client.\<close>

definition next_backoff :: "int \<Rightarrow> int \<Rightarrow> int" where
  "next_backoff maxBackoff b = (let b' = b * 2 in if b' > maxBackoff then maxBackoff else b')"

fun reconnect_loop :: "int \<Rightarrow> int \<Rightarrow> connect_outcome list \<Rightarrow> Client \<Rightarrow> (int list \<times> bool \<times> Client) option" where
  "reconnect_loop maxBackoff b [] c = Some ([b], False, c)"
| "reconnect_loop maxBackoff b (o' # os) c =
     (case connect o' c of
        None \<Rightarrow> None
      | Some (None, c') \<Rightarrow> Some ([b], True, c')
      | Some (Some _, c') \<Rightarrow>
          map_option (\<lambda>(bs, r). (b # bs, r)) (reconnect_loop maxBackoff (next_backoff maxBackoff b) os c'))"

text \<open>\<open>messageLoop\<close> as far as it changes the client: it ends by an error of the stream.\<close>

definition messageLoop_end :: "Client \<Rightarrow> Client" where
  "messageLoop_end c = closeConn (c\<lparr>cl_connected := False\<rparr>)"

text \<open>One round of \<open>connectLoop\<close>: the first attempt, the attempts of the inner loop, the message loop.\<close>

definition connect_round :: "int \<Rightarrow> connect_outcome \<Rightarrow> connect_outcome list \<Rightarrow> Client \<Rightarrow> (bool \<times> Client) option" where
  "connect_round reconnectMaxSec first os c =
     (case connect first c of
        None \<Rightarrow> None
      | Some (_, c1) \<Rightarrow>
         (case reconnect_loop (reconnectMaxSec * Second) Second os c1 of
            None \<Rightarrow> None
          | Some (_, conn_ok, c2) \<Rightarrow> Some (conn_ok, if conn_ok then messageLoop_end c2 else c2)))"

subsection \<open>persist.go\<close>

record persistedMetric =
  pm_Name :: string
  pm_Tags :: "string gomap"
  pm_Fields :: "goval gomap"
  pm_Type :: string
  pm_Timestamp :: int

definition metricTypeString :: "MetricType \<Rightarrow> string" where
  "metricTypeString t = (case t of Counter \<Rightarrow> ''counter'' | Gauge \<Rightarrow> ''gauge'' | Histogram \<Rightarrow> ''histogram'')"

definition metricTypeFromString :: "string \<Rightarrow> MetricType" where
  "metricTypeFromString s =
     (if s = ''counter'' then Counter else if s = ''gauge'' then Gauge else if s = ''histogram'' then Histogram else Gauge)"

text \<open>
  A value written by \<open>json.Marshal\<close> and read back into an \<open>any\<close>: every number is read as a float64,
  and NaN and the infinities cannot be written (None). Strings are valid UTF-8; \<open>f32\<close> reads back the
  shortest decimal of a float32.
\<close>

fun json_value :: "(float64 \<Rightarrow> float64) \<Rightarrow> goval \<Rightarrow> goval option"
  and json_list :: "(float64 \<Rightarrow> float64) \<Rightarrow> goval list \<Rightarrow> goval list option"
  and json_fields :: "(float64 \<Rightarrow> float64) \<Rightarrow> (string \<times> goval) list \<Rightarrow> (string \<times> goval) list option" where
  "json_value f32 GNil = Some GNil"
| "json_value f32 (GBool b) = Some (GBool b)"
| "json_value f32 (GInt i) = Some (GFloat64 (of_int64 i))"
| "json_value f32 (GInt32 i) = Some (GFloat64 (of_int64 i))"
| "json_value f32 (GInt64 i) = Some (GFloat64 (of_int64 i))"
| "json_value f32 (GUint i) = Some (GFloat64 (of_int64 i))"
| "json_value f32 (GUint32 i) = Some (GFloat64 (of_int64 i))"
| "json_value f32 (GUint64 i) = Some (GFloat64 (of_int64 i))"
| "json_value f32 (GFloat32 x) = (case x of Fin _ \<Rightarrow> Some (GFloat64 (f32 x)) | _ \<Rightarrow> None)"
| "json_value f32 (GFloat64 x) = (case x of Fin _ \<Rightarrow> Some (GFloat64 x) | _ \<Rightarrow> None)"
| "json_value f32 (GString s) = Some (GString s)"
| "json_value f32 (GList xs) = map_option GList (json_list f32 xs)"
| "json_value f32 (GMap kvs) = map_option GMap (json_fields f32 kvs)"
| "json_list f32 [] = Some []"
| "json_list f32 (x # xs) = (case (json_value f32 x, json_list f32 xs) of (Some y, Some ys) \<Rightarrow> Some (y # ys) | _ \<Rightarrow> None)"
| "json_fields f32 [] = Some []"
| "json_fields f32 ((k, x) # kvs) =
     (case (json_value f32 x, json_fields f32 kvs) of (Some y, Some ys) \<Rightarrow> Some ((k, y) # ys) | _ \<Rightarrow> None)"

text \<open>The file as it will be read back.\<close>

definition to_persisted :: "(float64 \<Rightarrow> float64) \<Rightarrow> Metric \<Rightarrow> persistedMetric option" where
  "to_persisted f32 m =
     map_option (\<lambda>flds. \<lparr>pm_Name = m_name m, pm_Tags = Tags m, pm_Fields = flds, pm_Type = metricTypeString (m_type m),
                        pm_Timestamp = UnixMilli (m_timestamp m)\<rparr>) (json_fields f32 (Fields m))"

definition persistMetrics :: "(float64 \<Rightarrow> float64) \<Rightarrow> Metric list \<Rightarrow> string + persistedMetric list" where
  "persistMetrics f32 metrics =
     (case those (map (to_persisted f32) metrics) of None \<Rightarrow> Inl ''json: unsupported value'' | Some ps \<Rightarrow> Inr ps)"

definition from_persisted :: "persistedMetric \<Rightarrow> Metric" where
  "from_persisted pm = NewMetric (pm_Name pm) (pm_Tags pm) (pm_Fields pm) (metricTypeFromString (pm_Type pm))
     (pm_Timestamp pm * Millisecond)"

definition loadMetrics :: "persistedMetric list \<Rightarrow> Metric list" where
  "loadMetrics persisted = map from_persisted persisted"

definition maxPersistFileBytes :: int where "maxPersistFileBytes = 10 * 1024 * 1024"

text \<open>\<open>file\<close> is None when there is none, else its size and its content, \<open>Inl\<close> one that cannot be read.\<close>

definition loadPersistedCache :: "(int \<times> (string + persistedMetric list)) option \<Rightarrow> Client \<Rightarrow> Client option" where
  "loadPersistedCache file c =
     (case file of
        None \<Rightarrow> Some c
      | Some (sz, content) \<Rightarrow>
          if sz > maxPersistFileBytes then Some c
          else (case content of Inl _ \<Rightarrow> Some c | Inr ps \<Rightarrow> cache_all (loadMetrics ps) c))"

subsection \<open>Lemmas\<close>

lemma those_map_Some [simp]: "those (map Some xs) = Some xs"
  by (induction xs) simp_all

lemma cl_Send_keeps [simp]:
  "cl_Send b c = (r, c') \<Longrightarrow> cl_cache c' = cl_cache c \<and> cl_conn c' = cl_conn c \<and> cl_open c' = cl_open c
     \<and> cl_stream c' = cl_stream c \<and> cl_connected c' = cl_connected c
     \<and> cl_sent c' = (if r then cl_sent c @ [b] else cl_sent c)"
  by (auto simp: cl_Send_def split: list.splits bool.splits)

lemma cache_all_ok:
  assumes "mc_ok (cl_cache c)"
  shows "\<exists>c'. cache_all ms c = Some c' \<and> mc_ok (cl_cache c') \<and> cl_sent c' = cl_sent c \<and> cl_open c' = cl_open c
    \<and> cl_conn c' = cl_conn c \<and> mc_maxSize (cl_cache c') = mc_maxSize (cl_cache c)
    \<and> mc_contents (cl_cache c') = last_n (mc_maxSize (cl_cache c)) (mc_contents (cl_cache c) @ ms)"
  using cache.add_all_contents [OF assms, of ms] by (auto simp: cache_all_def)

text \<open>Replaying sends a prefix in batches and puts the rest back.\<close>

lemma replay_loop_ok:
  assumes "mc_ok (cl_cache c)" "mc_contents (cl_cache c) = []" "length ms \<le> mc_maxSize (cl_cache c)"
  shows "\<exists>c' bs. replay_loop ms c = Some c' \<and> cl_sent c' = cl_sent c @ bs \<and> cl_open c' = cl_open c \<and> cl_conn c' = cl_conn c
    \<and> mc_ok (cl_cache c') \<and> mc_maxSize (cl_cache c') = mc_maxSize (cl_cache c) \<and> concat bs @ mc_contents (cl_cache c') = ms \<and> (\<forall>b \<in> set bs. b \<noteq> [] \<and> length b \<le> 100)"
  using assms
proof (induction ms c rule: replay_loop.induct)
  case (1 ms c)
  show ?case
  proof (cases "ms = []")
    case True
    with 1 show ?thesis by (auto simp: replay_loop.simps)
  next
    case False
    obtain r c1 where s: "cl_Send (take 100 ms) c = (r, c1)" by force
    note k = cl_Send_keeps [OF s]
    show ?thesis
    proof (cases r)
      case True
      have "length (drop 100 ms) \<le> mc_maxSize (cl_cache c1)" using 1(4) k by simp
      then obtain c' bs where ih: "replay_loop (drop 100 ms) c1 = Some c'" "cl_sent c' = cl_sent c1 @ bs"
          "cl_open c' = cl_open c1" "cl_conn c' = cl_conn c1" "mc_ok (cl_cache c')"
          "mc_maxSize (cl_cache c') = mc_maxSize (cl_cache c1)" "concat bs @ mc_contents (cl_cache c') = drop 100 ms" "\<forall>b \<in> set bs. b \<noteq> [] \<and> length b \<le> 100"
        using 1(1) [OF False s [symmetric]] 1(2,3) True k by metis
      have "concat (take 100 ms # bs) @ mc_contents (cl_cache c') = ms" using ih(7) by simp
      moreover have "replay_loop ms c = Some c'" using False s True ih(1) by (subst replay_loop.simps) simp
      ultimately show ?thesis using ih k True False by (intro exI [of _ c'] exI [of _ "take 100 ms # bs"]) auto
    next
      case False': False
      have "replay_loop ms c = cache_all ms c1" using False s False' by (subst replay_loop.simps) simp
      then show ?thesis using cache_all_ok [of c1 ms] k False' 1(2-4) by (auto intro!: exI [of _ "[]"])
    qed
  qed
qed

lemma replayCache_ok:
  assumes "mc_ok (cl_cache c)" "cl_stream c \<noteq> None"
  shows "\<exists>c' bs. replayCache c = Some c' \<and> cl_sent c' = cl_sent c @ bs \<and> cl_open c' = cl_open c \<and> cl_conn c' = cl_conn c
    \<and> mc_ok (cl_cache c') \<and> mc_maxSize (cl_cache c') = mc_maxSize (cl_cache c) \<and> concat bs @ mc_contents (cl_cache c') = mc_contents (cl_cache c)
    \<and> (\<forall>b \<in> set bs. b \<noteq> [] \<and> length b \<le> 100)"
proof -
  obtain q where q: "mc_Drain (cl_cache c) = (map Some (mc_contents (cl_cache c)), q)" "mc_ok q" "mc_contents q = []"
      "mc_maxSize q = mc_maxSize (cl_cache c)"
    using mc_Drain_spec [OF assms(1)] by blast
  show ?thesis
  proof (cases "mc_contents (cl_cache c) = []")
    case True
    then show ?thesis using q by (intro exI [of _ "c\<lparr>cl_cache := q\<rparr>"] exI [of _ "[]"]) (simp add: replayCache_def)
  next
    case False
    then have "replayCache c = replay_loop (mc_contents (cl_cache c)) (c\<lparr>cl_cache := q\<rparr>)"
      using q assms(2) by (auto simp: replayCache_def Let_def)
    then show ?thesis
      using replay_loop_ok [of "c\<lparr>cl_cache := q\<rparr>" "mc_contents (cl_cache c)"] q cache.bounded [OF assms(1)] by simp
  qed
qed

lemma flush_loop_ok:
  "\<exists>bs. cl_sent (snd (flush_loop ms dn c)) = cl_sent c @ bs \<and> concat bs @ fst (flush_loop ms dn c) = ms
     \<and> cl_cache (snd (flush_loop ms dn c)) = cl_cache c"
proof (induction ms dn c rule: flush_loop.induct)
  case (1 ms dn c)
  show ?case
  proof (cases "ms = [] \<or> (dn \<noteq> [] \<and> hd dn)")
    case True
    then show ?thesis by (subst (1 2 3) flush_loop.simps) auto
  next
    case False
    obtain r c1 where s: "cl_Send (take 100 ms) c = (r, c1)" by force
    note k = cl_Send_keeps [OF s]
    show ?thesis
    proof (cases r)
      case True
      have eq: "flush_loop ms dn c = flush_loop (drop 100 ms) (tl dn) c1"
        using False s True by (subst flush_loop.simps) auto
      obtain bs where "cl_sent (snd (flush_loop ms dn c)) = cl_sent c1 @ bs" "concat bs @ fst (flush_loop ms dn c) = drop 100 ms"
          "cl_cache (snd (flush_loop ms dn c)) = cl_cache c1"
        using 1 [OF _ _ s [symmetric]] True False eq by auto
      then show ?thesis using k True by (intro exI [of _ "take 100 ms # bs"]) simp
    next
      case False': False
      have "flush_loop ms dn c = (ms, c1)" using False s False' by (subst flush_loop.simps) auto
      then show ?thesis using k False' by simp
    qed
  qed
qed

subsection \<open>Properties\<close>

text \<open>C4: The cache keeps the newest metrics: after any sequence of Add calls on a new cache of capacity
  n (at least 1) no index is out of range, Drain returns exactly the last n metrics that were added, oldest
  first, and leaves the cache empty.\<close>

theorem cache_keeps_newest:
  "\<exists>c. add_all mc_Add ms (NewMetricCache n) = Some c
     \<and> fst (mc_Drain c) = map Some (last_n (nat (max n 1)) ms) \<and> mc_Len (snd (mc_Drain c)) = 0"
proof -
  obtain c where c: "add_all mc_Add ms (NewMetricCache n) = Some c" "mc_ok c" "mc_contents c = last_n (nat (max n 1)) ms"
    using cache.add_all_contents [OF mc_ok_New(1), of ms n] mc_ok_New(2,3) [of n] by auto
  then show ?thesis using mc_Drain_spec [OF c(2)] by (auto simp: mc_Len_def simp flip: mc_contents_length)
qed

text \<open>C23: Replaying the cache over an open stream loses and repeats nothing: the batches that were sent, each
  of 1 to 100 metrics, followed by what is back in the cache are exactly the metrics that were cached,
  in order, whichever call of Send fails.\<close>

theorem replay_conserves:
  assumes "mc_ok (cl_cache c)" "cl_stream c \<noteq> None"
  shows "\<exists>c' bs. replayCache c = Some c' \<and> cl_sent c' = cl_sent c @ bs
    \<and> concat bs @ mc_contents (cl_cache c') = mc_contents (cl_cache c) \<and> (\<forall>b \<in> set bs. b \<noteq> [] \<and> length b \<le> 100)"
  using replayCache_ok [OF assms] by blast

abbreviation up_metric :: Metric where
  "up_metric \<equiv> NewMetric ''up'' [] [(''v'', GInt64 1)] Gauge 0"

lemma three_cached: "\<exists>q. add_all mc_Add [up_metric, up_metric, up_metric] (NewMetricCache 2) = Some q
    \<and> mc_ok q \<and> mc_contents q = [up_metric, up_metric]"
proof -
  have "last_n 2 [up_metric, up_metric, up_metric] = [up_metric, up_metric]" by (simp add: last_n_def)
  then show ?thesis
    using cache.add_all_contents [OF mc_ok_New(1), of "[up_metric, up_metric, up_metric]" 2] mc_ok_New(2,3) [of 2] by auto
qed

theorem replay_conserves_witness:
  "\<exists>q c' bs. add_all mc_Add [up_metric, up_metric, up_metric] (NewMetricCache 2) = Some q
     \<and> replayCache ((NewClient 2 [False])\<lparr>cl_cache := q, cl_stream := Some 0\<rparr>) = Some c'
     \<and> concat bs @ mc_contents (cl_cache c') = [up_metric, up_metric]"
proof -
  obtain q where q: "add_all mc_Add [up_metric, up_metric, up_metric] (NewMetricCache 2) = Some q" "mc_ok q"
      "mc_contents q = [up_metric, up_metric]"
    using three_cached by blast
  then show ?thesis
    using replay_conserves [of "(NewClient 2 [False])\<lparr>cl_cache := q, cl_stream := Some 0\<rparr>"] by auto
qed

text \<open>What survives the file: name, tags, type, and the timestamp to the millisecond.\<close>

definition ident_of :: "Metric \<Rightarrow> string \<times> string gomap \<times> MetricType \<times> int" where
  "ident_of m = (m_name m, m_tags m, m_type m, UnixMilli (m_timestamp m))"

lemma type_roundtrip [simp]: "metricTypeFromString (metricTypeString t) = t"
  by (cases t) (simp_all add: metricTypeString_def metricTypeFromString_def)

lemma roundtrip_ident: "metric_ok m \<Longrightarrow> to_persisted f32 m = Some p \<Longrightarrow> ident_of (from_persisted p) = ident_of m"
  by (auto simp: to_persisted_def from_persisted_def ident_of_def NewMetric_def Tags_def metric_ok_def UnixMilli_def Millisecond_def)

lemma those_eq_Some: "those xs = Some ys \<longleftrightarrow> xs = map Some ys"
  by (induction xs arbitrary: ys) (auto split: option.splits)

lemma persist_ident:
  assumes "\<forall>m \<in> set ms. metric_ok m" "persistMetrics f32 ms = Inr ps"
  shows "map ident_of (loadMetrics ps) = map ident_of ms"
proof -
  have "map (to_persisted f32) ms = map Some ps"
    using assms(2) by (auto simp: persistMetrics_def those_eq_Some split: option.splits)
  then show ?thesis using assms(1) roundtrip_ident
    by (auto simp: loadMetrics_def list_eq_iff_nth_eq)
qed

lemma FlushAndStop_ok:
  assumes "mc_ok (cl_cache c)"
  shows "\<exists>f c' bs rest. FlushAndStop persist dn path c = Some (f, c') \<and> cl_sent c' = cl_sent c @ bs
    \<and> concat bs @ rest = mc_contents (cl_cache c) \<and> (cl_stream c = None \<longrightarrow> bs = [])
    \<and> f = (if rest \<noteq> [] \<and> path \<noteq> [] then case persist rest of Inl _ \<Rightarrow> None | Inr f \<Rightarrow> Some f else None)"
proof -
  obtain q where q: "mc_Drain (cl_cache c) = (map Some (mc_contents (cl_cache c)), q)"
    using mc_Drain_spec [OF assms] by blast
  let ?c = "c\<lparr>cl_cache := q\<rparr>" and ?ms = "mc_contents (cl_cache c)"
  have close: "cl_sent (closeConn x) = cl_sent x" for x by (simp add: closeConn_def split: option.splits)
  show ?thesis
  proof (cases "cl_stream c = None")
    case True
    then show ?thesis using q close
      by (intro exI [of _ "if ?ms \<noteq> [] \<and> path \<noteq> [] then case persist ?ms of Inl _ \<Rightarrow> None | Inr f \<Rightarrow> Some f else None"]
           exI [of _ "closeConn ?c"] exI [of _ "[]"] exI [of _ ?ms]) (simp add: FlushAndStop_def Let_def)
  next
    case False
    obtain rest c2 where fl: "flush_loop ?ms dn ?c = (rest, c2)" by force
    obtain bs where "cl_sent c2 = cl_sent c @ bs" "concat bs @ rest = ?ms"
      using flush_loop_ok [of ?ms dn ?c] fl by auto
    with False q fl close show ?thesis
      by (intro exI [of _ "if rest \<noteq> [] \<and> path \<noteq> [] then case persist rest of Inl _ \<Rightarrow> None | Inr f \<Rightarrow> Some f else None"]
           exI [of _ "closeConn c2"] exI [of _ bs] exI [of _ rest]) (auto simp: FlushAndStop_def Let_def)
  qed
qed

lemma flush_ident:
  assumes "mc_ok (cl_cache c)" "path \<noteq> []"
    and "\<forall>m \<in> set (mc_contents (cl_cache c)). metric_ok m \<and> to_persisted f32 m \<noteq> None"
  shows "\<exists>f c' bs. FlushAndStop (persistMetrics f32) dn path c = Some (f, c') \<and> cl_sent c' = cl_sent c @ bs
    \<and> map ident_of (concat bs @ (case f of None \<Rightarrow> [] | Some ps \<Rightarrow> loadMetrics ps)) = map ident_of (mc_contents (cl_cache c))"
proof -
  obtain f c' bs rest where r: "FlushAndStop (persistMetrics f32) dn path c = Some (f, c')" "cl_sent c' = cl_sent c @ bs"
      "concat bs @ rest = mc_contents (cl_cache c)"
      "f = (if rest \<noteq> [] \<and> path \<noteq> [] then case persistMetrics f32 rest of Inl _ \<Rightarrow> None | Inr f \<Rightarrow> Some f else None)"
    using FlushAndStop_ok [OF assms(1), of "persistMetrics f32" dn path] by blast
  have sub: "set rest \<subseteq> set (mc_contents (cl_cache c))" using r(3) by (metis Un_upper2 set_append)
  then have "map (to_persisted f32) rest = map Some (map (the \<circ> to_persisted f32) rest)" using assms(3) by auto
  then have "those (map (to_persisted f32) rest) = Some (map (the \<circ> to_persisted f32) rest)" by (simp only: those_map_Some)
  then obtain ps where ps: "persistMetrics f32 rest = Inr ps" by (simp add: persistMetrics_def)
  have "map ident_of (loadMetrics ps) = map ident_of rest" by (rule persist_ident [OF _ ps]) (use sub assms(3) in blast)
  moreover have "map ident_of (mc_contents (cl_cache c)) = map ident_of (concat bs) @ map ident_of rest"
    using r(3) by (metis map_append)
  ultimately show ?thesis using r ps assms(2) by (cases "rest = []") auto
qed

text \<open>Shutting down keeps every cached metric: as long as every field can be written as JSON and a path is
  configured, the batches that were sent followed by what the file gives back are the cached metrics in order,
  with the same name, tags, type and timestamp in milliseconds, whichever call of Send fails and whenever the
  context ends.\<close>

theorem shutdown_keeps_metrics:
  assumes "mc_ok (cl_cache c)" "path \<noteq> []"
    and "\<forall>m \<in> set (mc_contents (cl_cache c)). metric_ok m \<and> to_persisted f32 m \<noteq> None"
  shows "\<exists>f c' bs. FlushAndStop (persistMetrics f32) dn path c = Some (f, c') \<and> cl_sent c' = cl_sent c @ bs
    \<and> map ident_of (concat bs @ (case f of None \<Rightarrow> [] | Some ps \<Rightarrow> loadMetrics ps)) = map ident_of (mc_contents (cl_cache c))"
  by (rule flush_ident [OF assms])

theorem shutdown_keeps_metrics_witness:
  "\<exists>q f c' bs. add_all mc_Add [up_metric, up_metric, up_metric] (NewMetricCache 2) = Some q
     \<and> FlushAndStop (persistMetrics id) [] ''/c.json'' ((NewClient 2 [])\<lparr>cl_cache := q, cl_stream := Some 0\<rparr>) = Some (f, c')
     \<and> map ident_of (concat bs @ (case f of None \<Rightarrow> [] | Some ps \<Rightarrow> loadMetrics ps)) = map ident_of [up_metric, up_metric]"
proof -
  obtain q where q: "add_all mc_Add [up_metric, up_metric, up_metric] (NewMetricCache 2) = Some q" "mc_ok q"
      "mc_contents q = [up_metric, up_metric]"
    using three_cached by blast
  have "metric_ok up_metric" "to_persisted id up_metric \<noteq> None"
    by (simp_all add: metric_ok_def NewMetric_def to_persisted_def Fields_def map_copy_def map_ok_def)
  with q show ?thesis
    using shutdown_keeps_metrics [of "(NewClient 2 [])\<lparr>cl_cache := q, cl_stream := Some 0\<rparr>" "''/c.json''" id "[]"] by auto
qed

lemma json_fields_None: "(k, v) \<in> set kvs \<Longrightarrow> json_value f32 v = None \<Longrightarrow> json_fields f32 kvs = None"
  by (induction kvs) (auto split: option.splits)

lemma those_None: "None \<in> set xs \<Longrightarrow> those xs = None"
  by (induction xs) (auto split: option.splits)

text \<open>One field that is NaN or infinite makes the shutdown of a disconnected client lose the whole cache:
  the file cannot be written, and no metric is sent.\<close>

theorem nan_field_loses_cache:
  assumes "mc_ok (cl_cache c)" "cl_stream c = None"
    and "m \<in> set (mc_contents (cl_cache c))" "(k, GFloat64 x) \<in> set (Fields m)" "x \<in> {NaN, PInf, NInf}"
  shows "\<exists>c'. FlushAndStop (persistMetrics f32) dn path c = Some (None, c') \<and> cl_sent c' = cl_sent c"
proof -
  obtain f c' bs rest where r: "FlushAndStop (persistMetrics f32) dn path c = Some (f, c')" "cl_sent c' = cl_sent c @ bs"
      "concat bs @ rest = mc_contents (cl_cache c)" "bs = []"
      "f = (if rest \<noteq> [] \<and> path \<noteq> [] then case persistMetrics f32 rest of Inl _ \<Rightarrow> None | Inr f \<Rightarrow> Some f else None)"
    using FlushAndStop_ok [OF assms(1), of "persistMetrics f32" dn path] assms(2) by blast
  have "json_fields f32 (Fields m) = None" by (rule json_fields_None [OF assms(4)]) (use assms(5) in auto)
  then have "None \<in> set (map (to_persisted f32) rest)" using assms(3) r(3,4) by (force simp: to_persisted_def)
  then have "persistMetrics f32 rest = Inl ''json: unsupported value''" by (simp add: persistMetrics_def those_None)
  with r show ?thesis by simp
qed

abbreviation nan_metric :: Metric where
  "nan_metric \<equiv> NewMetric ''load'' [] [(''v'', GFloat64 NaN)] Gauge 0"

theorem nan_field_loses_cache_witness:
  "\<exists>q c'. add_all mc_Add [up_metric, nan_metric] (NewMetricCache 2) = Some q
     \<and> FlushAndStop (persistMetrics id) [] ''/c.json'' ((NewClient 2 [])\<lparr>cl_cache := q\<rparr>) = Some (None, c') \<and> cl_sent c' = []"
proof -
  obtain q where q: "add_all mc_Add [up_metric, nan_metric] (NewMetricCache 2) = Some q" "mc_ok q"
      "mc_contents q = [up_metric, nan_metric]"
    using cache.add_all_contents [OF mc_ok_New(1), of "[up_metric, nan_metric]" 2] mc_ok_New(2,3) [of 2] by auto
  with nan_field_loses_cache [of "(NewClient 2 [])\<lparr>cl_cache := q\<rparr>" nan_metric "''v''" NaN id "[]" "''/c.json''"]
  show ?thesis by (simp add: NewClient_def Fields_def NewMetric_def map_copy_def)
qed

lemma reconnect_delays:
  assumes "maxB \<ge> Second"
  shows "reconnect_loop maxB (min (2 ^ k * Second) maxB) (map ConnectFails es) c
    = Some (map (\<lambda>i. min (2 ^ i * Second) maxB) [k..<k + length es + 1], False, c)"
proof (induction es arbitrary: k)
  case (Cons e es)
  have "next_backoff maxB (min (2 ^ k * Second) maxB) = min (2 ^ Suc k * Second) maxB"
    using assms by (auto simp: next_backoff_def Second_def min_def)
  with Cons.IH [of "Suc k"] show ?case by (simp add: connect_def upt_rec)
qed simp

text \<open>The delays between failed attempts to reconnect double from one second and stop growing at the
  configured maximum.\<close>

theorem backoff_delays:
  assumes "maxB \<ge> Second"
  shows "reconnect_loop maxB Second (map ConnectFails es) c
    = Some (map (\<lambda>i. min (2 ^ i * Second) maxB) [0..<length es + 1], False, c)"
  using reconnect_delays [OF assms, of 0 es c] assms by simp

theorem backoff_delays_witness:
  "reconnect_loop (5 * Second) Second (map ConnectFails [''e'', ''e'', ''e'']) (NewClient 1 [])
     = Some ([Second, 2 * Second, 4 * Second, 5 * Second], False, NewClient 1 [])"
proof -
  have "[0..<length [''e'', ''e'', ''e''] + 1] = [0, 1, 2, 3]" by (simp add: upt_rec)
  with backoff_delays [of "5 * Second" "[''e'', ''e'', ''e'']" "NewClient 1 []"] show ?thesis
    by (simp del: reconnect_loop.simps add: Second_def)
qed

text \<open>Rounds of the connection loop in which every attempt succeeds.\<close>

primrec rounds :: "nat \<Rightarrow> Client \<Rightarrow> Client option" where
  "rounds 0 c = Some c"
| "rounds (Suc k) c =
     (case rounds k c of None \<Rightarrow> None
      | Some c' \<Rightarrow> map_option snd (connect_round 60 (ConnectOK (2 * k)) [ConnectOK (2 * k + 1)] c'))"

lemma connect_ok:
  assumes "mc_ok (cl_cache c)"
  shows "\<exists>c'. connect (ConnectOK n) c = Some (None, c') \<and> mc_ok (cl_cache c') \<and> cl_open c' = n # cl_open c \<and> cl_conn c' = Some n"
  using replayCache_ok [of "c\<lparr>cl_conn := Some n, cl_stream := Some n, cl_connected := True, cl_open := n # cl_open c\<rparr>"] assms
  by (auto simp: connect_def)

lemma round_leaks:
  assumes "mc_ok (cl_cache c)" "a \<noteq> b" "b \<notin> set (cl_open c)"
  shows "\<exists>c'. connect_round m (ConnectOK a) [ConnectOK b] c = Some (True, c') \<and> mc_ok (cl_cache c')
    \<and> cl_open c' = a # cl_open c \<and> cl_conn c' = None"
proof -
  obtain c1 where c1: "connect (ConnectOK a) c = Some (None, c1)" "mc_ok (cl_cache c1)" "cl_open c1 = a # cl_open c"
    using connect_ok [OF assms(1)] by blast
  obtain c2 where c2: "connect (ConnectOK b) c1 = Some (None, c2)" "mc_ok (cl_cache c2)" "cl_open c2 = b # a # cl_open c"
      "cl_conn c2 = Some b"
    using connect_ok [OF c1(2)] c1(3) by metis
  have "filter (\<lambda>k. k \<noteq> b) (cl_open c) = cl_open c" using assms(3) by (induction "cl_open c") (auto simp: filter_id_conv)
  with c1 c2 assms(2) show ?thesis
    by (simp add: connect_round_def messageLoop_end_def closeConn_def)
qed

text \<open>The connection loop leaks a connection in every round in which it connects at the first attempt:
  it connects again after a second without closing the first connection, which nothing refers to any more.
  After k such rounds k connections are open while the client holds none.\<close>

theorem connect_loop_leaks:
  "\<exists>c. rounds k (NewClient n net) = Some c \<and> length (cl_open c) = k \<and> cl_conn c = None"
proof -
  have "\<exists>c. rounds k (NewClient n net) = Some c \<and> mc_ok (cl_cache c) \<and> length (cl_open c) = k \<and> cl_conn c = None
      \<and> (\<forall>i \<in> set (cl_open c). i < 2 * k)"
  proof (induction k)
    case 0
    show ?case by (auto simp: NewClient_def)
  next
    case (Suc k)
    then obtain c where c: "rounds k (NewClient n net) = Some c" "mc_ok (cl_cache c)" "length (cl_open c) = k"
        "\<forall>i \<in> set (cl_open c). i < 2 * k"
      by blast
    then have "2 * k + 1 \<notin> set (cl_open c)" by fastforce
    then show ?case using round_leaks [OF c(2), of "2 * k" "2 * k + 1" 60] c by force
  qed
  then show ?thesis by blast
qed

end
