(* ===== verification/Alerting.thy ===== *)
theory Alerting
imports Config Metrics Go_Strconv
begin

text \<open>
  The alerting engine (\<open>internal/alerting/rules.go\<close>, \<open>engine.go\<close>) and the way the agent builds its
  rules (\<open>internal/app/agent.go\<close>). The regular expression of a condition is matched as Go does:
  the longest name first, and the first operator of the alternation that leads to a match.
\<close>

subsection \<open>rules.go\<close>

datatype alert_state = StateOK | StatePending | StateFiring

record alert_condition =
  ac_Metric :: string
  ac_Operator :: string
  ac_Threshold :: float64

definition cond_Evaluate :: "alert_condition \<Rightarrow> float64 \<Rightarrow> bool" where
  "cond_Evaluate c value =
     (if ac_Operator c = ''>'' then flt (ac_Threshold c) value
      else if ac_Operator c = ''<'' then flt value (ac_Threshold c)
      else if ac_Operator c = ''>='' then fle (ac_Threshold c) value
      else if ac_Operator c = ''<='' then fle value (ac_Threshold c)
      else if ac_Operator c = ''=='' then feq value (ac_Threshold c)
      else if ac_Operator c = ''!='' then \<not> feq value (ac_Threshold c)
      else False)"

record EvaluatedRule =
  ev_Name :: string
  ev_Condition :: alert_condition
  ev_Severity :: string
  ev_Duration :: duration
  ev_State :: alert_state
  ev_TriggeredAt :: time
  ev_CurrentValue :: float64

definition ConditionMet :: "bool \<Rightarrow> time \<Rightarrow> EvaluatedRule \<Rightarrow> EvaluatedRule" where
  "ConditionMet met now r =
     (case ev_State r of
        StateOK \<Rightarrow>
          if met then
            (if ev_Duration r = 0 then r\<lparr>ev_State := StateFiring\<rparr>
             else r\<lparr>ev_State := StatePending, ev_TriggeredAt := now\<rparr>)
          else r
      | StatePending \<Rightarrow>
          if \<not> met then r\<lparr>ev_State := StateOK, ev_TriggeredAt := zero_time\<rparr>
          else if time_sub now (ev_TriggeredAt r) \<ge> ev_Duration r then r\<lparr>ev_State := StateFiring\<rparr> else r
      | StateFiring \<Rightarrow>
          if \<not> met then r\<lparr>ev_State := StateOK, ev_TriggeredAt := zero_time\<rparr> else r)"

record Alert =
  al_Name :: string
  al_Severity :: string
  al_CurrentValue :: float64
  al_Threshold :: float64

subsection \<open>engine.go\<close>

text \<open>White space of a regular expression.\<close>

definition re_space :: "char \<Rightarrow> bool" where
  "re_space c = (c \<in> {CHR 0x09, CHR 0x0A, CHR 0x0C, CHR 0x0D, CHR 0x20})"

definition cond_ops :: "string list" where
  "cond_ops = [''>'', ''<'', ''>='', ''<='', ''=='', ''!='']"

text \<open>What follows the operator: \<open>\s*(.+)$\<close>, where a dot matches no newline.\<close>

definition match_value :: "string \<Rightarrow> string option" where
  "match_value s =
     (let r = dropWhile re_space s; v = (if r \<noteq> [] then r else if s \<noteq> [] then [last s] else [])
      in if v = [] \<or> CHR 0x0A \<in> set v then None else Some v)"

fun match_ops :: "string list \<Rightarrow> string \<Rightarrow> (string \<times> string) option" where
  "match_ops [] s = None"
| "match_ops (op # ops) s =
     (if HasPrefix s op then (case match_value (drop (length op) s) of Some v \<Rightarrow> Some (op, v) | None \<Rightarrow> match_ops ops s)
      else match_ops ops s)"

text \<open>\<open>n\<close> is the number of characters the name may take, tried from the longest.\<close>

fun match_name :: "nat \<Rightarrow> string \<Rightarrow> (string \<times> string \<times> string) option" where
  "match_name 0 s = None"
| "match_name (Suc n) s =
     (case match_ops cond_ops (dropWhile re_space (drop (Suc n) s)) of
        Some (op, v) \<Rightarrow> Some (take (Suc n) s, op, v)
      | None \<Rightarrow> match_name n s)"

definition conditionPattern :: "string \<Rightarrow> (string \<times> string \<times> string) option" where
  "conditionPattern s = match_name (length (takeWhile (\<lambda>c. \<not> re_space c) s)) s"

definition parseCondition :: "string \<Rightarrow> alert_condition result" where
  "parseCondition s =
     (case conditionPattern s of
        None \<Rightarrow> Inl ''invalid condition: %s''
      | Some (name, op, v) \<Rightarrow>
         (case ParseFloat v of
            None \<Rightarrow> Inl ''invalid threshold: %s''
          | Some t \<Rightarrow> Inr \<lparr>ac_Metric = name, ac_Operator = op, ac_Threshold = t\<rparr>))"

record RuleConfig =
  rc_Name :: string
  rc_Condition :: string
  rc_Severity :: string
  rc_For :: string

definition new_rule :: "RuleConfig \<Rightarrow> EvaluatedRule option" where
  "new_rule rc =
     (case parseCondition (rc_Condition rc) of
        Inl _ \<Rightarrow> None
      | Inr cond \<Rightarrow>
          Some \<lparr>ev_Name = rc_Name rc, ev_Condition = cond, ev_Severity = rc_Severity rc,
                ev_Duration = (if rc_For rc \<noteq> [] \<and> rc_For rc \<noteq> ''0s''
                               then (case ParseDuration (rc_For rc) of Some d \<Rightarrow> d | None \<Rightarrow> 0) else 0),
                ev_State = StateOK, ev_TriggeredAt = zero_time, ev_CurrentValue = fzero\<rparr>)"

definition NewEngine :: "RuleConfig list \<Rightarrow> EvaluatedRule list" where
  "NewEngine rules = List.map_filter new_rule rules"

definition alert_number :: "goval \<Rightarrow> float64 option" where
  "alert_number v = (case v of GFloat64 x \<Rightarrow> Some x | GInt64 i \<Rightarrow> Some (of_int64 i) | GInt i \<Rightarrow> Some (of_int64 i) | _ \<Rightarrow> None)"

definition metric_values :: "Metric \<Rightarrow> float64 gomap \<Rightarrow> float64 gomap" where
  "metric_values m vals =
     fold (\<lambda>(k, v) vs. case alert_number v of Some x \<Rightarrow> map_put (m_name m @ ''_'' @ k) x vs | None \<Rightarrow> vs) (Fields m) vals"

definition batch_values :: "Metric list \<Rightarrow> float64 gomap" where
  "batch_values ms = fold metric_values ms []"

definition eval_rule :: "float64 gomap \<Rightarrow> time \<Rightarrow> EvaluatedRule \<Rightarrow> EvaluatedRule \<times> Alert list" where
  "eval_rule vals now r =
     (case map_of vals (ac_Metric (ev_Condition r)) of
        None \<Rightarrow> (ConditionMet False now r, [])
      | Some val \<Rightarrow>
         (let r1 = r\<lparr>ev_CurrentValue := val\<rparr>;
              r2 = ConditionMet (cond_Evaluate (ev_Condition r1) val) now r1
          in (r2, if ev_State r2 = StateFiring \<and> ev_State r \<noteq> StateFiring
                  then [\<lparr>al_Name = ev_Name r2, al_Severity = ev_Severity r2, al_CurrentValue = ev_CurrentValue r2,
                         al_Threshold = ac_Threshold (ev_Condition r2)\<rparr>]
                  else [])))"

definition engine_Evaluate :: "Metric list \<Rightarrow> time \<Rightarrow> EvaluatedRule list \<Rightarrow> EvaluatedRule list \<times> Alert list" where
  "engine_Evaluate ms now rules =
     (let res = map (eval_rule (batch_values ms) now) rules in (map fst res, concat (map snd res)))"

subsection \<open>The rules of the agent\<close>

text \<open>\<open>fmt_v\<close> is the format of a float64 under the verb v.\<close>

definition agent_rule :: "(float64 \<Rightarrow> string) \<Rightarrow> AlertRule \<Rightarrow> RuleConfig" where
  "agent_rule fmt_v r =
     \<lparr>rc_Name = arule_Name r,
      rc_Condition = acond_Metric (arule_Condition r) @ '' '' @ acond_Operator (arule_Condition r) @ '' ''
        @ fmt_v (acond_Threshold (arule_Condition r)),
      rc_Severity = arule_Severity r, rc_For = acond_For (arule_Condition r)\<rparr>"

definition agent_engine :: "(float64 \<Rightarrow> string) \<Rightarrow> AlertingConfig \<Rightarrow> EvaluatedRule list" where
  "agent_engine fmt_v c = NewEngine (map (agent_rule fmt_v) (elems (alerting_Rules c)))"

subsection \<open>What a history of evaluations leads to\<close>

text \<open>The times of the evaluations since the condition last became true.\<close>

definition met_run :: "(bool \<times> time) list \<Rightarrow> time list" where
  "met_run hs = map snd (rev (takeWhile fst (rev hs)))"

definition state_after :: "duration \<Rightarrow> (bool \<times> time) list \<Rightarrow> alert_state" where
  "state_after d hs =
     (case met_run hs of
        [] \<Rightarrow> StateOK
      | t0 # ts \<Rightarrow> if d = 0 \<or> (\<exists>t \<in> set ts. time_sub t t0 \<ge> d) then StateFiring else StatePending)"

definition run_rule :: "(bool \<times> time) list \<Rightarrow> EvaluatedRule \<Rightarrow> EvaluatedRule" where
  "run_rule hs r = fold (\<lambda>(met, now). ConditionMet met now) hs r"

lemma met_run_snoc: "met_run (hs @ [(met, t)]) = (if met then met_run hs @ [t] else [])"
  by (simp add: met_run_def)

lemma ConditionMet_const [simp]:
  "ev_Duration (ConditionMet met t r) = ev_Duration r" "ev_Condition (ConditionMet met t r) = ev_Condition r"
  "ev_Name (ConditionMet met t r) = ev_Name r"
  by (simp_all add: ConditionMet_def split: alert_state.splits)

lemma run_rule_inv:
  assumes "ev_State r = StateOK"
  shows "ev_State (run_rule hs r) = state_after (ev_Duration r) hs \<and> ev_Duration (run_rule hs r) = ev_Duration r
    \<and> (ev_State (run_rule hs r) = StatePending \<longrightarrow> met_run hs \<noteq> [] \<and> ev_TriggeredAt (run_rule hs r) = hd (met_run hs))"
proof (induction hs rule: rev_induct)
  case Nil
  then show ?case using assms by (simp add: run_rule_def state_after_def met_run_def)
next
  case (snoc h hs)
  obtain met t where h: "h = (met, t)" by force
  let ?r = "run_rule hs r"
  have step: "run_rule (hs @ [h]) r = ConditionMet met t ?r" by (simp add: run_rule_def h)
  show ?case
  proof (cases met)
    case False
    then show ?thesis using snoc h step
      by (auto simp: ConditionMet_def state_after_def met_run_snoc split: alert_state.splits)
  next
    case True
    then show ?thesis using snoc h step
      by (cases "met_run hs") (auto simp: ConditionMet_def state_after_def met_run_snoc split: alert_state.splits if_splits)
  qed
qed

definition batch_met :: "alert_condition \<Rightarrow> Metric list \<Rightarrow> bool" where
  "batch_met c ms = (case map_of (batch_values ms) (ac_Metric c) of None \<Rightarrow> False | Some v \<Rightarrow> cond_Evaluate c v)"

definition history :: "alert_condition \<Rightarrow> (Metric list \<times> time) list \<Rightarrow> (bool \<times> time) list" where
  "history c bs = map (\<lambda>(ms, t). (batch_met c ms, t)) bs"

fun rule_run :: "(Metric list \<times> time) list \<Rightarrow> EvaluatedRule \<Rightarrow> EvaluatedRule \<times> Alert list list" where
  "rule_run [] r = (r, [])"
| "rule_run ((ms, t) # bs) r =
     (case eval_rule (batch_values ms) t r of (r1, al) \<Rightarrow> (case rule_run bs r1 of (r2, als) \<Rightarrow> (r2, al # als)))"

lemma ConditionMet_value: "ConditionMet met t (r\<lparr>ev_CurrentValue := v\<rparr>) = (ConditionMet met t r)\<lparr>ev_CurrentValue := v\<rparr>"
  by (simp add: ConditionMet_def split: alert_state.splits)

lemma eval_rule_state:
  "ev_State (fst (eval_rule (batch_values ms) t r)) = ev_State (ConditionMet (batch_met (ev_Condition r) ms) t r)"
  "\<exists>v. fst (eval_rule (batch_values ms) t r) = (ConditionMet (batch_met (ev_Condition r) ms) t r)\<lparr>ev_CurrentValue := v\<rparr>"
  by (auto simp: eval_rule_def batch_met_def Let_def ConditionMet_value split: option.splits)
     (metis EvaluatedRule.surjective EvaluatedRule.update_convs(7))+

text \<open>An alert is raised exactly when a rule starts to fire.\<close>

lemma ConditionMet_False_fires: "ev_State (ConditionMet False t r) \<noteq> StateFiring"
  by (simp add: ConditionMet_def split: alert_state.splits)

lemma eval_rule_alert:
  "snd (eval_rule (batch_values ms) t r) \<noteq> [] \<longleftrightarrow>
     ev_State (ConditionMet (batch_met (ev_Condition r) ms) t r) = StateFiring \<and> ev_State r \<noteq> StateFiring"
  "length (snd (eval_rule (batch_values ms) t r)) \<le> 1"
  by (auto simp: eval_rule_def batch_met_def Let_def ConditionMet_value ConditionMet_False_fires split: option.splits)

lemma run_rule_simps [simp]: "run_rule [] r = r" "run_rule ((met, t) # hs) r = run_rule hs (ConditionMet met t r)"
  by (simp_all add: run_rule_def)

lemma history_simps [simp]: "history c [] = []" "history c ((ms, t) # bs) = (batch_met c ms, t) # history c bs"
  by (simp_all add: history_def)

lemma rule_run_Cons:
  "rule_run ((ms, t) # bs) r = (fst (rule_run bs (fst (eval_rule (batch_values ms) t r))),
     snd (eval_rule (batch_values ms) t r) # snd (rule_run bs (fst (eval_rule (batch_values ms) t r))))"
  by (simp split: prod.splits)

lemma run_rule_value: "run_rule hs (r\<lparr>ev_CurrentValue := v\<rparr>) = (run_rule hs r)\<lparr>ev_CurrentValue := v\<rparr>"
  by (induction hs arbitrary: r) (auto simp: ConditionMet_value)

lemma rule_run_state:
  "\<exists>v. fst (rule_run bs r) = (run_rule (history (ev_Condition r) bs) r)\<lparr>ev_CurrentValue := v\<rparr>"
proof (induction bs arbitrary: r)
  case Nil
  show ?case by (auto intro!: exI [of _ "ev_CurrentValue r"])
next
  case (Cons b bs)
  obtain ms t where b: "b = (ms, t)" by force
  let ?m = "ConditionMet (batch_met (ev_Condition r) ms) t r"
  obtain v where v: "fst (eval_rule (batch_values ms) t r) = ?m\<lparr>ev_CurrentValue := v\<rparr>" using eval_rule_state(2) by blast
  obtain w where "fst (rule_run bs (?m\<lparr>ev_CurrentValue := v\<rparr>)) =
      (run_rule (history (ev_Condition r) bs) (?m\<lparr>ev_CurrentValue := v\<rparr>))\<lparr>ev_CurrentValue := w\<rparr>"
    using Cons.IH [of "?m\<lparr>ev_CurrentValue := v\<rparr>"] by auto
  then show ?case using v b by (auto simp: rule_run_Cons run_rule_value simp del: rule_run.simps intro!: exI [of _ w])
qed

lemma rule_run_alerts:
  assumes "i < length bs"
  shows "(snd (rule_run bs r) ! i \<noteq> [] \<longleftrightarrow>
      ev_State (run_rule (take (Suc i) (history (ev_Condition r) bs)) r) = StateFiring
      \<and> ev_State (run_rule (take i (history (ev_Condition r) bs)) r) \<noteq> StateFiring) \<and> length (snd (rule_run bs r) ! i) \<le> 1"
  using assms
proof (induction bs arbitrary: r i)
  case (Cons b bs)
  obtain ms t where b: "b = (ms, t)" by force
  let ?m = "ConditionMet (batch_met (ev_Condition r) ms) t r"
  obtain v where v: "fst (eval_rule (batch_values ms) t r) = ?m\<lparr>ev_CurrentValue := v\<rparr>" using eval_rule_state(2) by blast
  have snd: "snd (rule_run (b # bs) r) = snd (eval_rule (batch_values ms) t r) # snd (rule_run bs (?m\<lparr>ev_CurrentValue := v\<rparr>))"
    using v b by (simp add: rule_run_Cons del: rule_run.simps)
  have run: "run_rule (take (Suc j) (history (ev_Condition r) (b # bs))) r = run_rule (take j (history (ev_Condition r) bs)) ?m" for j
    by (simp add: b)
  show ?case
  proof (cases i)
    case 0
    then show ?thesis using snd run [of 0] eval_rule_alert [of ms t r] by simp
  next
    case (Suc j)
    then show ?thesis using snd run [of j] run [of "Suc j"] Cons.IH [of j "?m\<lparr>ev_CurrentValue := v\<rparr>"] Cons.prems
      by (simp add: run_rule_value)
  qed
qed simp

text \<open>C8: A rule that starts in the state ok is, after any batches, in the state the history of its condition
  prescribes: ok after a batch that does not meet it, firing once it has been met without a break for the
  configured duration (at once for the duration 0), pending in between. And a batch raises one alert if the
  rule starts to fire with it, otherwise none.\<close>

theorem alerts_follow_history:
  fixes bs :: "(Metric list \<times> time) list"
  assumes "ev_State r = StateOK"
  defines "d \<equiv> ev_Duration r" and "h \<equiv> history (ev_Condition r) bs"
  shows "ev_State (fst (rule_run bs r)) = state_after d h
    \<and> (\<forall>i < length bs. length (snd (rule_run bs r) ! i) \<le> 1
         \<and> (snd (rule_run bs r) ! i \<noteq> [] \<longleftrightarrow>
              state_after d (take (Suc i) h) = StateFiring \<and> state_after d (take i h) \<noteq> StateFiring))"
proof -
  obtain v where v: "fst (rule_run bs r) = (run_rule h r)\<lparr>ev_CurrentValue := v\<rparr>" using rule_run_state h_def by blast
  have st: "ev_State (run_rule hs r) = state_after d hs" for hs using run_rule_inv [OF assms(1)] d_def by blast
  show ?thesis using rule_run_alerts [of _ bs r] st v by (simp add: h_def)
qed

lemma history_nth: "i < length bs \<Longrightarrow> fst (history c bs ! i) = batch_met c (fst (bs ! i))"
  by (simp add: history_def split: prod.splits)

lemma takeWhile_two:
  "length (takeWhile P xs) \<ge> 2 \<Longrightarrow> \<exists>a b ys. xs = a # b # ys \<and> P a \<and> P b"
  by (cases xs; cases "tl xs") (auto split: if_splits)

lemma state_after_no_pair:
  assumes "d \<noteq> 0" "\<not> (\<exists>a b ys. hs = ys @ [a, b] \<and> fst a \<and> fst b)"
  shows "state_after d hs \<noteq> StateFiring"
proof -
  have "\<not> length (takeWhile fst (rev hs)) \<ge> 2"
  proof
    assume "length (takeWhile fst (rev hs)) \<ge> 2"
    then obtain a b ys where "rev hs = a # b # ys" "fst a" "fst b" using takeWhile_two by blast
    then have "hs = rev ys @ [b, a]" by (metis append.simps append_assoc rev.simps rev_rev_ident)
    with \<open>fst a\<close> \<open>fst b\<close> assms(2) show False by blast
  qed
  then have "length (met_run hs) \<le> 1" by (simp add: met_run_def)
  then show ?thesis using assms(1) by (cases "met_run hs") (auto simp: state_after_def)
qed

text \<open>A rule with a duration never fires while the batches of two inputs alternate: every batch without the
  metric of the rule counts as a batch in which its condition is not met. If of any two consecutive batches
  one lacks the metric, no alert is raised, whatever the values.\<close>

theorem alternating_batches_never_fire:
  assumes "ev_State r = StateOK" "ev_Duration r \<noteq> 0"
    and "\<forall>i. Suc i < length bs \<longrightarrow> map_of (batch_values (fst (bs ! i))) (ac_Metric (ev_Condition r)) = None
           \<or> map_of (batch_values (fst (bs ! Suc i))) (ac_Metric (ev_Condition r)) = None"
  shows "concat (snd (rule_run bs r)) = []"
proof -
  let ?h = "history (ev_Condition r) bs"
  have len: "length (snd (rule_run bs r)) = length bs" by (induction bs r rule: rule_run.induct) (auto split: prod.splits)
  have no: "state_after (ev_Duration r) (take (Suc i) ?h) \<noteq> StateFiring" if i: "i < length bs" for i
  proof (rule state_after_no_pair [OF assms(2)], rule notI)
    assume "\<exists>a b ys. take (Suc i) ?h = ys @ [a, b] \<and> fst a \<and> fst b"
    then obtain a b ys where ab: "take (Suc i) ?h = ys @ [a, b]" "fst a" "fst b" by blast
    have l: "length ?h = length bs" by (simp add: history_def)
    have "length (take (Suc i) ?h) = Suc (Suc (length ys))" using ab(1) by simp
    then obtain j where j: "i = Suc j" "length ys = j" using l i by (cases i) auto
    have "take (Suc i) ?h ! j = a" "take (Suc i) ?h ! Suc j = b" using ab(1) j by (simp_all add: nth_append)
    then have "?h ! j = a" "?h ! Suc j = b" using j by simp_all
    then have "batch_met (ev_Condition r) (fst (bs ! j))" "batch_met (ev_Condition r) (fst (bs ! Suc j))"
      using ab(2,3) history_nth [of j bs "ev_Condition r"] history_nth [of "Suc j" bs "ev_Condition r"] i j by auto
    with assms(3) i j show False by (auto simp: batch_met_def)
  qed
  have st: "ev_State (run_rule hs r) = state_after (ev_Duration r) hs" for hs using run_rule_inv [OF assms(1)] by blast
  have "snd (rule_run bs r) ! i = []" if "i < length bs" for i
    using rule_run_alerts [OF that, of r] no [OF that] st by auto
  then show ?thesis using len by (auto simp: in_set_conv_nth)
qed

subsection \<open>Conditions as the agent writes them\<close>

lemma takeWhile_name: "list_all (\<lambda>c. \<not> re_space c) m \<Longrightarrow> takeWhile (\<lambda>c. \<not> re_space c) (m @ '' '' @ t) = m"
  by (induction m) (auto simp: re_space_def)

lemma dropWhile_nonspace: "list_all (\<lambda>c. \<not> re_space c) t \<Longrightarrow> dropWhile re_space t = t"
  by (cases t) auto

lemma match_value_space:
  "t \<noteq> [] \<Longrightarrow> list_all (\<lambda>c. \<not> re_space c) t \<Longrightarrow> match_value ('' '' @ t) = Some t"
  by (auto simp: match_value_def Let_def dropWhile_nonspace re_space_def list_all_iff)

lemma match_value_eq:
  "t \<noteq> [] \<Longrightarrow> list_all (\<lambda>c. \<not> re_space c) t \<Longrightarrow> match_value (''= '' @ t) = Some (''= '' @ t)"
  by (auto simp: match_value_def Let_def re_space_def list_all_iff)

lemma match_name_first:
  assumes "m \<noteq> []" "match_ops cond_ops (dropWhile re_space s) = Some (op, v)"
  shows "match_name (length m) (m @ s) = Some (m, op, v)"
  using assms by (cases m) auto

lemma match_agent_ops:
  assumes "op \<in> set validOps" "t \<noteq> []" "list_all (\<lambda>c. \<not> re_space c) t"
  shows "match_ops cond_ops (dropWhile re_space ('' '' @ op @ '' '' @ t))
    = Some (if op = ''>='' then (''>'', ''= '' @ t) else if op = ''<='' then (''<'', ''= '' @ t) else (op, t))"
proof -
  note v = match_value_space [OF assms(2,3), simplified] match_value_eq [OF assms(2,3), simplified]
  from assms(1) consider "op = ''>''" | "op = ''<''" | "op = ''>=''" | "op = ''<=''" | "op = ''==''" | "op = ''!=''"
    unfolding validOps_def by auto
  then show ?thesis by cases (simp_all add: cond_ops_def re_space_def HasPrefix_def v)
qed

lemma parse_agent_condition:
  assumes "m \<noteq> []" "list_all (\<lambda>c. \<not> re_space c) m" "op \<in> set validOps" "t \<noteq> []" "list_all (\<lambda>c. \<not> re_space c) t"
  shows "parseCondition (m @ '' '' @ op @ '' '' @ t) =
    (if op = ''>='' \<or> op = ''<='' then Inl ''invalid threshold: %s''
     else case ParseFloat t of None \<Rightarrow> Inl ''invalid threshold: %s''
          | Some x \<Rightarrow> Inr \<lparr>ac_Metric = m, ac_Operator = op, ac_Threshold = x\<rparr>)"
proof -
  have "conditionPattern (m @ '' '' @ op @ '' '' @ t) = Some (m,
      if op = ''>='' then (''>'', ''= '' @ t) else if op = ''<='' then (''<'', ''= '' @ t) else (op, t))"
    using match_name_first [OF assms(1), of "'' '' @ op @ '' '' @ t"] match_agent_ops [OF assms(3-5)] takeWhile_name [OF assms(2)]
    unfolding conditionPattern_def by (auto split: if_splits)
  then show ?thesis by (auto simp: parseCondition_def ParseFloat_equals)
qed

text \<open>Of the alerting rules that pass validation the engine keeps those with the operators >, <, == and !=, with
  the same metric, operator and threshold, and silently drops every rule with >= or <=: the alternation of
  the pattern takes the operator for > or < and the rest is no number.\<close>

theorem agent_rules_kept:
  assumes "first_err (validate_rule r) = None" "list_all (\<lambda>c. \<not> re_space c) (acond_Metric (arule_Condition r))"
    and "fmt_v (acond_Threshold (arule_Condition r)) \<noteq> []"
        "list_all (\<lambda>c. \<not> re_space c) (fmt_v (acond_Threshold (arule_Condition r)))"
        "ParseFloat (fmt_v (acond_Threshold (arule_Condition r))) = Some (acond_Threshold (arule_Condition r))"
  shows "map_option ev_Condition (new_rule (agent_rule fmt_v r)) =
    (if acond_Operator (arule_Condition r) = ''>='' \<or> acond_Operator (arule_Condition r) = ''<='' then None
     else Some \<lparr>ac_Metric = acond_Metric (arule_Condition r), ac_Operator = acond_Operator (arule_Condition r),
                ac_Threshold = acond_Threshold (arule_Condition r)\<rparr>)"
proof -
  have "acond_Metric (arule_Condition r) \<noteq> []" "acond_Operator (arule_Condition r) \<in> set validOps"
    using assms(1) by (auto simp: validate_rule_def fail_if_def split: if_splits)
  from parse_agent_condition [OF this(1) assms(2) this(2) assms(3,4)] assms(5) show ?thesis
    by (simp add: new_rule_def agent_rule_def)
qed

abbreviation cpu_rule :: "string \<Rightarrow> AlertRule" where
  "cpu_rule op \<equiv> \<lparr>arule_Name = ''cpu'', arule_Condition = \<lparr>acond_Metric = ''cpu_usage'', acond_Operator = op,
     acond_Threshold = Fin 80, acond_For = ''1m''\<rparr>, arule_Severity = ''high'', arule_Notify = None\<rparr>"

lemma parse_80: "ParseFloat ''80'' = Some (Fin 80)"
proof -
  have "takeWhile is_digit ''80'' = ''80''" "dropWhile is_digit ''80'' = []" "digits_value ''80'' = 80"
    by code_simp+
  moreover have "rnd 80 = Fin 80" using rnd_int [of 80] by simp
  ultimately show ?thesis
    by (simp add: ParseFloat_def parse_decimal_def Let_def HasPrefix_def ToLower_def to_lower_char_def parse_exp_def pow10_def)
qed

theorem agent_rules_kept_witness:
  "first_err (validate_rule (cpu_rule ''>='')) = None \<and> new_rule (agent_rule (\<lambda>_. ''80'') (cpu_rule ''>='')) = None
   \<and> new_rule (agent_rule (\<lambda>_. ''80'') (cpu_rule ''>'')) \<noteq> None"
proof -
  have v: "first_err (validate_rule (cpu_rule op)) = None" if "op \<in> {''>'', ''>=''}" for op
    using that by (elim insertE) (simp_all add: validate_rule_def fail_if_def validOps_def)
  have "new_rule (agent_rule (\<lambda>_. ''80'') (cpu_rule ''>='')) = None"
    using agent_rules_kept [of "cpu_rule ''>=''" "\<lambda>_. ''80''"] v [of "''>=''"] parse_80 by (simp add: re_space_def)
  moreover have "new_rule (agent_rule (\<lambda>_. ''80'') (cpu_rule ''>'')) \<noteq> None"
    using agent_rules_kept [of "cpu_rule ''>''" "\<lambda>_. ''80''"] v [of "''>''"] parse_80 by (auto simp: re_space_def)
  ultimately show ?thesis using v [of "''>=''"] by blast
qed

subsection \<open>Examples of rules\<close>

abbreviation cpu_eval :: "duration \<Rightarrow> EvaluatedRule" where
  "cpu_eval d \<equiv> \<lparr>ev_Name = ''cpu'', ev_Condition = \<lparr>ac_Metric = ''cpu_usage'', ac_Operator = ''>'', ac_Threshold = Fin 80\<rparr>,
     ev_Severity = ''high'', ev_Duration = d, ev_State = StateOK, ev_TriggeredAt = zero_time, ev_CurrentValue = Fin 0\<rparr>"

abbreviation cpu_batch :: "Metric list" where
  "cpu_batch \<equiv> [NewMetric ''cpu'' [] [(''usage'', GFloat64 (Fin 90))] Gauge 0]"

abbreviation mem_batch :: "Metric list" where
  "mem_batch \<equiv> [NewMetric ''mem'' [] [(''used'', GFloat64 (Fin 50))] Gauge 0]"

lemma batch_values_ex: "batch_values cpu_batch = [(''cpu_usage'', Fin 90)]" "batch_values mem_batch = [(''mem_used'', Fin 50)]"
  by (simp_all add: batch_values_def metric_values_def Fields_def NewMetric_def map_copy_def alert_number_def)

theorem alerts_follow_history_witness:
  "ev_State (fst (rule_run [(cpu_batch, 0), (cpu_batch, 10)] (cpu_eval 5))) = StateFiring
   \<and> snd (rule_run [(cpu_batch, 0), (cpu_batch, 10)] (cpu_eval 5)) ! 1 \<noteq> []"
proof -
  have "batch_met (ev_Condition (cpu_eval 5)) cpu_batch" by (simp add: batch_met_def batch_values_ex cond_Evaluate_def)
  then have "history (ev_Condition (cpu_eval 5)) [(cpu_batch, 0), (cpu_batch, 10)] = [(True, 0), (True, 10)]" by simp
  moreover have "state_after 5 [(True, 0), (True, 10)] = StateFiring" "state_after 5 [(True, 0)] = StatePending"
    by (simp_all add: state_after_def met_run_def time_sub_def)
  ultimately show ?thesis
    using alerts_follow_history [of "cpu_eval 5" "[(cpu_batch, 0), (cpu_batch, 10)]"] by (simp del: rule_run.simps history_simps)
qed

theorem alternating_batches_never_fire_witness:
  "concat (snd (rule_run [(cpu_batch, 0), (mem_batch, 1), (cpu_batch, 10), (mem_batch, 11), (cpu_batch, 20)] (cpu_eval 5))) = []"
proof (rule alternating_batches_never_fire)
  let ?bs = "[(cpu_batch, 0), (mem_batch, 1), (cpu_batch, 10), (mem_batch, 11), (cpu_batch, 20)]"
  show "\<forall>i. Suc i < length ?bs \<longrightarrow> map_of (batch_values (fst (?bs ! i))) (ac_Metric (ev_Condition (cpu_eval 5))) = None
      \<or> map_of (batch_values (fst (?bs ! Suc i))) (ac_Metric (ev_Condition (cpu_eval 5))) = None"
    by (auto simp: less_Suc_eq batch_values_ex)
qed simp_all

end
