(* ===== verification/Federation.thy ===== *)
theory Federation
imports Config Metrics Interfaces "HOL-Library.Multiset"
begin

text \<open>
  The federation of a hub with its leaves (\<open>internal/federation\<close>): dynamic groups (\<open>group.go\<close>),
  inherited configuration (\<open>config_distributor.go\<close>), registration and heartbeats (\<open>server.go\<close>)
  and staged rollouts (\<open>canary.go\<close>).
\<close>

subsection \<open>leaf_state.go\<close>

record LeafState =
  ls_AgentID :: string
  ls_Hostname :: string
  ls_IP :: string
  ls_Version :: string
  ls_Labels :: "string gomap"
  ls_AutoLabels :: "string gomap"
  ls_Groups :: "string list"
  ls_LastSeen :: time
  ls_Status :: string
  ls_ConfigVersion :: string

definition LeafStatusOnline :: string where "LeafStatusOnline = ''online''"

definition AllLabels :: "LeafState \<Rightarrow> string gomap" where
  "AllLabels ls = map_copy (map_copy [] (ls_AutoLabels ls)) (ls_Labels ls)"

subsection \<open>group.go\<close>

record GroupRule =
  gr_Name :: string
  gr_Match :: "string gomap"

record GroupEngine =
  ge_rules :: "GroupRule list"
  ge_leafStates :: "LeafState gomap"
  ge_groupIndex :: "bool gomap gomap"

definition NewGroupEngine :: "GroupRule list \<Rightarrow> GroupEngine" where
  "NewGroupEngine rules = \<lparr>ge_rules = rules, ge_leafStates = [], ge_groupIndex = []\<rparr>"

text \<open>A label that is not there reads as the empty string.\<close>

definition matchesAll :: "string gomap \<Rightarrow> string gomap \<Rightarrow> bool" where
  "matchesAll labels match = list_all (\<lambda>(k, v). (case map_of labels k of Some x \<Rightarrow> x | None \<Rightarrow> []) = v) match"

definition ge_Evaluate :: "GroupRule list \<Rightarrow> LeafState \<Rightarrow> string list" where
  "ge_Evaluate rules leaf = map gr_Name (filter (\<lambda>r. matchesAll (AllLabels leaf) (gr_Match r)) rules)"

definition members :: "bool gomap gomap \<Rightarrow> string \<Rightarrow> bool gomap" where
  "members idx g = (case map_of idx g of Some m \<Rightarrow> m | None \<Rightarrow> [])"

definition leafGroups :: "bool gomap gomap \<Rightarrow> string \<Rightarrow> string list" where
  "leafGroups idx agentID = map fst (filter (\<lambda>(g, m). map_of m agentID = Some True) idx)"

definition remove_member :: "string \<Rightarrow> string \<Rightarrow> bool gomap gomap \<Rightarrow> bool gomap gomap" where
  "remove_member agentID g idx =
     (case map_of idx g of
        None \<Rightarrow> idx
      | Some m \<Rightarrow> (let m' = map_del agentID m in if m' = [] then map_del g idx else map_put g m' idx))"

definition add_member :: "string \<Rightarrow> string \<Rightarrow> bool gomap gomap \<Rightarrow> bool gomap gomap" where
  "add_member agentID g idx = map_put g (map_put agentID True (members idx g)) idx"

text \<open>The leaf is shared by pointer: the updated leaf is returned with the engine.\<close>

definition UpdateLeaf :: "LeafState \<Rightarrow> GroupEngine \<Rightarrow> LeafState \<times> GroupEngine" where
  "UpdateLeaf leaf ge =
     (let oldGroups = leafGroups (ge_groupIndex ge) (ls_AgentID leaf);
          newGroups = ge_Evaluate (ge_rules ge) leaf;
          idx1 = fold (remove_member (ls_AgentID leaf)) (filter (\<lambda>g. g \<notin> set newGroups) oldGroups) (ge_groupIndex ge);
          idx2 = fold (add_member (ls_AgentID leaf)) newGroups idx1;
          leaf' = leaf\<lparr>ls_Groups := newGroups\<rparr>
      in (leaf', ge\<lparr>ge_groupIndex := idx2, ge_leafStates := map_put (ls_AgentID leaf) leaf' (ge_leafStates ge)\<rparr>))"

definition RemoveLeaf :: "string \<Rightarrow> GroupEngine \<Rightarrow> GroupEngine" where
  "RemoveLeaf agentID ge =
     (case map_of (ge_leafStates ge) agentID of
        None \<Rightarrow> ge
      | Some leaf \<Rightarrow>
          ge\<lparr>ge_groupIndex := fold (remove_member agentID) (ls_Groups leaf) (ge_groupIndex ge),
             ge_leafStates := map_del agentID (ge_leafStates ge)\<rparr>)"

definition GetGroupMembers :: "GroupEngine \<Rightarrow> string \<Rightarrow> string slice" where
  "GetGroupMembers ge g =
     (let m = members (ge_groupIndex ge) g in if m = [] then None else Some (sort (map fst m)))"

subsection \<open>The groups follow the labels\<close>

declare map_of_eq_Some_iff [simp del]

definition idx_ok :: "bool gomap gomap \<Rightarrow> bool" where
  "idx_ok idx \<longleftrightarrow> map_ok idx
     \<and> (\<forall>g m. map_of idx g = Some m \<longrightarrow> map_ok m \<and> m \<noteq> [] \<and> (\<forall>a. map_of m a \<noteq> Some False))"

definition in_group :: "bool gomap gomap \<Rightarrow> string \<Rightarrow> string \<Rightarrow> bool" where
  "in_group idx g a \<longleftrightarrow> map_of (members idx g) a \<noteq> None"

lemma map_put_ne [simp]: "map_put k v m \<noteq> []"
  by (cases m) auto

lemma map_ok_single [simp]: "map_ok [p]"
  by (simp add: map_ok_def)

lemma remove_member_ok [inv_intros]: "idx_ok idx \<Longrightarrow> idx_ok (remove_member a g idx)"
  by (auto simp: remove_member_def idx_ok_def Let_def split: option.splits if_splits intro: inv_intros)

lemma add_member_ok [inv_intros]: "idx_ok idx \<Longrightarrow> idx_ok (add_member a g idx)"
  by (auto simp: add_member_def idx_ok_def members_def split: option.splits if_splits intro: inv_intros)

lemma in_group_remove: "in_group (remove_member a g idx) g' b \<longleftrightarrow> in_group idx g' b \<and> \<not> (g' = g \<and> b = a)"
proof -
  have "map_of m b = None" if "map_del a m = []" "b \<noteq> a" for m :: "bool gomap"
    using that map_of_del [of a m] by (metis fun_upd_apply map_of.simps(1))
  then show ?thesis
    by (auto simp: remove_member_def in_group_def members_def Let_def split: option.splits if_splits)
qed

lemma in_group_add: "in_group (add_member a g idx) g' b \<longleftrightarrow> in_group idx g' b \<or> (g' = g \<and> b = a)"
  by (auto simp: add_member_def in_group_def members_def split: option.splits if_splits)

lemma fold_remove:
  "idx_ok idx \<Longrightarrow> idx_ok (fold (remove_member a) gs idx)"
  "in_group (fold (remove_member a) gs idx) g' b \<longleftrightarrow> in_group idx g' b \<and> \<not> (g' \<in> set gs \<and> b = a)"
  by (induction gs arbitrary: idx) (auto simp: in_group_remove remove_member_ok)

lemma fold_add:
  "idx_ok idx \<Longrightarrow> idx_ok (fold (add_member a) gs idx)"
  "in_group (fold (add_member a) gs idx) g' b \<longleftrightarrow> in_group idx g' b \<or> (g' \<in> set gs \<and> b = a)"
  by (induction gs arbitrary: idx) (auto simp: in_group_add add_member_ok)

lemma leafGroups_iff:
  assumes "idx_ok idx"
  shows "g \<in> set (leafGroups idx a) \<longleftrightarrow> in_group idx g a"
proof -
  have "g \<in> set (leafGroups idx a) \<longleftrightarrow> (\<exists>m. map_of idx g = Some m \<and> map_of m a = Some True)"
    using assms by (force simp: leafGroups_def idx_ok_def map_of_eq_Some_iff)
  also have "\<dots> \<longleftrightarrow> in_group idx g a"
    using assms by (auto simp: in_group_def members_def idx_ok_def split: option.splits) (metis (full_types))
  finally show ?thesis .
qed

definition ge_ok :: "GroupRule list \<Rightarrow> GroupEngine \<Rightarrow> bool" where
  "ge_ok rules ge \<longleftrightarrow> ge_rules ge = rules \<and> idx_ok (ge_groupIndex ge) \<and> map_ok (ge_leafStates ge)
     \<and> (\<forall>a leaf. map_of (ge_leafStates ge) a = Some leaf \<longrightarrow> ls_AgentID leaf = a \<and> ls_Groups leaf = ge_Evaluate rules leaf)
     \<and> (\<forall>g a. in_group (ge_groupIndex ge) g a \<longleftrightarrow> (\<exists>leaf. map_of (ge_leafStates ge) a = Some leaf \<and> g \<in> set (ls_Groups leaf)))"

lemma Evaluate_Groups [simp]: "ge_Evaluate rules (leaf\<lparr>ls_Groups := gs\<rparr>) = ge_Evaluate rules leaf"
  by (simp add: ge_Evaluate_def AllLabels_def)

lemma UpdateLeaf_ok: "ge_ok rules ge \<Longrightarrow> ge_ok rules (snd (UpdateLeaf leaf ge))"
  unfolding ge_ok_def UpdateLeaf_def Let_def
  by (auto simp: fold_remove fold_add leafGroups_iff intro: inv_intros)

lemma RemoveLeaf_ok: "ge_ok rules ge \<Longrightarrow> ge_ok rules (RemoveLeaf a ge)"
  unfolding ge_ok_def RemoveLeaf_def
  by (auto simp: fold_remove split: option.splits intro: inv_intros)

datatype ge_event = Update LeafState | Remove string

fun ge_step :: "ge_event \<Rightarrow> GroupEngine \<Rightarrow> GroupEngine" where
  "ge_step (Update leaf) ge = snd (UpdateLeaf leaf ge)"
| "ge_step (Remove a) ge = RemoveLeaf a ge"

interpretation groups: invariant_machine ge_step "ge_ok rules" for rules
proof
  show "ge_ok rules s \<Longrightarrow> ge_ok rules (ge_step e s)" for s e by (cases e) (simp_all add: UpdateLeaf_ok RemoveLeaf_ok)
qed

lemma ge_ok_New: "ge_ok rules (NewGroupEngine rules)"
  by (simp add: ge_ok_def NewGroupEngine_def idx_ok_def in_group_def members_def)

lemma GetGroupMembers_ok:
  assumes "ge_ok rules ge"
  shows "elems (GetGroupMembers ge g) =
    sorted_list_of_set {a. \<exists>leaf. map_of (ge_leafStates ge) a = Some leaf \<and> g \<in> set (ge_Evaluate rules leaf)}"
proof -
  let ?m = "members (ge_groupIndex ge) g"
  have "map_ok ?m" using assms by (auto simp: ge_ok_def idx_ok_def members_def split: option.splits)
  then have "sort (map fst ?m) = sorted_list_of_set (set (map fst ?m))"
    by (metis distinct_remdups_id map_ok_distinct sorted_list_of_set_sort_remdups)
  moreover have "set (map fst ?m) = {a. in_group (ge_groupIndex ge) g a}"
    by (auto simp: in_group_def map_of_eq_None_iff image_iff)
  moreover have "in_group (ge_groupIndex ge) g a \<longleftrightarrow> (\<exists>leaf. map_of (ge_leafStates ge) a = Some leaf \<and> g \<in> set (ge_Evaluate rules leaf))" for a
    using assms unfolding ge_ok_def by metis
  moreover have "elems (GetGroupMembers ge g) = sort (map fst ?m)"
    by (simp add: GetGroupMembers_def elems_def Let_def)
  ultimately show ?thesis by simp
qed

subsection \<open>config_distributor.go\<close>

text \<open>A nil map reads as an empty one.\<close>

definition mapelems :: "'v gomap option \<Rightarrow> 'v gomap" where
  "mapelems m = (case m of Some kvs \<Rightarrow> kvs | None \<Rightarrow> [])"

fun deepCopy :: "goval \<Rightarrow> goval" where
  "deepCopy (GMap m) = GMap (map (\<lambda>(k, v). (k, deepCopy v)) m)"
| "deepCopy (GList xs) = GList (map deepCopy xs)"
| "deepCopy v = v"

definition deepCopyMap :: "goval gomap \<Rightarrow> goval gomap" where
  "deepCopyMap m = map (\<lambda>(k, v). (k, deepCopy v)) m"

text \<open>The loop of \<open>deepMerge\<close> over the entries of the source.\<close>

fun merge_into :: "goval gomap \<Rightarrow> (string \<times> goval) list \<Rightarrow> goval gomap" where
  "merge_into result [] = result"
| "merge_into result ((k, GMap s) # src) =
     (case map_of result k of
        Some (GMap d) \<Rightarrow> merge_into (map_put k (GMap (merge_into (deepCopyMap d) s)) result) src
      | _ \<Rightarrow> merge_into (map_put k (deepCopy (GMap s)) result) src)"
| "merge_into result ((k, v) # src) = merge_into (map_put k (deepCopy v) result) src"

definition deepMerge :: "goval gomap \<Rightarrow> goval gomap \<Rightarrow> goval gomap" where
  "deepMerge dst src = merge_into (deepCopyMap dst) src"

text \<open>The two nested loops that sort the groups: one pass brings the least of the rest to the front.\<close>

fun exchange_pass :: "string \<Rightarrow> string list \<Rightarrow> string \<times> string list" where
  "exchange_pass x [] = (x, [])"
| "exchange_pass x (y # ys) =
     (if x > y then (case exchange_pass y ys of (m, r) \<Rightarrow> (m, x # r))
      else (case exchange_pass x ys of (m, r) \<Rightarrow> (m, y # r)))"

lemma length_exchange_pass: "exchange_pass x xs = (m, r) \<Longrightarrow> length r = length xs"
  by (induction x xs arbitrary: m r rule: exchange_pass.induct) (auto split: if_splits prod.splits)

function exchange_sort :: "string list \<Rightarrow> string list" where
  "exchange_sort [] = []"
| "exchange_sort (x # xs) = (case exchange_pass x xs of (m, r) \<Rightarrow> m # exchange_sort r)"
  by pat_completeness auto
termination by (relation "measure length") (auto dest!: sym [of _ "exchange_pass x y" for x y] simp: length_exchange_pass)

record ConfigLevels =
  lv_Global :: "goval gomap option"
  lv_Regions :: "(goval gomap option) gomap option"
  lv_Groups :: "(goval gomap option) gomap option"
  lv_Agents :: "(goval gomap option) gomap option"

definition convertConfigLevels :: "ConfigLevelsConfig \<Rightarrow> ConfigLevels" where
  "convertConfigLevels c = \<lparr>lv_Global = clev_Global c, lv_Regions = clev_Regions c, lv_Groups = clev_Groups c,
     lv_Agents = clev_Agents c\<rparr>"

definition merge_level :: "(goval gomap option) gomap option \<Rightarrow> string \<Rightarrow> goval gomap \<Rightarrow> goval gomap" where
  "merge_level level key result =
     (case map_of (mapelems level) key of Some cfg \<Rightarrow> deepMerge result (mapelems cfg) | None \<Rightarrow> result)"

definition ResolveConfig :: "ConfigLevels \<Rightarrow> string \<Rightarrow> string \<Rightarrow> string list \<Rightarrow> goval gomap" where
  "ResolveConfig lv agentID region groups =
     (let r0 = deepCopyMap (mapelems (lv_Global lv));
          r1 = merge_level (lv_Regions lv) region r0;
          r2 = (if groups \<noteq> [] then fold (merge_level (lv_Groups lv)) (exchange_sort groups) r1 else r1)
      in merge_level (lv_Agents lv) agentID r2)"

subsection \<open>Lemmas on sorting\<close>

lemma exchange_pass_spec:
  "exchange_pass x xs = (m, r) \<Longrightarrow> mset (m # r) = mset (x # xs) \<and> (\<forall>y \<in> set r. m \<le> y)"
proof (induction x xs arbitrary: m r rule: exchange_pass.induct)
  case (2 x y ys)
  show ?case
  proof (cases "x > y")
    case True
    then obtain r' where r: "exchange_pass y ys = (m, r')" "r = x # r'" using 2(3) by (auto split: prod.splits)
    then have ih: "mset (m # r') = mset (y # ys)" "\<forall>z \<in> set r'. m \<le> z" using 2(1) [OF True r(1)] by auto
    then have "m \<le> y" by (metis set_ConsD set_mset_mset list.set_intros(1) order_refl)
    with True ih r(2) show ?thesis by auto
  next
    case False
    then obtain r' where r: "exchange_pass x ys = (m, r')" "r = y # r'" using 2(3) by (auto split: prod.splits)
    then have ih: "mset (m # r') = mset (x # ys)" "\<forall>z \<in> set r'. m \<le> z" using 2(2) [OF False r(1)] by auto
    then have "m \<le> x" by (metis set_ConsD set_mset_mset list.set_intros(1) order_refl)
    with False ih r(2) show ?thesis by auto
  qed
qed simp

lemma exchange_sort: "exchange_sort xs = sort xs"
proof (rule sym, rule properties_for_sort)
  show mset: "mset (exchange_sort xs) = mset xs" for xs
  proof (induction xs rule: exchange_sort.induct)
    case (2 x xs)
    obtain m r where "exchange_pass x xs = (m, r)" by force
    with 2 exchange_pass_spec show ?case by (metis (no_types, lifting) case_prod_conv exchange_sort.simps(2) mset.simps(2))
  qed simp
  show "sorted (exchange_sort xs)"
  proof (induction xs rule: exchange_sort.induct)
    case (2 x xs)
    obtain m r where mr: "exchange_pass x xs = (m, r)" by force
    have "set (exchange_sort r) = set r" by (rule mset_eq_setD [OF mset])
    with 2 mr exchange_pass_spec [OF mr] show ?case by simp
  qed simp
qed

lemma deepCopy_id [simp]: "deepCopy v = v"
  by (induction v) (auto simp: map_idI case_prod_beta snds.simps intro!: map_idI)

lemma deepCopyMap_id [simp]: "deepCopyMap m = m"
  by (simp add: deepCopyMap_def)

subsection \<open>Lookup along a path\<close>

text \<open>The scalar at a path, and whether a configuration says anything about a path.\<close>

fun scalar_get :: "goval gomap \<Rightarrow> string list \<Rightarrow> goval option" where
  "scalar_get m [] = None"
| "scalar_get m (k # ks) =
     (case map_of m k of
        None \<Rightarrow> None
      | Some (GMap m') \<Rightarrow> scalar_get m' ks
      | Some v \<Rightarrow> if ks = [] then Some v else None)"

fun touches :: "goval gomap \<Rightarrow> string list \<Rightarrow> bool" where
  "touches m [] = True"
| "touches m (k # ks) =
     (case map_of m k of
        None \<Rightarrow> False
      | Some (GMap m') \<Rightarrow> touches m' ks
      | Some v \<Rightarrow> True)"

text \<open>Maps with distinct keys at every level.\<close>

fun gv_ok :: "goval \<Rightarrow> bool" where
  "gv_ok (GMap m) = (distinct (map fst m) \<and> list_all (\<lambda>(k, v). gv_ok v) m)"
| "gv_ok v = True"

definition gm_ok :: "goval gomap \<Rightarrow> bool" where
  "gm_ok m = gv_ok (GMap m)"

lemma gm_ok_simps [simp]:
  "gm_ok []" "gm_ok ((k, v) # m) \<longleftrightarrow> k \<notin> fst ` set m \<and> gv_ok v \<and> gm_ok m"
  by (auto simp: gm_ok_def)

text \<open>What merging does to a single key.\<close>

definition merge_value :: "goval option \<Rightarrow> goval \<Rightarrow> goval" where
  "merge_value old v =
     (case v of
        GMap s \<Rightarrow> (case old of Some (GMap d) \<Rightarrow> GMap (merge_into d s) | _ \<Rightarrow> v)
      | _ \<Rightarrow> v)"

lemma merge_into_Cons: "merge_into result ((k, v) # src) = merge_into (map_put k (merge_value (map_of result k) v) result) src"
  by (cases v) (auto simp: merge_value_def split: option.splits goval.splits)

lemma map_of_merge:
  assumes "distinct (map fst src)"
  shows "map_of (merge_into result src) k =
    (case map_of src k of None \<Rightarrow> map_of result k | Some v \<Rightarrow> Some (merge_value (map_of result k) v))"
  using assms
proof (induction src arbitrary: result)
  case (Cons p src)
  obtain k' v where p: "p = (k', v)" by force
  show ?case
  proof (cases "k = k'")
    case True
    with Cons.prems p have "map_of src k = None" by (simp add: map_of_eq_None_iff)
    with Cons p True show ?thesis by (simp add: merge_into_Cons del: merge_into.simps)
  next
    case False
    with Cons p show ?thesis by (simp add: merge_into_Cons del: merge_into.simps split: option.splits)
  qed
qed simp

lemma untouched: "\<not> touches m p \<Longrightarrow> scalar_get m p = None"
  by (induction m p rule: scalar_get.induct) (auto split: option.splits goval.splits)

lemma scalar_merge:
  "gm_ok src \<Longrightarrow> scalar_get (merge_into dst src) p = (if touches src p then scalar_get src p else scalar_get dst p)"
proof (induction p arbitrary: dst src)
  case (Cons k ks)
  have d: "distinct (map fst src)" using Cons.prems by (simp add: gm_ok_def)
  show ?case
  proof (cases "map_of src k")
    case None
    then show ?thesis by (simp add: map_of_merge [OF d])
  next
    case (Some v)
    show ?thesis
    proof (cases v)
      case (GMap s)
      have ok: "gm_ok s" using map_of_SomeD [OF Some] GMap Cons.prems
        by (fastforce simp: gm_ok_def list_all_iff)
      have m: "map_of (merge_into dst src) k = Some (merge_value (map_of dst k) (GMap s))"
        using Some GMap by (simp add: map_of_merge [OF d])
      show ?thesis
      proof (cases "map_of dst k")
        case None
        with m Some GMap Cons.IH [OF ok, of "[]"] show ?thesis by (simp add: merge_value_def untouched)
      next
        case (Some w)
        with m \<open>map_of src k = Some v\<close> GMap Cons.IH [OF ok] show ?thesis
          by (cases w) (simp_all add: merge_value_def untouched)
      qed
    qed (use Some in \<open>simp_all add: map_of_merge [OF d] merge_value_def split: option.splits\<close>)
  qed
qed simp

subsection \<open>The levels that apply to an agent\<close>

definition level_entry :: "(goval gomap option) gomap option \<Rightarrow> string \<Rightarrow> goval gomap list" where
  "level_entry level key = (case map_of (mapelems level) key of Some cfg \<Rightarrow> [mapelems cfg] | None \<Rightarrow> [])"

definition applicable :: "ConfigLevels \<Rightarrow> string \<Rightarrow> string \<Rightarrow> string list \<Rightarrow> goval gomap list" where
  "applicable lv agentID region groups =
     mapelems (lv_Global lv) # level_entry (lv_Regions lv) region @
     concat (map (level_entry (lv_Groups lv)) (sort groups)) @ level_entry (lv_Agents lv) agentID"

lemma merge_level_fold: "merge_level level key result = fold (\<lambda>c r. deepMerge r c) (level_entry level key) result"
  by (auto simp: merge_level_def level_entry_def split: option.splits)

lemma fold_merge_level:
  "fold (merge_level level) keys result = fold (\<lambda>c r. deepMerge r c) (concat (map (level_entry level) keys)) result"
  by (induction keys arbitrary: result) (simp_all add: merge_level_fold)

lemma ResolveConfig_fold:
  "ResolveConfig lv agentID region groups = fold (\<lambda>c r. deepMerge r c) (tl (applicable lv agentID region groups)) (mapelems (lv_Global lv))"
  by (cases "groups = []")
     (simp_all add: ResolveConfig_def applicable_def Let_def merge_level_fold fold_merge_level exchange_sort deepCopyMap_id)

lemma scalar_fold_merge:
  "list_all gm_ok cs \<Longrightarrow>
   scalar_get (fold (\<lambda>c r. deepMerge r c) cs r) p =
     (case filter (\<lambda>c. touches c p) (rev (r # cs)) of [] \<Rightarrow> None | c # _ \<Rightarrow> scalar_get c p)"
proof (induction cs rule: rev_induct)
  case Nil
  then show ?case by (simp add: untouched)
next
  case (snoc c cs)
  then show ?case by (simp add: deepMerge_def deepCopyMap_id scalar_merge)
qed

subsection \<open>server.go and hub.go\<close>

text \<open>
  \<open>json.Marshal\<close> and the hex form of the first eight bytes of the SHA-256 digest are the
  parameters \<open>marshal\<close> and \<open>digest\<close>. The engine and the server hold the same leaf object, so
  what the server writes to a leaf is written in both tables.
\<close>

definition GetConfigVersion ::
    "(goval gomap \<Rightarrow> string result) \<Rightarrow> (string \<Rightarrow> string) \<Rightarrow> ConfigLevels \<Rightarrow> string \<Rightarrow> string \<Rightarrow> string list \<Rightarrow> string \<times> err" where
  "GetConfigVersion marshal digest lv agentID region groups =
     (case marshal (ResolveConfig lv agentID region groups) of
        Inl e \<Rightarrow> ([], Some (''marshal config: '' @ e))
      | Inr data \<Rightarrow> (digest data, None))"

record FedAgentRegistration =
  reg_AgentId :: string
  reg_Hostname :: string
  reg_Ip :: string
  reg_Version :: string
  reg_Labels :: "string gomap"
  reg_AutoLabels :: "string gomap"

record FedRegisterResponse =
  rr_Accepted :: bool
  rr_AssignedRegion :: string
  rr_AssignedGroups :: "string list"
  rr_ConfigVersion :: string
  rr_RejectionReason :: string

record FedHeartbeatRequest =
  hb_AgentId :: string
  hb_Labels :: "string gomap"

record FedHeartbeatResponse =
  hr_Ok :: bool
  hr_ConfigVersion :: string
  hr_ConfigUpdateAvailable :: bool

record FedConfigUpdate =
  fcu_Version :: string
  fcu_Config :: "goval gomap"

record HubServer =
  hs_Region :: string
  hs_MaxLeaves :: int
  hs_engine :: GroupEngine
  hs_levels :: ConfigLevels
  hs_leaves :: "LeafState gomap"
  hs_configPushCh :: "FedConfigUpdate list gomap"

text \<open>Writing the shared leaf object.\<close>

definition write_leaf :: "LeafState \<Rightarrow> HubServer \<Rightarrow> HubServer" where
  "write_leaf leaf s =
     s\<lparr>hs_leaves := map_put (ls_AgentID leaf) leaf (hs_leaves s),
       hs_engine := (hs_engine s)\<lparr>ge_leafStates := map_put (ls_AgentID leaf) leaf (ge_leafStates (hs_engine s))\<rparr>\<rparr>"

text \<open>\<open>GroupEngine.UpdateLeaf\<close> as the server calls it.\<close>

definition hub_UpdateLeaf :: "LeafState \<Rightarrow> HubServer \<Rightarrow> LeafState \<times> HubServer" where
  "hub_UpdateLeaf leaf s =
     (case UpdateLeaf leaf (hs_engine s) of (leaf', ge') \<Rightarrow> (leaf', write_leaf leaf' (s\<lparr>hs_engine := ge'\<rparr>)))"

definition new_leaf :: "time \<Rightarrow> FedAgentRegistration \<Rightarrow> LeafState" where
  "new_leaf now req =
     \<lparr>ls_AgentID = reg_AgentId req, ls_Hostname = reg_Hostname req, ls_IP = reg_Ip req,
      ls_Version = reg_Version req, ls_Labels = reg_Labels req, ls_AutoLabels = reg_AutoLabels req,
      ls_Groups = [], ls_LastSeen = now, ls_Status = LeafStatusOnline, ls_ConfigVersion = []\<rparr>"

definition Register ::
    "(goval gomap \<Rightarrow> string result) \<Rightarrow> (string \<Rightarrow> string) \<Rightarrow> time \<Rightarrow> FedAgentRegistration \<Rightarrow> HubServer \<Rightarrow> FedRegisterResponse \<times> HubServer" where
  "Register marshal digest now req s =
     (if int (length (hs_leaves s)) \<ge> hs_MaxLeaves s then
        (\<lparr>rr_Accepted = False, rr_AssignedRegion = [], rr_AssignedGroups = [], rr_ConfigVersion = [],
          rr_RejectionReason = ''hub capacity full (%d/%d)''\<rparr>, s)
      else
        (let leaf0 = new_leaf now req;
             groups = ge_Evaluate (ge_rules (hs_engine s)) leaf0;
             leaf1 = leaf0\<lparr>ls_Groups := groups\<rparr>;
             s1 = s\<lparr>hs_leaves := map_put (reg_AgentId req) leaf1 (hs_leaves s)\<rparr>;
             (leaf2, s2) = hub_UpdateLeaf leaf1 s1;
             configVersion = fst (GetConfigVersion marshal digest (hs_levels s) (reg_AgentId req) (hs_Region s) groups);
             s3 = write_leaf (leaf2\<lparr>ls_ConfigVersion := configVersion\<rparr>) s2;
             s4 = s3\<lparr>hs_configPushCh := map_put (reg_AgentId req) [] (hs_configPushCh s3)\<rparr>
         in (\<lparr>rr_Accepted = True, rr_AssignedRegion = hs_Region s, rr_AssignedGroups = groups,
              rr_ConfigVersion = configVersion, rr_RejectionReason = []\<rparr>, s4)))"

definition Heartbeat ::
    "(goval gomap \<Rightarrow> string result) \<Rightarrow> (string \<Rightarrow> string) \<Rightarrow> time \<Rightarrow> FedHeartbeatRequest \<Rightarrow> HubServer \<Rightarrow> FedHeartbeatResponse \<times> HubServer" where
  "Heartbeat marshal digest now req s =
     (case map_of (hs_leaves s) (hb_AgentId req) of
        None \<Rightarrow> (\<lparr>hr_Ok = False, hr_ConfigVersion = [], hr_ConfigUpdateAvailable = False\<rparr>, s)
      | Some leaf \<Rightarrow>
          (let leaf1 = leaf\<lparr>ls_LastSeen := now, ls_Status := LeafStatusOnline\<rparr>;
               (leaf2, s2) =
                 (if hb_Labels req \<noteq> [] then hub_UpdateLeaf (leaf1\<lparr>ls_Labels := hb_Labels req\<rparr>) s
                  else (leaf1, write_leaf leaf1 s));
               configVersion = fst (GetConfigVersion marshal digest (hs_levels s) (hb_AgentId req) (hs_Region s) (ls_Groups leaf2))
           in (\<lparr>hr_Ok = True, hr_ConfigVersion = configVersion,
                hr_ConfigUpdateAvailable = (configVersion \<noteq> ls_ConfigVersion leaf2)\<rparr>, s2)))"

definition UpdateLevels :: "ConfigLevels \<Rightarrow> HubServer \<Rightarrow> HubServer" where
  "UpdateLevels lv s = s\<lparr>hs_levels := lv\<rparr>"

record HubConfig =
  hc_Region :: string
  hc_MaxLeaves :: int
  hc_Groups :: "GroupRule list"
  hc_ConfigLevels :: ConfigLevels

record Hub =
  h_cfg :: HubConfig
  h_server :: HubServer
  h_running :: bool

definition NewHubServer :: "HubConfig \<Rightarrow> GroupEngine \<Rightarrow> HubServer" where
  "NewHubServer cfg ge =
     \<lparr>hs_Region = hc_Region cfg, hs_MaxLeaves = hc_MaxLeaves cfg, hs_engine = ge, hs_levels = hc_ConfigLevels cfg,
      hs_leaves = [], hs_configPushCh = []\<rparr>"

definition NewHub :: "HubConfig \<Rightarrow> Hub" where
  "NewHub cfg = \<lparr>h_cfg = cfg, h_server = NewHubServer cfg (NewGroupEngine (hc_Groups cfg)), h_running = False\<rparr>"

definition Start_hub :: "Hub \<Rightarrow> Hub" where "Start_hub h = h\<lparr>h_running := True\<rparr>"

definition Stop_hub :: "Hub \<Rightarrow> Hub" where "Stop_hub h = h\<lparr>h_running := False\<rparr>"

record hub_health =
  hh_status :: string
  hh_region :: string
  hh_total :: nat
  hh_online :: nat
  hh_offline :: int

definition HealthStatus_hub :: "Hub \<Rightarrow> hub_health" where
  "HealthStatus_hub h =
     (let leaves = hs_leaves (h_server h);
          onlineCount = length (filter (\<lambda>(k, l). ls_Status l = LeafStatusOnline) leaves)
      in \<lparr>hh_status = (if h_running h then ''running'' else ''stopped''), hh_region = hc_Region (h_cfg h),
          hh_total = length leaves, hh_online = onlineCount, hh_offline = int (length leaves) - int onlineCount\<rparr>)"

subsection \<open>The server and its engine stay in step\<close>

definition hub_ok :: "GroupRule list \<Rightarrow> HubServer \<Rightarrow> bool" where
  "hub_ok rules s \<longleftrightarrow> ge_ok rules (hs_engine s) \<and> ge_leafStates (hs_engine s) = hs_leaves s
     \<and> int (length (hs_leaves s)) \<le> max 0 (hs_MaxLeaves s)
     \<and> (\<forall>a leaf. map_of (hs_leaves s) a = Some leaf \<longrightarrow> ls_Status leaf = LeafStatusOnline)"

datatype hub_event =
    HubRegister time FedAgentRegistration
  | HubHeartbeat time FedHeartbeatRequest
  | HubLevels ConfigLevels

fun hub_step :: "(goval gomap \<Rightarrow> string result) \<Rightarrow> (string \<Rightarrow> string) \<Rightarrow> hub_event \<Rightarrow> HubServer \<Rightarrow> HubServer" where
  "hub_step marshal digest (HubRegister now req) s = snd (Register marshal digest now req s)"
| "hub_step marshal digest (HubHeartbeat now req) s = snd (Heartbeat marshal digest now req s)"
| "hub_step marshal digest (HubLevels lv) s = UpdateLevels lv s"

text \<open>Writing fields of a leaf that the groups do not read keeps the invariant of the engine.\<close>

lemma write_leaf_ge:
  assumes "ge_ok rules ge" "map_of (ge_leafStates ge) (ls_AgentID leaf) = Some old"
    "ls_Groups leaf = ls_Groups old" "AllLabels leaf = AllLabels old"
  shows "ge_ok rules (ge\<lparr>ge_leafStates := map_put (ls_AgentID leaf) leaf (ge_leafStates ge)\<rparr>)"
  using assms by (auto simp: ge_ok_def ge_Evaluate_def intro: inv_intros)

lemma UpdateLeaf_fields:
  assumes "UpdateLeaf leaf ge = (leaf', ge')"
  shows "leaf' = leaf\<lparr>ls_Groups := ge_Evaluate (ge_rules ge) leaf\<rparr>"
    "ge_leafStates ge' = map_put (ls_AgentID leaf) leaf' (ge_leafStates ge)" "ge_rules ge' = ge_rules ge"
  using assms by (auto simp: UpdateLeaf_def Let_def)

lemma map_put_twice [simp]: "map_put k v (map_put k w m) = map_put k v m"
  by (induction m) auto

lemma hub_UpdateLeaf_eq:
  "hub_UpdateLeaf leaf s =
     (let leaf' = leaf\<lparr>ls_Groups := ge_Evaluate (ge_rules (hs_engine s)) leaf\<rparr>
      in (leaf', s\<lparr>hs_leaves := map_put (ls_AgentID leaf) leaf' (hs_leaves s), hs_engine := snd (UpdateLeaf leaf (hs_engine s))\<rparr>))"
  by (simp add: hub_UpdateLeaf_def write_leaf_def UpdateLeaf_def Let_def)

lemma leafStates_UpdateLeaf [simp]:
  "ge_leafStates (snd (UpdateLeaf leaf ge)) =
     map_put (ls_AgentID leaf) (leaf\<lparr>ls_Groups := ge_Evaluate (ge_rules ge) leaf\<rparr>) (ge_leafStates ge)"
  by (simp add: UpdateLeaf_def Let_def)

lemma ge_ok_rules: "ge_ok rules ge \<Longrightarrow> ge_rules ge = rules"
  by (simp add: ge_ok_def)

lemma ge_ok_leafStates: "ge_ok rules ge \<Longrightarrow> map_ok (ge_leafStates ge)"
  by (simp add: ge_ok_def)

lemma ge_ok_leaf:
  "ge_ok rules ge \<Longrightarrow> map_of (ge_leafStates ge) a = Some leaf \<Longrightarrow>
   ls_AgentID leaf = a \<and> ls_Groups leaf = ge_Evaluate rules leaf"
  by (simp add: ge_ok_def)

lemma hub_write_ok:
  assumes s: "hub_ok rules s" and old: "map_of (hs_leaves s) (ls_AgentID leaf) = Some old"
    and leaf: "ls_Groups leaf = ls_Groups old" "AllLabels leaf = AllLabels old" "ls_Status leaf = LeafStatusOnline"
  shows "hub_ok rules (write_leaf leaf s)"
  using s old leaf write_leaf_ge [of rules "hs_engine s" leaf old]
  by (auto simp: hub_ok_def write_leaf_def length_map_put dest: ge_ok_leafStates)

lemma hub_update_ok:
  assumes s: "hub_ok rules s" and st: "ls_Status leaf = LeafStatusOnline"
    and room: "map_of (hs_leaves s) (ls_AgentID leaf) \<noteq> None \<or> int (length (hs_leaves s)) < hs_MaxLeaves s"
  shows "hub_ok rules (snd (hub_UpdateLeaf leaf s))"
  using s st room UpdateLeaf_ok [of rules "hs_engine s" leaf]
  by (auto simp: hub_ok_def hub_UpdateLeaf_eq Let_def length_map_put dest: ge_ok_leafStates)

text \<open>Registration is an update of the engine followed by writing the version.\<close>

lemma hub_UpdateLeaf_put:
  "ls_Groups leaf = ge_Evaluate (ge_rules (hs_engine s)) leaf \<Longrightarrow>
   hub_UpdateLeaf leaf (s\<lparr>hs_leaves := map_put (ls_AgentID leaf) leaf (hs_leaves s)\<rparr>) = hub_UpdateLeaf leaf s"
  by (simp add: hub_UpdateLeaf_eq Let_def)

lemma hub_ok_pushCh [simp]: "hub_ok rules (s\<lparr>hs_configPushCh := c\<rparr>) = hub_ok rules s"
  by (simp add: hub_ok_def)

lemma AllLabels_fields [simp]:
  "AllLabels (leaf\<lparr>ls_Groups := gs\<rparr>) = AllLabels leaf" "AllLabels (leaf\<lparr>ls_ConfigVersion := v\<rparr>) = AllLabels leaf"
  "AllLabels (leaf\<lparr>ls_LastSeen := t, ls_Status := st\<rparr>) = AllLabels leaf"
  by (simp_all add: AllLabels_def)

definition grouped_leaf :: "time \<Rightarrow> FedAgentRegistration \<Rightarrow> GroupRule list \<Rightarrow> LeafState" where
  "grouped_leaf now req rules = (new_leaf now req)\<lparr>ls_Groups := ge_Evaluate rules (new_leaf now req)\<rparr>"

lemma grouped_leaf_sel [simp]:
  "ls_AgentID (grouped_leaf now req rules) = reg_AgentId req" "ls_Status (grouped_leaf now req rules) = LeafStatusOnline"
  "ge_Evaluate rules (grouped_leaf now req rules) = ls_Groups (grouped_leaf now req rules)"
  by (simp_all add: grouped_leaf_def) (simp_all add: new_leaf_def)

lemma Register_accept:
  assumes "int (length (hs_leaves s)) < hs_MaxLeaves s"
  shows "\<exists>v c. snd (Register marshal digest now req s) =
     (write_leaf ((grouped_leaf now req (ge_rules (hs_engine s)))\<lparr>ls_ConfigVersion := v\<rparr>)
       (snd (hub_UpdateLeaf (grouped_leaf now req (ge_rules (hs_engine s))) s)))\<lparr>hs_configPushCh := c\<rparr>"
proof -
  let ?l = "grouped_leaf now req (ge_rules (hs_engine s))"
  have fst: "fst (hub_UpdateLeaf ?l s) = ?l"
    by (simp add: hub_UpdateLeaf_eq Let_def)
  have put: "hub_UpdateLeaf ?l (s\<lparr>hs_leaves := map_put (reg_AgentId req) ?l (hs_leaves s)\<rparr>) = hub_UpdateLeaf ?l s"
    using hub_UpdateLeaf_put [of ?l s] by simp
  show ?thesis using assms put fst
    unfolding Register_def Let_def grouped_leaf_def [symmetric]
    by (auto simp: case_prod_beta)
qed

lemma Register_reject:
  "hs_MaxLeaves s \<le> int (length (hs_leaves s)) \<Longrightarrow>
   \<not> rr_Accepted (fst (Register marshal digest now req s)) \<and> snd (Register marshal digest now req s) = s"
  by (simp add: Register_def)

lemma Register_ok:
  assumes "hub_ok rules s"
  shows "hub_ok rules (snd (Register marshal digest now req s))"
proof (cases "int (length (hs_leaves s)) < hs_MaxLeaves s")
  case True
  let ?l = "grouped_leaf now req (ge_rules (hs_engine s))" and ?s = "snd (hub_UpdateLeaf (grouped_leaf now req (ge_rules (hs_engine s))) s)"
  obtain v c where r: "snd (Register marshal digest now req s) = (write_leaf (?l\<lparr>ls_ConfigVersion := v\<rparr>) ?s)\<lparr>hs_configPushCh := c\<rparr>"
    using Register_accept [OF True] by blast
  have "hub_ok rules ?s" using assms True by (intro hub_update_ok) simp_all
  moreover have "map_of (hs_leaves ?s) (reg_AgentId req) = Some ?l"
    by (simp add: hub_UpdateLeaf_eq Let_def)
  ultimately have "hub_ok rules (write_leaf (?l\<lparr>ls_ConfigVersion := v\<rparr>) ?s)"
    by (intro hub_write_ok) simp_all
  with r show ?thesis by simp
next
  case False
  with assms show ?thesis by (simp add: Register_reject)
qed

lemma Heartbeat_ok:
  assumes "hub_ok rules s"
  shows "hub_ok rules (snd (Heartbeat marshal digest now req s))"
proof (cases "map_of (hs_leaves s) (hb_AgentId req)")
  case None
  with assms show ?thesis by (simp add: Heartbeat_def)
next
  case (Some leaf)
  then have id: "ls_AgentID leaf = hb_AgentId req" using assms ge_ok_leaf [of rules "hs_engine s"] by (auto simp: hub_ok_def)
  let ?l = "leaf\<lparr>ls_LastSeen := now, ls_Status := LeafStatusOnline\<rparr>"
  have "snd (Heartbeat marshal digest now req s) =
      (if hb_Labels req \<noteq> [] then snd (hub_UpdateLeaf (?l\<lparr>ls_Labels := hb_Labels req\<rparr>) s) else write_leaf ?l s)"
    using Some by (simp add: Heartbeat_def Let_def case_prod_beta)
  moreover have "hub_ok rules (write_leaf ?l s)" using assms Some id by (intro hub_write_ok) simp_all
  moreover have "hub_ok rules (snd (hub_UpdateLeaf (?l\<lparr>ls_Labels := hb_Labels req\<rparr>) s))"
    using assms Some id by (intro hub_update_ok) simp_all
  ultimately show ?thesis by simp
qed

interpretation hub: invariant_machine "hub_step marshal digest" "hub_ok rules" for marshal digest rules
proof
  show "hub_ok rules s \<Longrightarrow> hub_ok rules (hub_step marshal digest e s)" for s e
    by (cases e) (simp_all add: Register_ok Heartbeat_ok, simp add: UpdateLevels_def hub_ok_def)
qed

lemma hub_ok_New: "hub_ok (hc_Groups cfg) (h_server (NewHub cfg))"
  using ge_ok_New [of "hc_Groups cfg"] by (simp add: hub_ok_def NewHub_def NewHubServer_def NewGroupEngine_def)

lemma map_fst_put: "map_ok m \<Longrightarrow> map_of m k \<noteq> None \<Longrightarrow> map fst (map_put k v m) = map fst m"
  using map_ok_put [of m k v] unfolding map_ok_def strict_sorted_iff
  by (intro sorted_distinct_set_unique) (auto simp: map_of_eq_None_iff)

text \<open>A full hub: the same agents, and no room.\<close>

definition hub_full :: "GroupRule list \<Rightarrow> string list \<Rightarrow> HubServer \<Rightarrow> bool" where
  "hub_full rules ids s \<longleftrightarrow> hub_ok rules s \<and> map fst (hs_leaves s) = ids \<and> hs_MaxLeaves s \<le> int (length ids)"

lemma Heartbeat_keys:
  assumes "hub_ok rules s"
  shows "map fst (hs_leaves (snd (Heartbeat marshal digest now req s))) = map fst (hs_leaves s)
    \<and> hs_MaxLeaves (snd (Heartbeat marshal digest now req s)) = hs_MaxLeaves s"
proof (cases "map_of (hs_leaves s) (hb_AgentId req)")
  case (Some leaf)
  then have "ls_AgentID leaf = hb_AgentId req" "map_ok (hs_leaves s)"
    using assms ge_ok_leaf [of rules "hs_engine s"] ge_ok_leafStates [of rules "hs_engine s"] by (auto simp: hub_ok_def)
  with Some show ?thesis
    by (auto simp: Heartbeat_def Let_def case_prod_beta hub_UpdateLeaf_eq write_leaf_def map_fst_put)
qed (simp add: Heartbeat_def)

interpretation full: invariant_machine "hub_step marshal digest" "hub_full rules ids" for marshal digest rules ids
proof
  fix s e assume full: "hub_full rules ids s"
  then have ok: "hub_ok rules (hub_step marshal digest e s)" by (simp add: hub_full_def hub.step_inv)
  show "hub_full rules ids (hub_step marshal digest e s)"
  proof (cases e)
    case (HubRegister now req)
    with full show ?thesis by (auto simp: hub_full_def Register_reject)
  next
    case (HubHeartbeat now req)
    with full ok show ?thesis using Heartbeat_keys [of rules s] by (simp add: hub_full_def)
  next
    case (HubLevels lv)
    with full ok show ?thesis by (simp add: hub_full_def UpdateLevels_def)
  qed
qed

subsection \<open>operation.go\<close>

record LeafOpResult =
  lr_Status :: string
  lr_Error :: string
  lr_StartedAt :: time
  lr_FinishedAt :: time

record Operation =
  op_ID :: string
  op_Type :: string
  op_TargetGroup :: string
  op_Params :: "string gomap"
  op_Status :: string
  op_LeafResults :: "LeafOpResult gomap"
  op_CreatedAt :: time
  op_UpdatedAt :: time

record OperationStatus =
  os_ID :: string
  os_Type :: string
  os_TargetGroup :: string
  os_Status :: string
  os_Total :: int
  os_Success :: int
  os_Failed :: int
  os_Pending :: int

definition OpStatusPending :: string where "OpStatusPending = ''pending''"

text \<open>The eight bytes that \<open>rand.Read\<close> fills in, or its error.\<close>

definition generateID :: "nat list result \<Rightarrow> string result" where
  "generateID rand = (case rand of Inl e \<Rightarrow> Inl e | Inr b \<Rightarrow> Inr (''op-'' @ hex_encode b))"

definition Create_op ::
    "nat list result \<Rightarrow> time \<Rightarrow> time \<Rightarrow> string \<Rightarrow> string \<Rightarrow> string gomap \<Rightarrow> Operation gomap \<Rightarrow> Operation result \<times> Operation gomap" where
  "Create_op rand now now' opType targetGroup params ops =
     (case generateID rand of
        Inl e \<Rightarrow> (Inl (''generate operation id: '' @ e), ops)
      | Inr i \<Rightarrow>
          (let op = \<lparr>op_ID = i, op_Type = opType, op_TargetGroup = targetGroup, op_Params = params,
                op_Status = OpStatusPending, op_LeafResults = [], op_CreatedAt = now, op_UpdatedAt = now'\<rparr>
           in (Inr op, map_put i op ops)))"

definition count_result :: "string \<times> LeafOpResult \<Rightarrow> OperationStatus \<Rightarrow> OperationStatus" where
  "count_result r st =
     (let st1 = st\<lparr>os_Total := os_Total st + 1\<rparr>
      in if lr_Status (snd r) = ''success'' then st1\<lparr>os_Success := os_Success st1 + 1\<rparr>
         else if lr_Status (snd r) = ''failed'' then st1\<lparr>os_Failed := os_Failed st1 + 1\<rparr>
         else st1\<lparr>os_Pending := os_Pending st1 + 1\<rparr>)"

definition GetStatus :: "string \<Rightarrow> Operation gomap \<Rightarrow> OperationStatus result" where
  "GetStatus opID ops =
     (case map_of ops opID of
        None \<Rightarrow> Inl ''operation %s not found''
      | Some op \<Rightarrow>
          Inr (fold count_result (op_LeafResults op)
            \<lparr>os_ID = op_ID op, os_Type = op_Type op, os_TargetGroup = op_TargetGroup op, os_Status = op_Status op,
             os_Total = 0, os_Success = 0, os_Failed = 0, os_Pending = 0\<rparr>))"

lemma count_results:
  "let st' = fold count_result rs st in
     os_Total st' = os_Total st + int (length rs)
     \<and> os_Success st' = os_Success st + int (length (filter (\<lambda>r. lr_Status (snd r) = ''success'') rs))
     \<and> os_Failed st' = os_Failed st + int (length (filter (\<lambda>r. lr_Status (snd r) = ''failed'') rs))
     \<and> os_Total st' - (os_Success st' + os_Failed st' + os_Pending st') = os_Total st - (os_Success st + os_Failed st + os_Pending st)"
proof (induction rs arbitrary: st)
  case (Cons r rs)
  consider "lr_Status (snd r) = ''success''" | "lr_Status (snd r) = ''failed''"
    | "lr_Status (snd r) \<noteq> ''success'' \<and> lr_Status (snd r) \<noteq> ''failed''" by blast
  then show ?case
    by cases (use Cons [of "count_result r st"] in \<open>simp_all add: count_result_def Let_def\<close>)
qed simp

text \<open>An operation that was just created is found, pending, with no result counted.\<close>

lemma GetStatus_Create:
  assumes "Create_op rand now now' opType targetGroup params ops = (Inr op, ops')"
  shows "GetStatus (op_ID op) ops' =
    Inr \<lparr>os_ID = op_ID op, os_Type = opType, os_TargetGroup = targetGroup, os_Status = ''pending'',
         os_Total = 0, os_Success = 0, os_Failed = 0, os_Pending = 0\<rparr>"
  using assms by (auto simp: Create_op_def GetStatus_def Let_def OpStatusPending_def split: sum.splits)

subsection \<open>canary.go\<close>

definition canary_count :: "nat \<Rightarrow> int \<Rightarrow> int" where
  "canary_count n percentage =
     (let count = to_int64 (math_Round (fdiv (fmul (of_int64 (int n)) (of_int64 percentage)) (Fin 100)));
          count1 = (if count \<le> 0 then 1 else count)
      in if count1 > int n then int n else count1)"

definition GetStage :: "CanaryStageConfig list \<Rightarrow> int \<Rightarrow> CanaryStageConfig result" where
  "GetStage stages i =
     (if i < 0 \<or> i \<ge> int (length stages) then Inl ''stage index %d out of range [0, %d)''
      else Inr (stages ! nat i))"

definition SelectSubset :: "CanaryStageConfig list \<Rightarrow> string list \<Rightarrow> int \<Rightarrow> string list result" where
  "SelectSubset stages agents stageIndex =
     (if stageIndex < 0 \<or> stageIndex \<ge> int (length stages) then Inl ''stage index %d out of range [0, %d)''
      else if agents = [] then Inr []
      else Inr (take (nat (canary_count (length agents) (stage_Percentage (stages ! nat stageIndex)))) agents))"

lemma rnd_Fin:
  assumes "0 \<le> q" "q \<le> 2 ^ 53"
  shows "\<exists>r. rnd q = Fin r \<and> 0 \<le> r \<and> r \<le> 2 ^ 53"
proof -
  have "rnd (2 ^ 53) = Fin (2 ^ 53)" using rnd_int [of "2 ^ 53"] by simp
  then have "fle (rnd q) (Fin (2 ^ 53))" "fle (Fin 0) (rnd q)"
    using rnd_mono_nonneg [OF assms] rnd_mono_nonneg [of 0 q] assms by simp_all
  then show ?thesis by (cases "rnd q") (auto simp: fle_def feq_def)
qed

definition round_int :: "rat \<Rightarrow> int" where
  "round_int q = (case rnd q of Fin r \<Rightarrow> \<lfloor>r + 1 / 2\<rfloor> | _ \<Rightarrow> 0)"

lemma to_int64_Round:
  assumes "0 \<le> q" "q \<le> 2 ^ 53"
  shows "to_int64 (math_Round (rnd q)) = round_int q"
proof -
  obtain r where r: "rnd q = Fin r" "0 \<le> r" "r \<le> 2 ^ 53" using rnd_Fin [OF assms] by blast
  then have "0 \<le> \<lfloor>r + 1 / 2\<rfloor>" "\<lfloor>r + 1 / 2\<rfloor> < 2 ^ 63" by (simp_all add: floor_less_iff)
  with r show ?thesis by (simp add: round_int_def math_Round_def to_int64_def)
qed

lemma round_int_mono:
  assumes "0 \<le> p" "p \<le> q" "q \<le> 2 ^ 53"
  shows "round_int p \<le> round_int q"
proof -
  obtain r where r: "rnd p = Fin r" using rnd_Fin [of p] assms by auto
  obtain s where s: "rnd q = Fin s" using rnd_Fin [of q] assms by auto
  from r s rnd_mono_nonneg [OF assms(1,2)] have "r \<le> s" by simp
  with r s show ?thesis by (simp add: round_int_def floor_mono)
qed

lemma round_int_int: "\<bar>i\<bar> \<le> 2 ^ 53 \<Longrightarrow> round_int (of_int i) = i"
  by (simp add: round_int_def rnd_int floor_eq_iff)

lemma canary_count_eq:
  assumes "n \<le> 2 ^ 46" "0 \<le> p" "p \<le> 100"
  shows "canary_count n p = min (int n) (max 1 (round_int (of_int (int n * p) / 100)))"
proof -
  have b: "int n * p \<le> 2 ^ 53"
  proof -
    have "int n * p \<le> 2 ^ 46 * 100" using assms by (intro mult_mono) auto
    also have "\<dots> \<le> (2::int) ^ 53" by simp
    finally show ?thesis .
  qed
  have nn: "0 \<le> int n * p" using assms by simp
  have ex: "of_int64 (int n) = Fin (of_nat n)" "of_int64 p = Fin (of_int p)"
    using assms of_int64_exact [of "int n"] of_int64_exact [of p] by simp_all
  have m: "fmul (of_int64 (int n)) (of_int64 p) = Fin (of_int (int n * p))"
    using rnd_int [of "int n * p"] b nn by (simp add: ex)
  have le: "of_int (int n * p) / 100 \<le> (2::rat) ^ 53"
  proof -
    have "of_int (int n * p) \<le> (of_int (2 ^ 53) :: rat)" using b by (subst of_int_le_iff)
    then show ?thesis by simp
  qed
  have "fdiv (fmul (of_int64 (int n)) (of_int64 p)) (Fin 100) = rnd (of_int (int n * p) / 100)"
    unfolding m fdiv.simps by simp
  moreover have "to_int64 (math_Round (rnd (of_int (int n * p) / 100))) = round_int (of_int (int n * p) / 100)"
    by (rule to_int64_Round [OF _ le]) (use nn in \<open>simp del: of_int_mult\<close>)
  ultimately have "to_int64 (math_Round (fdiv (fmul (of_int64 (int n)) (of_int64 p)) (Fin 100))) =
      round_int (of_int (int n * p) / 100)" by (simp only:)
  moreover have "(let c1 = (if c \<le> 0 then 1 else c) in if c1 > int n then int n else c1) = min (int n) (max 1 c)" for c
    by (auto simp: Let_def min_def max_def)
  ultimately show ?thesis unfolding canary_count_def by (simp only: Let_def)
qed

text \<open>From the configuration of the agent (\<open>NewAgent\<close> in \<open>internal/app/agent.go\<close>).\<close>

definition convertGroupRules :: "GroupRuleConfig list \<Rightarrow> GroupRule list" where
  "convertGroupRules rules = map (\<lambda>r. \<lparr>gr_Name = grule_Name r, gr_Match = mapelems (grule_Match r)\<rparr>) rules"

definition agent_hub :: "Config \<Rightarrow> Hub option" where
  "agent_hub cfg =
     (if fed_Enabled (cfg_Federation cfg) \<and> agent_Mode (cfg_Agent cfg) = AgentModeHub then
        (let hub = fed_Hub (cfg_Federation cfg)
         in Some (NewHub \<lparr>hc_Region = hub_Region hub, hc_MaxLeaves = hub_MaxLeaves hub,
              hc_Groups = convertGroupRules (elems (hub_Groups hub)),
              hc_ConfigLevels = convertConfigLevels (hub_ConfigLevels hub)\<rparr>))
      else None)"

lemma canary_count_props:
  assumes "0 < n" "n \<le> 2 ^ 46" "0 \<le> p" "p \<le> q" "q \<le> 100"
  shows "1 \<le> canary_count n p" "canary_count n p \<le> canary_count n q" "canary_count n q \<le> int n"
    "canary_count n 100 = int n"
proof -
  have p: "canary_count n p = min (int n) (max 1 (round_int (of_int (int n * p) / 100)))"
    and q: "canary_count n q = min (int n) (max 1 (round_int (of_int (int n * q) / 100)))"
    and h: "canary_count n 100 = min (int n) (max 1 (round_int (of_int (int n * 100) / 100)))"
    using assms by (simp_all only: canary_count_eq [of n])
  have n: "(of_nat n :: rat) \<le> 2 ^ 46" using of_nat_mono [OF assms(2), where ?'a = rat] by simp
  have "of_int (int n * p) / 100 \<le> (of_int (int n * q) / 100 :: rat)"
    using assms by (simp add: divide_right_mono mult_left_mono)
  moreover have "of_int (int n * q) / 100 \<le> (2 ^ 53 :: rat)"
  proof -
    have "of_int (int n * q) \<le> (2 ^ 46 * 100 :: rat)"
      using n assms unfolding of_int_mult by (intro mult_mono) simp_all
    then show ?thesis by simp
  qed
  ultimately have "round_int (of_int (int n * p) / 100) \<le> round_int (of_int (int n * q) / 100)"
    using assms by (intro round_int_mono) (simp_all del: of_int_mult)
  then show "canary_count n p \<le> canary_count n q" unfolding p q by linarith
  have "round_int (of_int (int n)) = int n" using assms by (intro round_int_int) simp
  then show "canary_count n 100 = int n" unfolding h using assms by simp
  show "1 \<le> canary_count n p" "canary_count n q \<le> int n" unfolding p q using assms by linarith+
qed

subsection \<open>What the federation promises\<close>

text \<open>C10: a hub keeps its groups in step with the labels: after any sequence of registrations, heartbeats and
  configuration changes, in any order and with any answers of the JSON encoder and the digest, the members that
  \<open>GetGroupMembers\<close> lists for a group are, sorted, exactly the registered agents whose labels match one of
  the rules with that name, and there are never more leaves than the configured maximum.\<close>

theorem hub_groups_follow_labels:
  fixes cfg :: HubConfig and es :: "hub_event list" and marshal digest
  defines "s \<equiv> fold (hub_step marshal digest) es (h_server (NewHub cfg))"
  shows "elems (GetGroupMembers (hs_engine s) g) =
      sorted_list_of_set {a. \<exists>leaf. map_of (hs_leaves s) a = Some leaf
        \<and> (\<exists>r \<in> set (hc_Groups cfg). gr_Name r = g \<and> matchesAll (AllLabels leaf) (gr_Match r))}
    \<and> int (length (hs_leaves s)) \<le> max 0 (hs_MaxLeaves s)"
proof -
  have ok: "hub_ok (hc_Groups cfg) s" unfolding s_def by (rule hub.run_inv [OF hub_ok_New])
  have "g \<in> set (ge_Evaluate (hc_Groups cfg) leaf) \<longleftrightarrow>
      (\<exists>r \<in> set (hc_Groups cfg). gr_Name r = g \<and> matchesAll (AllLabels leaf) (gr_Match r))" for leaf
    by (auto simp: ge_Evaluate_def)
  with ok GetGroupMembers_ok [of "hc_Groups cfg" "hs_engine s" g] show ?thesis by (simp add: hub_ok_def)
qed

text \<open>A full hub locks its own leaves out: once the hub holds as many leaves as it may, no sequence of
  events makes room again, and every later registration is refused, also one of an agent that is registered
  and only restarts; and the health status never counts a leaf as offline, whatever time has passed.\<close>

theorem full_hub_rejects:
  fixes cfg :: HubConfig and es :: "hub_event list" and marshal digest
  defines "s \<equiv> fold (hub_step marshal digest) es (h_server (NewHub cfg))"
  assumes "int (length (hs_leaves s)) = hs_MaxLeaves s"
  shows "map fst (hs_leaves (fold (hub_step marshal digest) es' s)) = map fst (hs_leaves s)
    \<and> \<not> rr_Accepted (fst (Register marshal digest now req (fold (hub_step marshal digest) es' s)))
    \<and> hh_offline (HealthStatus_hub ((NewHub cfg)\<lparr>h_server := fold (hub_step marshal digest) es' s\<rparr>)) = 0"
proof -
  have "hub_ok (hc_Groups cfg) s" unfolding s_def by (rule hub.run_inv [OF hub_ok_New])
  with assms have "hub_full (hc_Groups cfg) (map fst (hs_leaves s)) s" by (simp add: hub_full_def)
  from full.run_inv [OF this]
  have f: "hub_full (hc_Groups cfg) (map fst (hs_leaves s)) (fold (hub_step marshal digest) es' s)" .
  let ?t = "fold (hub_step marshal digest) es' s"
  have len: "length (hs_leaves s) = length (hs_leaves ?t)" using f by (metis hub_full_def length_map)
  have "map_ok (hs_leaves ?t)" using f ge_ok_leafStates [of "hc_Groups cfg" "hs_engine ?t"] by (simp add: hub_full_def hub_ok_def)
  then have "filter (\<lambda>(k, l). ls_Status l = LeafStatusOnline) (hs_leaves ?t) = hs_leaves ?t"
    using f by (auto simp: hub_full_def hub_ok_def filter_id_conv map_of_eq_Some_iff)
  then show ?thesis using f len by (simp add: hub_full_def Register_reject HealthStatus_hub_def Let_def)
qed

text \<open>C11: the configuration of an agent is inherited: the value at every path is the one of the last level
  that says anything about it, in the order global, region, the groups by name, agent.\<close>

theorem resolved_config_inherits:
  assumes "list_all gm_ok (applicable lv agentID region groups)"
  shows "scalar_get (ResolveConfig lv agentID region groups) p =
    (case filter (\<lambda>c. touches c p) (rev (applicable lv agentID region groups)) of
       [] \<Rightarrow> None | c # _ \<Rightarrow> scalar_get c p)"
proof -
  have "applicable lv agentID region groups = mapelems (lv_Global lv) # tl (applicable lv agentID region groups)"
    by (simp add: applicable_def)
  with assms scalar_fold_merge [of "tl (applicable lv agentID region groups)" "mapelems (lv_Global lv)" p]
  show ?thesis unfolding ResolveConfig_fold by (metis list.pred_inject(2))
qed

subsection \<open>Examples\<close>

definition small_hub :: HubConfig where
  "small_hub = \<lparr>hc_Region = ''eu'', hc_MaxLeaves = 1,
     hc_Groups = [\<lparr>gr_Name = ''web'', gr_Match = [(''role'', ''web'')]\<rparr>],
     hc_ConfigLevels = \<lparr>lv_Global = None, lv_Regions = None, lv_Groups = None, lv_Agents = None\<rparr>\<rparr>"

definition web_leaf :: FedAgentRegistration where
  "web_leaf = \<lparr>reg_AgentId = ''a1'', reg_Hostname = ''h'', reg_Ip = ''10.0.0.1'', reg_Version = ''1.0'',
     reg_Labels = [(''role'', ''web'')], reg_AutoLabels = []\<rparr>"

definition small_events :: "hub_event list" where
  "small_events = [HubRegister 0 web_leaf]"

lemma small_hub_full:
  "fold (hub_step (\<lambda>_. Inr ''{}'') (\<lambda>d. d)) small_events (h_server (NewHub small_hub)) =
   \<lparr>hs_Region = ''eu'', hs_MaxLeaves = 1,
     hs_engine = \<lparr>ge_rules = [\<lparr>gr_Name = ''web'', gr_Match = [(''role'', ''web'')]\<rparr>],
       ge_leafStates = [(''a1'', (new_leaf 0 web_leaf)\<lparr>ls_Groups := [''web''], ls_ConfigVersion := ''{}''\<rparr>)],
       ge_groupIndex = [(''web'', [(''a1'', True)])]\<rparr>,
     hs_levels = hc_ConfigLevels small_hub,
     hs_leaves = [(''a1'', (new_leaf 0 web_leaf)\<lparr>ls_Groups := [''web''], ls_ConfigVersion := ''{}''\<rparr>)],
     hs_configPushCh = [(''a1'', [])]\<rparr>"
  by (simp add: small_events_def small_hub_def NewHub_def NewHubServer_def NewGroupEngine_def Register_def hub_UpdateLeaf_eq Let_def
      UpdateLeaf_def write_leaf_def web_leaf_def new_leaf_def ge_Evaluate_def AllLabels_def matchesAll_def map_copy_def
      leafGroups_def add_member_def members_def GetConfigVersion_def)

theorem full_hub_rejects_witness:
  "\<exists>s. int (length (hs_leaves s)) = hs_MaxLeaves s \<and> map fst (hs_leaves s) = [''a1'']
     \<and> \<not> rr_Accepted (fst (Register (\<lambda>_. Inr ''{}'') (\<lambda>d. d) 60 web_leaf s))"
proof -
  let ?s = "fold (hub_step (\<lambda>_. Inr ''{}'') (\<lambda>d. d)) small_events (h_server (NewHub small_hub))"
  have full: "int (length (hs_leaves ?s)) = hs_MaxLeaves ?s" "map fst (hs_leaves ?s) = [''a1'']"
    unfolding small_hub_full by simp_all
  with full_hub_rejects [OF full(1), of "[]" 60 web_leaf] show ?thesis by (intro exI [of _ ?s]) simp
qed

definition example_levels :: ConfigLevels where
  "example_levels =
     \<lparr>lv_Global = Some [(''log'', GMap [(''file'', GString ''/a''), (''level'', GString ''info'')])],
      lv_Regions = None,
      lv_Groups = Some [(''db'', Some [(''log'', GMap [(''level'', GString ''warn'')])]),
        (''web'', Some [(''log'', GMap [(''level'', GString ''debug'')])])],
      lv_Agents = Some [(''a1'', Some [(''port'', GInt 8080)])]\<rparr>"

lemma example_applicable:
  "applicable example_levels ''a1'' ''eu'' [''web'', ''db''] =
     [[(''log'', GMap [(''file'', GString ''/a''), (''level'', GString ''info'')])],
      [(''log'', GMap [(''level'', GString ''warn'')])], [(''log'', GMap [(''level'', GString ''debug'')])],
      [(''port'', GInt 8080)]]"
  by (simp add: applicable_def example_levels_def level_entry_def mapelems_def)

theorem resolved_config_inherits_witness:
  "scalar_get (ResolveConfig example_levels ''a1'' ''eu'' [''web'', ''db'']) [''log'', ''level''] = Some (GString ''debug'')
   \<and> scalar_get (ResolveConfig example_levels ''a1'' ''eu'' [''web'', ''db'']) [''log'', ''file''] = Some (GString ''/a'')"
proof -
  have ok: "list_all gm_ok (applicable example_levels ''a1'' ''eu'' [''web'', ''db''])"
    by (simp add: example_applicable gm_ok_def)
  show ?thesis
    using resolved_config_inherits [OF ok, of "[''log'', ''level'']"] resolved_config_inherits [OF ok, of "[''log'', ''file'']"]
    by (simp add: example_applicable)
qed

end
