(* ===== verification/Plugin_Manifest.thy ===== *)
theory Plugin_Manifest
imports Go_Values Go_Strconv
begin

text \<open>
  Manifests of custom plugins (\<open>internal/pluginruntime/manifest.go\<close>): their checks, the path of the binary, and
  the part of \<open>path/filepath\<close> they use. The YAML reader and the file are parameters.
\<close>

subsection \<open>Paths\<close>

definition IsAbs :: "string \<Rightarrow> bool" where
  "IsAbs p = HasPrefix p ''/''"

definition path_Join :: "string list \<Rightarrow> string" where
  "path_Join ps = (let qs = filter (\<lambda>p. p \<noteq> []) ps in if qs = [] then [] else path_Clean (join_with ''/'' qs))"

text \<open>What stands after the last separator, and what stands up to it.\<close>

definition after_slash :: "string \<Rightarrow> string" where
  "after_slash p = rev (takeWhile (\<lambda>c. c \<noteq> CHR ''/'') (rev p))"

definition path_Dir :: "string \<Rightarrow> string" where
  "path_Dir p = path_Clean (take (length p - length (after_slash p)) p)"

definition path_Base :: "string \<Rightarrow> string" where
  "path_Base p =
     (if p = [] then ''.''
      else (let q = rev (dropWhile (\<lambda>c. c = CHR ''/'') (rev p)) in if q = [] then ''/'' else after_slash q))"

subsection \<open>manifest.go\<close>

record Requirements =
  rqm_MinKernelVersion :: string
  rqm_OS :: "string list"

record Limits =
  lim_MaxMemoryMB :: int
  lim_MaxCPUPercent :: int
  lim_MaxConcurrentTasks :: int
  lim_TimeoutSeconds :: int

record HealthCheckConfig =
  hcc_IntervalSeconds :: int
  hcc_TimeoutSeconds :: int

record PluginSandboxConfig =
  psc_Enabled :: bool
  psc_NetworkAccess :: bool
  psc_AllowedPaths :: "string list"

record PluginManifest =
  pm_Name :: string
  pm_Version :: string
  pm_Description :: string
  pm_Author :: string
  pm_Runtime :: string
  pm_BinaryPath :: string
  pm_Env :: "string gomap"
  pm_TaskTypes :: "string list"
  pm_ConfigSchema :: "goval gomap"
  pm_Config :: "goval gomap option"
  pm_Requirements :: "Requirements option"
  pm_Limits :: "Limits option"
  pm_HealthCheck :: "HealthCheckConfig option"
  pm_Sandbox :: "PluginSandboxConfig option"
  pm_resolvedDir :: string

definition is_alnum :: "char \<Rightarrow> bool" where
  "is_alnum c = (is_digit c \<or> (let n = of_char c :: nat in 65 \<le> n \<and> n \<le> 90 \<or> 97 \<le> n \<and> n \<le> 122))"

text \<open>A run of digits and what follows it, and the digits, a dot and what follows.\<close>

definition digits_then :: "string \<Rightarrow> string option" where
  "digits_then s = (if takeWhile is_digit s = [] then None else Some (dropWhile is_digit s))"

definition digits_dot :: "string \<Rightarrow> string option" where
  "digits_dot s = (case digits_then s of Some (c # r) \<Rightarrow> if c = CHR ''.'' then Some r else None | _ \<Rightarrow> None)"

text \<open>The regular expression \<open>^\d+\.\d+\.\d+(-[a-zA-Z0-9.]+)?$\<close>.\<close>

definition semverRe :: "string \<Rightarrow> bool" where
  "semverRe s =
     (case digits_dot s of
        None \<Rightarrow> False
      | Some s1 \<Rightarrow>
          (case digits_dot s1 of
             None \<Rightarrow> False
           | Some s2 \<Rightarrow>
               (case digits_then s2 of
                  None \<Rightarrow> False
                | Some [] \<Rightarrow> True
                | Some (c # r) \<Rightarrow> c = CHR ''-'' \<and> r \<noteq> [] \<and> list_all (\<lambda>x. is_alnum x \<or> x = CHR ''.'') r)))"

text \<open>The checks return the manifest, in which the default of the runtime is filled in.\<close>

definition pm_Validate :: "string \<Rightarrow> PluginManifest \<Rightarrow> PluginManifest result" where
  "pm_Validate goos m =
     (let m' = (if pm_Runtime m = [] then m\<lparr>pm_Runtime := ''process''\<rparr> else m)
      in case first_err
           [fail_if (pm_Name m = []) ''manifest: name is required'',
            fail_if (pm_Version m = []) ''manifest: version is required'',
            fail_if (\<not> semverRe (pm_Version m)) ''manifest: version %q is not valid semver'',
            fail_if (pm_BinaryPath m = []) ''manifest: binary_path is required'',
            fail_if (pm_TaskTypes m = []) ''manifest: task_types must not be empty'',
            fail_if (pm_Runtime m' \<noteq> ''process'') ''manifest: runtime must be 'process', got %q'',
            (case pm_Requirements m of
               None \<Rightarrow> None
             | Some r \<Rightarrow> fail_if (rqm_OS r \<noteq> [] \<and> goos \<notin> set (rqm_OS r)) ''manifest: unsupported OS %q, plugin requires %v'')]
         of Some e \<Rightarrow> Inl e | None \<Rightarrow> Inr m')"

definition ParseManifest :: "string \<Rightarrow> (string \<Rightarrow> PluginManifest result) \<Rightarrow> string \<Rightarrow> PluginManifest result" where
  "ParseManifest goos yaml data =
     (case yaml data of Inl e \<Rightarrow> Inl (''parse manifest: '' @ e) | Inr m \<Rightarrow> pm_Validate goos m)"

definition binary_path :: "string \<Rightarrow> string \<Rightarrow> string" where
  "binary_path dir b = (if IsAbs b then b else path_Join [dir, b])"

definition LoadManifest ::
    "string \<Rightarrow> (string \<Rightarrow> PluginManifest result) \<Rightarrow> (string \<Rightarrow> string result) \<Rightarrow> string \<Rightarrow> PluginManifest result" where
  "LoadManifest goos yaml readFile path =
     (case readFile path of
        Inl e \<Rightarrow> Inl (''read manifest %s: '' @ e)
      | Inr data \<Rightarrow>
          (case ParseManifest goos yaml data of
             Inl e \<Rightarrow> Inl e
           | Inr m \<Rightarrow>
               (let dir = path_Dir path;
                    cleanBin = path_Clean (binary_path dir (pm_BinaryPath m));
                    cleanDir = path_Clean dir
                in if HasPrefix cleanBin (cleanDir @ ''/'')
                   then Inr (m\<lparr>pm_resolvedDir := dir, pm_BinaryPath := cleanBin\<rparr>)
                   else Inl ''binary_path %q escapes plugin directory %q'')))"

definition FullTaskType :: "string \<Rightarrow> string \<Rightarrow> string" where
  "FullTaskType pluginName taskType = pluginName @ ''/'' @ taskType"

subsection \<open>A loaded manifest names a binary below its directory\<close>

definition plain_comp :: "string \<Rightarrow> bool" where
  "plain_comp c \<longleftrightarrow> c \<noteq> [] \<and> c \<noteq> ''.'' \<and> c \<noteq> ''..''"

lemma clean_comps_plain:
  "list_all plain_comp st \<Longrightarrow> list_all plain_comp (clean_comps True st cs)"
proof (induction True st cs rule: clean_comps.induct)
  case (1 st)
  then show ?case by simp
next
  case (2 st c cs)
  then show ?case by (cases st) (auto simp: plain_comp_def)
qed

lemma split_on_append: "split_on c (s @ c # t) = split_on c s @ split_on c t"
proof (induction s)
  case (Cons x s)
  then show ?case by (cases "split_on c s") auto
qed simp

lemma split_on_noc: "c \<notin> set s \<Longrightarrow> split_on c s = [s]"
  by (induction s) auto

lemma split_join:
  "cs \<noteq> [] \<Longrightarrow> \<forall>w \<in> set cs. c \<notin> set w \<Longrightarrow> split_on c (join_with [c] cs) = cs"
proof (induction cs rule: induct_list012)
  case (3 w v ws)
  then show ?case using split_on_append [of c w] by (simp add: split_on_noc)
qed (auto simp: split_on_noc)

lemma split_on_no_sep: "w \<in> set (split_on c s) \<Longrightarrow> c \<notin> set w"
proof (induction s arbitrary: w)
  case (Cons x s)
  then show ?case by (cases "split_on c s") (auto split: if_splits)
qed simp

lemma clean_comps_subset: "set (clean_comps rooted st cs) \<subseteq> set st \<union> set cs \<union> {''..''}"
proof (induction rooted st cs rule: clean_comps.induct)
  case (2 rooted st c cs)
  then show ?case by (cases st) auto
qed auto

text \<open>The components of a cleaned absolute path.\<close>

definition abs_comps :: "string \<Rightarrow> string list" where
  "abs_comps p = clean_comps True [] (split_on (CHR ''/'') p)"

lemma Clean_abs: "IsAbs p \<Longrightarrow> path_Clean p = CHR ''/'' # join_with ''/'' (abs_comps p)"
  by (simp add: path_Clean_def IsAbs_def abs_comps_def Let_def)

lemma abs_comps_plain: "list_all plain_comp (abs_comps p)" "\<forall>w \<in> set (abs_comps p). CHR ''/'' \<notin> set w"
proof -
  show "list_all plain_comp (abs_comps p)" unfolding abs_comps_def by (rule clean_comps_plain) simp
  show "\<forall>w \<in> set (abs_comps p). CHR ''/'' \<notin> set w"
    using clean_comps_subset [of True "[]" "split_on (CHR ''/'') p"] split_on_no_sep by (fastforce simp: abs_comps_def)
qed

text \<open>A cleaned path with a cleaned directory as a prefix has the components of the directory, and more.\<close>

lemma Clean_prefix:
  assumes "IsAbs p" "IsAbs q" "HasPrefix (path_Clean p) (path_Clean q @ ''/'')"
  shows "\<exists>rest. rest \<noteq> [] \<and> abs_comps p = abs_comps q @ rest"
proof -
  obtain t where t: "join_with ''/'' (abs_comps p) = join_with ''/'' (abs_comps q) @ CHR ''/'' # t"
    using assms by (auto simp: Clean_abs HasPrefix_iff)
  have ne: "abs_comps p \<noteq> []" using t by auto
  have p: "abs_comps p = split_on (CHR ''/'') (join_with ''/'' (abs_comps p))"
    using split_join [OF ne abs_comps_plain(2)] by simp
  also have "\<dots> = split_on (CHR ''/'') (join_with ''/'' (abs_comps q)) @ split_on (CHR ''/'') t"
    unfolding t by (rule split_on_append)
  finally have eq: "abs_comps p = split_on (CHR ''/'') (join_with ''/'' (abs_comps q)) @ split_on (CHR ''/'') t" .
  show ?thesis
  proof (cases "abs_comps q = []")
    case True
    with eq have "[] \<in> set (abs_comps p)" by simp
    with abs_comps_plain(1) [of p] show ?thesis by (auto simp: list_all_iff plain_comp_def)
  next
    case False
    with eq split_join [OF False abs_comps_plain(2)] show ?thesis by auto
  qed
qed

lemma IsAbs_Clean: "IsAbs p \<Longrightarrow> IsAbs (path_Clean p)"
  using Clean_abs [of p] by (simp add: IsAbs_def HasPrefix_def)

lemma IsAbs_Dir:
  assumes "IsAbs p"
  shows "IsAbs (path_Dir p)"
proof -
  obtain q where p: "p = CHR ''/'' # q" using assms by (auto simp: IsAbs_def HasPrefix_iff)
  have "length (after_slash p) \<le> length q"
    using takeWhile_append [of "\<lambda>c. c \<noteq> CHR ''/''" "rev q" "[CHR ''/'']"]
    by (auto simp: after_slash_def p length_takeWhile_le intro: le_trans [OF length_takeWhile_le])
  then show ?thesis unfolding path_Dir_def
    by (intro IsAbs_Clean) (simp add: IsAbs_def HasPrefix_def p Suc_diff_le)
qed

lemma IsAbs_binary: "IsAbs d \<Longrightarrow> p \<noteq> [] \<Longrightarrow> IsAbs (binary_path d p)"
proof -
  assume d: "IsAbs d" and p: "p \<noteq> []"
  then obtain t where "d = CHR ''/'' # t" by (auto simp: IsAbs_def HasPrefix_iff)
  with p have "path_Join [d, p] = path_Clean (CHR ''/'' # t @ CHR ''/'' # p)" by (simp add: path_Join_def)
  then show ?thesis using IsAbs_Clean [of "CHR ''/'' # t @ CHR ''/'' # p"] by (simp add: binary_path_def IsAbs_def HasPrefix_def)
qed

lemma pm_Validate_fields:
  "pm_Validate goos m = Inr m' \<Longrightarrow> pm_BinaryPath m' = pm_BinaryPath m \<and> pm_BinaryPath m \<noteq> [] \<and> pm_TaskTypes m' \<noteq> [] \<and> pm_Name m' \<noteq> []"
  by (auto simp: pm_Validate_def Let_def split: option.splits if_splits)

text \<open>C24: a manifest that is loaded from an absolute path names a binary strictly below the directory of the
  manifest: the path of the binary is the path of the directory followed by at least one component, and
  none of the components after it is \<open>..\<close>.\<close>

theorem plugin_binary_contained:
  assumes "LoadManifest goos yaml readFile path = Inr m" and "IsAbs path"
  shows "\<exists>rest. rest \<noteq> [] \<and> list_all plain_comp (abs_comps (pm_resolvedDir m) @ rest)
    \<and> pm_BinaryPath m = CHR ''/'' # join_with ''/'' (abs_comps (pm_resolvedDir m) @ rest)"
proof -
  let ?dir = "path_Dir path"
  obtain b where b: "b \<noteq> []" "HasPrefix (path_Clean (binary_path ?dir b)) (path_Clean ?dir @ ''/'')"
    and m: "pm_resolvedDir m = ?dir" "pm_BinaryPath m = path_Clean (binary_path ?dir b)"
    using assms(1) by (auto simp: LoadManifest_def ParseManifest_def Let_def dest!: pm_Validate_fields split: sum.splits if_splits)
  let ?bin = "binary_path ?dir b"
  have abs: "IsAbs ?dir" "IsAbs ?bin" using IsAbs_Dir [OF assms(2)] IsAbs_binary b(1) by auto
  from Clean_prefix [OF abs(2,1) b(2)] obtain rest where "rest \<noteq> []" "abs_comps ?bin = abs_comps ?dir @ rest" by blast
  then show ?thesis using abs_comps_plain(1) [of ?bin] Clean_abs [OF abs(2)] m by metis
qed

end
