(* ===== verification/Tunnel_Gateway.thy ===== *)
theory Tunnel_Gateway
imports Config_Types Interfaces Plugin_Manifest
begin

text \<open>
  The jump-host gateway (\<open>internal/gateway\<close>): the tunnels it relays, the pool that bounds them, the commands
  it runs on internal hosts over SSH, and how the agent configures it. A tunnel is shared by the pool and
  the goroutine that relays it, so the tunnels live in a store and the pool holds addresses.
\<close>

subsection \<open>config.go\<close>

record tg_SSHConfig =
  ts_User :: string
  ts_Password :: string
  ts_KeyFile :: string
  ts_Port :: int

record tg_HostConfig =
  th_ID :: string
  th_Hostname :: string
  th_Addr :: string
  th_Mode :: string
  th_SSH :: tg_SSHConfig

record tg_Config =
  tc_ListenAddr :: string
  tc_MaxTunnels :: int
  tc_TunnelTimeout :: duration
  tc_IdleTimeout :: duration
  tc_Hosts :: "tg_HostConfig list"
  tc_AuthPSK :: string

text \<open>How \<open>NewAgent\<close> fills it from the configuration file.\<close>

definition tunnel_host :: "GatewayHostConfig \<Rightarrow> tg_HostConfig" where
  "tunnel_host h =
     \<lparr>th_ID = host_ID h, th_Hostname = [], th_Addr = host_Addr h, th_Mode = host_Mode h,
      th_SSH = \<lparr>ts_User = ssh_User (host_SSH h), ts_Password = ssh_Password (host_SSH h),
        ts_KeyFile = ssh_KeyFile (host_SSH h), ts_Port = ssh_Port (host_SSH h)\<rparr>\<rparr>"

definition tunnel_config :: "Config_Types.GatewayConfig \<Rightarrow> tg_Config" where
  "tunnel_config g =
     \<lparr>tc_ListenAddr = gw_ListenAddr g, tc_MaxTunnels = gw_MaxTunnels g,
      tc_TunnelTimeout = wrap64 (gw_TunnelTimeoutSeconds g * Second), tc_IdleTimeout = wrap64 (gw_IdleTimeoutSeconds g * Second),
      tc_Hosts = map tunnel_host (elems (gw_Hosts g)), tc_AuthPSK = []\<rparr>"

subsection \<open>tunnel.go\<close>

record Tunnel =
  tn_id :: string
  tn_tunnelTimeout :: duration
  tn_idleTimeout :: duration
  tn_lastActivity :: time
  tn_closed :: bool
  tn_connOpen :: bool

text \<open>What the gateway tells the platform.\<close>

datatype tg_message =
    TunnelOpenMsg string string
  | TunnelDataMsg string string
  | TunnelCloseMsg string string
  | ProxyRegisterMsg string string string
  | ProxyResponseMsg string string int string string bool
  | ProxyMetricsMsg string string

text \<open>
  \<open>tg_store\<close> holds every tunnel that was created, \<open>tg_tunnels\<close> and \<open>tg_maxCount\<close> the pool, \<open>tg_relaying\<close> the tunnels whose
  handler is in \<open>Relay\<close>, \<open>tg_written\<close> what was written to the targets, \<open>tg_sent\<close> the calls of the senders.
\<close>

record TGateway =
  tg_cfg :: tg_Config
  tg_store :: "Tunnel list"
  tg_tunnels :: "nat gomap"
  tg_maxCount :: int
  tg_relaying :: "nat list"
  tg_running :: bool
  tg_listening :: bool
  tg_cancelled :: bool
  tg_written :: "(nat \<times> string) list"
  tg_sent :: "tg_message list"

definition tg_send :: "tg_message \<Rightarrow> TGateway \<Rightarrow> TGateway" where
  "tg_send m g = g\<lparr>tg_sent := tg_sent g @ [m]\<rparr>"

definition on_tunnel :: "nat \<Rightarrow> (Tunnel \<Rightarrow> Tunnel) \<Rightarrow> TGateway \<Rightarrow> TGateway" where
  "on_tunnel a f g = g\<lparr>tg_store := (tg_store g)[a := f (tg_store g ! a)]\<rparr>"

definition NewTunnel :: "string \<Rightarrow> duration \<Rightarrow> duration \<Rightarrow> time \<Rightarrow> Tunnel" where
  "NewTunnel i tunnelTimeout idleTimeout now =
     \<lparr>tn_id = i, tn_tunnelTimeout = tunnelTimeout, tn_idleTimeout = idleTimeout, tn_lastActivity = now, tn_closed = False, tn_connOpen = True\<rparr>"

definition IsIdle :: "time \<Rightarrow> Tunnel \<Rightarrow> bool" where
  "IsIdle now t \<longleftrightarrow> now - tn_lastActivity t > tn_idleTimeout t"

definition SendToTarget :: "time \<Rightarrow> err \<Rightarrow> string \<Rightarrow> nat \<Rightarrow> TGateway \<Rightarrow> err \<times> TGateway" where
  "SendToTarget now write_err data a g =
     (if tn_closed (tg_store g ! a) then (Some ''io: read/write on closed pipe'', g)
      else (write_err, (on_tunnel a (\<lambda>t. t\<lparr>tn_lastActivity := now\<rparr>) g)\<lparr>tg_written := tg_written g @ [(a, data)]\<rparr>))"

definition tun_Close :: "nat \<Rightarrow> TGateway \<Rightarrow> TGateway" where
  "tun_Close a g =
     (if tn_closed (tg_store g ! a) then g
      else on_tunnel a (\<lambda>t. t\<lparr>tn_connOpen := False\<rparr>)
             (tg_send (TunnelCloseMsg (tn_id (tg_store g ! a)) ''closed'') (on_tunnel a (\<lambda>t. t\<lparr>tn_closed := True\<rparr>) g)))"

datatype read_error = ReadTimeout | ReadEOF | ReadError

text \<open>One round of the loop of \<open>Relay\<close>: what \<open>Read\<close> gave, and whether it ends.\<close>

definition relay_round :: "time \<Rightarrow> string \<Rightarrow> read_error option \<Rightarrow> err \<Rightarrow> nat \<Rightarrow> TGateway \<Rightarrow> bool \<times> TGateway" where
  "relay_round now data rerr send_err a g =
     (if tg_cancelled g then (True, tun_Close a g)
      else if tn_closed (tg_store g ! a) then (True, g)
      else
        (let g1 = (if data = [] then g
                   else tg_send (TunnelDataMsg (tn_id (tg_store g ! a)) data) (on_tunnel a (\<lambda>t. t\<lparr>tn_lastActivity := now\<rparr>) g))
         in if data \<noteq> [] \<and> send_err \<noteq> None then (True, tun_Close a g1)
            else case rerr of
                   None \<Rightarrow> (False, g1)
                 | Some ReadTimeout \<Rightarrow> (False, g1)
                 | Some ReadEOF \<Rightarrow> (True, g1)
                 | Some ReadError \<Rightarrow> (True, tun_Close a g1)))"

subsection \<open>pool.go\<close>

definition pool_Add :: "nat \<Rightarrow> TGateway \<Rightarrow> bool \<times> TGateway" where
  "pool_Add a g =
     (if int (length (tg_tunnels g)) \<ge> tg_maxCount g then (False, g)
      else (True, g\<lparr>tg_tunnels := map_put (tn_id (tg_store g ! a)) a (tg_tunnels g)\<rparr>))"

definition pool_Get :: "string \<Rightarrow> TGateway \<Rightarrow> nat option" where
  "pool_Get i g = map_of (tg_tunnels g) i"

definition pool_Remove :: "string \<Rightarrow> TGateway \<Rightarrow> nat option \<times> TGateway" where
  "pool_Remove i g = (map_of (tg_tunnels g) i, g\<lparr>tg_tunnels := map_del i (tg_tunnels g)\<rparr>)"

definition ActiveCount :: "TGateway \<Rightarrow> nat" where
  "ActiveCount g = length (tg_tunnels g)"

definition CloseIdle :: "time \<Rightarrow> TGateway \<Rightarrow> TGateway" where
  "CloseIdle now g =
     (let idle = (\<lambda>e. IsIdle now (tg_store g ! snd e)); toClose = map snd (filter idle (tg_tunnels g))
      in fold tun_Close toClose (g\<lparr>tg_tunnels := filter (\<lambda>e. \<not> idle e) (tg_tunnels g)\<rparr>))"

definition CloseAll :: "TGateway \<Rightarrow> TGateway" where
  "CloseAll g = fold tun_Close (map snd (tg_tunnels g)) (g\<lparr>tg_tunnels := []\<rparr>)"

subsection \<open>gateway.go\<close>

definition New_tgateway :: "tg_Config \<Rightarrow> TGateway" where
  "New_tgateway cfg =
     \<lparr>tg_cfg = cfg, tg_store = [], tg_tunnels = [], tg_maxCount = tc_MaxTunnels cfg, tg_relaying = [], tg_running = False,
      tg_listening = False, tg_cancelled = False, tg_written = [], tg_sent = []\<rparr>"

definition register_host :: "tg_HostConfig \<Rightarrow> TGateway \<Rightarrow> TGateway" where
  "register_host h g =
     (if th_Mode h = ''proxy'' \<or> th_Mode h = ''auto'' then
        tg_send (ProxyRegisterMsg (th_ID h) (if th_Hostname h = [] then th_ID h else th_Hostname h) (th_Addr h)) g
      else g)"

definition tg_Start :: "err \<Rightarrow> TGateway \<Rightarrow> err \<times> TGateway" where
  "tg_Start listen_err g =
     (let g0 = g\<lparr>tg_cancelled := False\<rparr>
      in if tc_ListenAddr (tg_cfg g) \<noteq> [] \<and> listen_err \<noteq> None then (Some ''gateway listen %s: %w'', g0)
         else
           (let g1 = (if tc_ListenAddr (tg_cfg g) \<noteq> [] then g0\<lparr>tg_listening := True\<rparr> else g0);
                g2 = fold register_host (tc_Hosts (tg_cfg g)) g1
            in (None, g2\<lparr>tg_running := True\<rparr>)))"

text \<open>\<open>Stop\<close> without its wait for the goroutines.\<close>

definition tg_Stop :: "TGateway \<Rightarrow> TGateway" where
  "tg_Stop g =
     (if \<not> tg_running g then g else CloseAll (g\<lparr>tg_running := False, tg_cancelled := True, tg_listening := False\<rparr>))"

definition tg_HealthStatus :: "TGateway \<Rightarrow> string \<times> (nat \<times> int) option" where
  "tg_HealthStatus g = (if \<not> tg_running g then (''stopped'', None) else (''running'', Some (ActiveCount g, tc_MaxTunnels (tg_cfg g))))"

definition HandleTunnelData :: "time \<Rightarrow> err \<Rightarrow> string \<Rightarrow> string \<Rightarrow> TGateway \<Rightarrow> err \<times> TGateway" where
  "HandleTunnelData now write_err tunnelID data g =
     (case pool_Get tunnelID g of None \<Rightarrow> (Some ''tunnel %s not found'', g) | Some a \<Rightarrow> SendToTarget now write_err data a g)"

definition HandleTunnelClose :: "string \<Rightarrow> string \<Rightarrow> TGateway \<Rightarrow> TGateway" where
  "HandleTunnelClose tunnelID reason g =
     (case pool_Remove tunnelID g of (None, g1) \<Rightarrow> g1 | (Some a, g1) \<Rightarrow> tun_Close a g1)"

text \<open>The bytes of a connection up to its end; \<open>io.ReadFull\<close> wants all 32.\<close>

definition authenticateConnection :: "string \<Rightarrow> string \<Rightarrow> err" where
  "authenticateConnection psk input =
     (if length input < 32 then Some ''read auth token: %w''
      else if take 32 input \<noteq> psk then Some ''invalid auth token'' else None)"

text \<open>
  What a new connection meets: the clock, the bytes it sends, the random bytes of its tunnel ID, its
  address and the answer to \<open>SendTunnelOpen\<close>.
\<close>

record incoming =
  in_now :: time
  in_input :: string
  in_rand :: "nat list result"
  in_remote :: string
  in_open_err :: err

definition auth_failed :: "incoming \<Rightarrow> TGateway \<Rightarrow> bool" where
  "auth_failed c g \<longleftrightarrow> tc_AuthPSK (tg_cfg g) \<noteq> [] \<and> authenticateConnection (tc_AuthPSK (tg_cfg g)) (in_input c) \<noteq> None"

text \<open>\<open>handleIncoming\<close> up to its call of \<open>Relay\<close>, and what it does when \<open>Relay\<close> returns.\<close>

definition admit :: "Tunnel \<Rightarrow> incoming \<Rightarrow> TGateway \<Rightarrow> TGateway" where
  "admit t c g =
     (let a = length (tg_store g)
      in case pool_Add a (g\<lparr>tg_store := tg_store g @ [t]\<rparr>) of
           (False, g1) \<Rightarrow> tun_Close a g1
         | (True, g1) \<Rightarrow>
             (let g2 = tg_send (TunnelOpenMsg (tn_id t) (in_remote c)) g1
              in if in_open_err c \<noteq> None then tun_Close a (snd (pool_Remove (tn_id t) g2))
                 else g2\<lparr>tg_relaying := a # tg_relaying g2\<rparr>))"

definition handleIncoming :: "incoming \<Rightarrow> TGateway \<Rightarrow> TGateway" where
  "handleIncoming c g =
     (if auth_failed c g then g
      else
        (case in_rand c of
           Inl e \<Rightarrow> g
         | Inr randBytes \<Rightarrow>
             admit (NewTunnel (''tunnel-'' @ hex_encode randBytes) (tc_TunnelTimeout (tg_cfg g)) (tc_IdleTimeout (tg_cfg g)) (in_now c))
               c g))"

definition relay_ended :: "nat \<Rightarrow> TGateway \<Rightarrow> TGateway" where
  "relay_ended a g =
     on_tunnel a (\<lambda>t. t\<lparr>tn_connOpen := False\<rparr>)
       (snd (pool_Remove (tn_id (tg_store g ! a)) (g\<lparr>tg_relaying := filter (\<lambda>b. b \<noteq> a) (tg_relaying g)\<rparr>)))"

subsection \<open>The gateway as a machine\<close>

datatype tg_event =
    Incoming incoming
  | RelayRound time string "read_error option" err nat
  | PlatformData time err string string
  | PlatformClose string string
  | ReaperTick time
  | StopTunnels

definition relay_event :: "time \<Rightarrow> string \<Rightarrow> read_error option \<Rightarrow> err \<Rightarrow> nat \<Rightarrow> TGateway \<Rightarrow> TGateway" where
  "relay_event now data rerr send_err a g =
     (if a \<in> set (tg_relaying g) then
        (case relay_round now data rerr send_err a g of (ended, g1) \<Rightarrow> if ended then relay_ended a g1 else g1)
      else g)"

fun tg_step :: "tg_event \<Rightarrow> TGateway \<Rightarrow> TGateway" where
  "tg_step (Incoming c) g = handleIncoming c g"
| "tg_step (RelayRound now data rerr send_err a) g = relay_event now data rerr send_err a g"
| "tg_step (PlatformData now write_err i data) g = snd (HandleTunnelData now write_err i data g)"
| "tg_step (PlatformClose i reason) g = HandleTunnelClose i reason g"
| "tg_step (ReaperTick now) g = CloseIdle now g"
| "tg_step StopTunnels g = tg_Stop g"

definition live :: "TGateway \<Rightarrow> nat \<Rightarrow> bool" where
  "live g a \<longleftrightarrow> a \<in> set (tg_relaying g) \<and> \<not> tn_closed (tg_store g ! a)"

definition closes :: "string \<Rightarrow> TGateway \<Rightarrow> nat" where
  "closes i g = length (filter (\<lambda>m. m = TunnelCloseMsg i ''closed'') (tg_sent g))"

abbreviation ids :: "TGateway \<Rightarrow> string list" where
  "ids g \<equiv> map tn_id (tg_store g)"

text \<open>The invariant; \<open>P\<close> are the tunnels that left the pool and are about to be closed.\<close>

definition tg_ok :: "nat set \<Rightarrow> TGateway \<Rightarrow> bool" where
  "tg_ok P g \<longleftrightarrow> distinct (ids g)
     \<and> (\<forall>a \<in> set (tg_relaying g). a < length (tg_store g))
     \<and> (\<forall>i a. map_of (tg_tunnels g) i = Some a \<longleftrightarrow> live g a \<and> tn_id (tg_store g ! a) = i \<and> a \<notin> P)
     \<and> (\<forall>a < length (tg_store g). tn_connOpen (tg_store g ! a) = live g a
           \<and> closes (tn_id (tg_store g ! a)) g = (if tn_closed (tg_store g ! a) then 1 else 0))
     \<and> (\<forall>i. i \<notin> set (ids g) \<longrightarrow> closes i g = 0)"

lemma tg_okD:
  assumes "tg_ok P g"
  shows "distinct (ids g)" "a \<in> set (tg_relaying g) \<Longrightarrow> a < length (tg_store g)"
    "map_of (tg_tunnels g) i = Some a \<longleftrightarrow> live g a \<and> tn_id (tg_store g ! a) = i \<and> a \<notin> P"
    "a < length (tg_store g) \<Longrightarrow> tn_connOpen (tg_store g ! a) = live g a"
    "a < length (tg_store g) \<Longrightarrow> closes (tn_id (tg_store g ! a)) g = (if tn_closed (tg_store g ! a) then 1 else 0)"
    "i \<notin> set (ids g) \<Longrightarrow> closes i g = 0"
  using assms by (auto simp: tg_ok_def)

lemma same_id:
  assumes "tg_ok P g" "a < length (tg_store g)" "b < length (tg_store g)" "tn_id (tg_store g ! a) = tn_id (tg_store g ! b)"
  shows "a = b"
  using nth_eq_iff_index_eq [OF tg_okD(1) [OF assms(1)], of a b] assms by simp

lemma on_tunnel_sel [simp]:
  "tg_tunnels (on_tunnel a f g) = tg_tunnels g" "tg_relaying (on_tunnel a f g) = tg_relaying g"
  "tg_sent (on_tunnel a f g) = tg_sent g" "tg_cancelled (on_tunnel a f g) = tg_cancelled g" "tg_cfg (on_tunnel a f g) = tg_cfg g"
  "tg_maxCount (on_tunnel a f g) = tg_maxCount g" "tg_running (on_tunnel a f g) = tg_running g"
  "tg_store (on_tunnel a f g) = (tg_store g)[a := f (tg_store g ! a)]"
  by (simp_all add: on_tunnel_def)

lemma tg_send_sel [simp]:
  "tg_tunnels (tg_send m g) = tg_tunnels g" "tg_relaying (tg_send m g) = tg_relaying g" "tg_store (tg_send m g) = tg_store g"
  "tg_sent (tg_send m g) = tg_sent g @ [m]" "tg_cancelled (tg_send m g) = tg_cancelled g" "tg_cfg (tg_send m g) = tg_cfg g"
  "tg_maxCount (tg_send m g) = tg_maxCount g" "tg_running (tg_send m g) = tg_running g"
  by (simp_all add: tg_send_def)

lemma ids_on_tunnel: "(\<And>t. tn_id (f t) = tn_id t) \<Longrightarrow> ids (on_tunnel a f g) = ids g"
  by (cases "a < length (tg_store g)") (simp_all add: map_update list_update_same_conv list_update_beyond)

lemma tun_Close_sel [simp]:
  "tg_tunnels (tun_Close a g) = tg_tunnels g" "tg_relaying (tun_Close a g) = tg_relaying g"
  "tg_maxCount (tun_Close a g) = tg_maxCount g" "tg_cfg (tun_Close a g) = tg_cfg g" "ids (tun_Close a g) = ids g"
  "length (tg_store (tun_Close a g)) = length (tg_store g)"
  by (simp_all add: tun_Close_def ids_on_tunnel del: on_tunnel_sel(8)) (simp add: on_tunnel_def)

lemma tun_Close_closed:
  "a < length (tg_store g) \<Longrightarrow> tn_closed (tg_store (tun_Close a g) ! b) \<longleftrightarrow> b = a \<or> tn_closed (tg_store g ! b)"
  by (auto simp: tun_Close_def nth_list_update)

lemma closes_send: "closes i (tg_send m g) = closes i g + (if m = TunnelCloseMsg i ''closed'' then 1 else 0)"
  by (simp add: closes_def)

lemma closes_on_tunnel [simp]: "closes i (on_tunnel a f g) = closes i g"
  by (simp add: closes_def)

text \<open>Closing a tunnel that is not in the pool keeps the invariant.\<close>

lemma tun_Close_ok:
  assumes ok: "tg_ok P g" and a: "a < length (tg_store g)" "a \<in> P \<or> a \<notin> set (tg_relaying g)"
  shows "tg_ok (P - {a}) (tun_Close a g)"
proof (cases "tn_closed (tg_store g ! a)")
  case True
  then have "tun_Close a g = g" by (simp add: tun_Close_def)
  with True ok show ?thesis by (auto simp: tg_ok_def live_def)
next
  case False
  let ?g = "tun_Close a g" and ?t = "tg_store g ! a"
  have st: "tg_store ?g = (tg_store g)[a := ?t\<lparr>tn_closed := True, tn_connOpen := False\<rparr>]"
    using False a by (simp add: tun_Close_def)
  have cl: "closes i ?g = closes i g + (if i = tn_id ?t then 1 else 0)" for i
    using False by (simp add: tun_Close_def closes_send)
  have lv: "live ?g b \<longleftrightarrow> live g b \<and> b \<noteq> a" for b
    using a by (auto simp: live_def st nth_list_update)
  have pa: "live g a \<Longrightarrow> a \<in> P" using a(2) by (auto simp: live_def)
  have nid: "tn_id (tg_store ?g ! b) = tn_id (tg_store g ! b)" for b using a by (simp add: st nth_list_update)
  show ?thesis
    unfolding tg_ok_def
  proof (intro conjI allI impI ballI)
    show "distinct (ids ?g)" using tg_okD(1) [OF ok] by simp
    show "b < length (tg_store ?g)" if "b \<in> set (tg_relaying ?g)" for b using that tg_okD(2) [OF ok] by simp
    show "(map_of (tg_tunnels ?g) i = Some b) = (live ?g b \<and> tn_id (tg_store ?g ! b) = i \<and> b \<notin> P - {a})" for i b
      using tg_okD(3) [OF ok, of i b] pa by (auto simp: lv nid)
    show "tn_connOpen (tg_store ?g ! b) = live ?g b" if "b < length (tg_store ?g)" for b
      using that tg_okD(4) [OF ok, of b] by (cases "b = a") (simp_all add: lv st)
    show "closes (tn_id (tg_store ?g ! b)) ?g = (if tn_closed (tg_store ?g ! b) then 1 else 0)" if "b < length (tg_store ?g)" for b
      using that tg_okD(5) [OF ok, of b] same_id [OF ok, of b a] a False
      by (auto simp: cl nid) (auto simp: st nth_list_update split: if_splits)
    show "closes i ?g = 0" if "i \<notin> set (ids ?g)" for i
      using that tg_okD(6) [OF ok, of i] nth_mem [OF a(1)] by (auto simp: cl)
  qed
qed

lemma fold_Close_sel [simp]:
  "tg_tunnels (fold tun_Close as g) = tg_tunnels g" "tg_relaying (fold tun_Close as g) = tg_relaying g"
  "tg_maxCount (fold tun_Close as g) = tg_maxCount g" "tg_cfg (fold tun_Close as g) = tg_cfg g" "ids (fold tun_Close as g) = ids g"
  "length (tg_store (fold tun_Close as g)) = length (tg_store g)"
  by (induction as arbitrary: g) simp_all

lemma fold_Close_ok:
  "tg_ok P g \<Longrightarrow> \<forall>a \<in> set as. a < length (tg_store g) \<and> (a \<in> P \<or> a \<notin> set (tg_relaying g) \<or> tn_closed (tg_store g ! a)) \<Longrightarrow>
   tg_ok (P - set as) (fold tun_Close as g)"
proof (induction as arbitrary: g P)
  case (Cons a as)
  have ok: "tg_ok (P - {a}) (tun_Close a g)"
  proof (cases "tn_closed (tg_store g ! a)")
    case True
    then have "tun_Close a g = g" by (simp add: tun_Close_def)
    with True Cons.prems(1) show ?thesis by (auto simp: tg_ok_def live_def)
  qed (use Cons.prems in \<open>auto intro!: tun_Close_ok\<close>)
  have "a < length (tg_store g)" using Cons.prems(2) by simp
  then have "\<forall>b \<in> set as. b < length (tg_store (tun_Close a g))
      \<and> (b \<in> P - {a} \<or> b \<notin> set (tg_relaying (tun_Close a g)) \<or> tn_closed (tg_store (tun_Close a g) ! b))"
    using Cons.prems(2) unfolding tun_Close_sel tun_Close_closed [OF \<open>a < length (tg_store g)\<close>] by auto
  from Cons.IH [OF ok this] have "tg_ok (P - {a} - set as) (fold tun_Close (a # as) g)" by simp
  moreover have "P - {a} - set as = P - set (a # as)" by auto
  ultimately show ?case by simp
qed simp

text \<open>Entries that leave the pool are pending until they are closed.\<close>

lemma shrink_pool_ok:
  assumes ok: "tg_ok {} g" and q: "\<And>i. map_of q i = (if i \<in> I then None else map_of (tg_tunnels g) i)"
  shows "tg_ok {a. \<exists>i \<in> I. map_of (tg_tunnels g) i = Some a} (g\<lparr>tg_tunnels := q\<rparr>)"
proof -
  have lv: "live (g\<lparr>tg_tunnels := q\<rparr>) = live g" by (simp add: live_def fun_eq_iff)
  have cl: "closes i (g\<lparr>tg_tunnels := q\<rparr>) = closes i g" for i by (simp add: closes_def)
  have "(map_of q i = Some a) = (live g a \<and> tn_id (tg_store g ! a) = i \<and> (\<forall>i \<in> I. map_of (tg_tunnels g) i \<noteq> Some a))" for i a
    using tg_okD(3) [OF ok] by (auto simp: q)
  then show ?thesis using ok by (simp add: tg_ok_def lv cl) blast
qed

lemma pool_live: "tg_ok P g \<Longrightarrow> map_of (tg_tunnels g) i = Some a \<Longrightarrow> a < length (tg_store g) \<and> live g a \<and> tn_id (tg_store g ! a) = i"
  using tg_okD(2,3) by (auto simp: live_def)

lemma HandleTunnelClose_ok:
  assumes "tg_ok {} g"
  shows "tg_ok {} (HandleTunnelClose i reason g)"
proof -
  have "tg_ok {a. \<exists>j \<in> {i}. map_of (tg_tunnels g) j = Some a} (snd (pool_Remove i g))"
    unfolding pool_Remove_def snd_conv by (rule shrink_pool_ok [OF assms]) simp
  then have ok: "tg_ok {a. map_of (tg_tunnels g) i = Some a} (snd (pool_Remove i g))" by simp
  show ?thesis
  proof (cases "map_of (tg_tunnels g) i")
    case (Some a)
    have "tg_ok ({b. map_of (tg_tunnels g) i = Some b} - {a}) (tun_Close a (snd (pool_Remove i g)))"
      using pool_live [OF assms Some] Some by (intro tun_Close_ok [OF ok]) (simp_all add: pool_Remove_def)
    moreover have "{b. map_of (tg_tunnels g) i = Some b} - {a} = {}" using Some by auto
    ultimately show ?thesis using Some by (simp add: HandleTunnelClose_def pool_Remove_def)
  qed (use ok in \<open>simp add: HandleTunnelClose_def pool_Remove_def\<close>)
qed

lemma CloseIdle_ok:
  assumes ok: "tg_ok {} g" and d: "distinct (map fst (tg_tunnels g))"
  shows "tg_ok {} (CloseIdle now g)"
proof -
  let ?idle = "\<lambda>e. IsIdle now (tg_store g ! snd e)" and ?pool = "tg_tunnels g"
  let ?q = "filter (\<lambda>e. \<not> ?idle e) ?pool" and ?as = "map snd (filter ?idle ?pool)"
  let ?I = "{i. \<exists>a. map_of ?pool i = Some a \<and> ?idle (i, a)}"
  let ?P = "{a. \<exists>i \<in> ?I. map_of ?pool i = Some a}"
  have "?P = {a. \<exists>i. map_of ?pool i = Some a \<and> ?idle (i, a)}" by auto
  also have "\<dots> = set ?as" using d by (force simp: map_of_eq_Some_iff)
  finally have P: "?P = set ?as" .
  have "tg_ok ?P (g\<lparr>tg_tunnels := ?q\<rparr>)"
    by (rule shrink_pool_ok [OF ok]) (auto simp: map_of_filter_entries [OF d] split: option.splits)
  then have "tg_ok (?P - set ?as) (fold tun_Close ?as (g\<lparr>tg_tunnels := ?q\<rparr>))"
  proof (rule fold_Close_ok)
    show "\<forall>a \<in> set ?as. a < length (tg_store (g\<lparr>tg_tunnels := ?q\<rparr>)) \<and> (a \<in> ?P \<or> a \<notin> set (tg_relaying (g\<lparr>tg_tunnels := ?q\<rparr>))
        \<or> tn_closed (tg_store (g\<lparr>tg_tunnels := ?q\<rparr>) ! a))"
      unfolding P [symmetric] using pool_live [OF ok] by auto
  qed
  then show ?thesis unfolding P by (simp add: CloseIdle_def Let_def)
qed

lemma CloseAll_ok:
  assumes ok: "tg_ok {} g" and d: "distinct (map fst (tg_tunnels g))"
  shows "tg_ok {} (CloseAll g)"
proof -
  let ?as = "map snd (tg_tunnels g)" and ?P = "{a. \<exists>i \<in> UNIV. map_of (tg_tunnels g) i = Some a}"
  have P: "?P = set ?as" using d by (force simp: map_of_eq_Some_iff)
  have "tg_ok ?P (g\<lparr>tg_tunnels := []\<rparr>)" by (rule shrink_pool_ok [OF ok]) simp
  then have "tg_ok (?P - set ?as) (fold tun_Close ?as (g\<lparr>tg_tunnels := []\<rparr>))"
  proof (rule fold_Close_ok)
    show "\<forall>a \<in> set ?as. a < length (tg_store (g\<lparr>tg_tunnels := []\<rparr>)) \<and> (a \<in> ?P \<or> a \<notin> set (tg_relaying (g\<lparr>tg_tunnels := []\<rparr>))
        \<or> tn_closed (tg_store (g\<lparr>tg_tunnels := []\<rparr>) ! a))"
      unfolding P [symmetric] using pool_live [OF ok] by auto
  qed
  then show ?thesis unfolding P by (simp add: CloseAll_def)
qed

text \<open>Steps that touch neither the pool nor who relays.\<close>

lemma touch_ok:
  assumes ok: "tg_ok P g" and f: "\<And>t. tn_id (f t) = tn_id t" "\<And>t. tn_closed (f t) = tn_closed t" "\<And>t. tn_connOpen (f t) = tn_connOpen t"
  shows "tg_ok P (on_tunnel a f g)"
proof -
  let ?g = "on_tunnel a f g"
  have st: "tn_id (tg_store ?g ! b) = tn_id (tg_store g ! b) \<and> tn_closed (tg_store ?g ! b) = tn_closed (tg_store g ! b)
      \<and> tn_connOpen (tg_store ?g ! b) = tn_connOpen (tg_store g ! b)" for b
    using f by (cases "a < length (tg_store g)") (auto simp: nth_list_update list_update_beyond)
  have "live ?g = live g" by (simp add: live_def fun_eq_iff st del: on_tunnel_sel(8))
  moreover have "length (tg_store ?g) = length (tg_store g)" by simp
  ultimately show ?thesis
    using ok ids_on_tunnel [of f a g, OF f(1)] by (simp add: tg_ok_def st del: on_tunnel_sel(8) set_map)
qed

lemma other_fields_ok:
  assumes "tg_ok P g" "tg_store g' = tg_store g" "tg_tunnels g' = tg_tunnels g" "tg_relaying g' = tg_relaying g"
    and "\<And>i. closes i g' = closes i g"
  shows "tg_ok P g'"
  using assms unfolding tg_ok_def live_def by simp

lemma data_sent_ok: "tg_ok P g \<Longrightarrow> tg_ok P (tg_send (TunnelDataMsg i d) g)"
  by (erule other_fields_ok) (simp_all add: closes_send)

lemma HandleTunnelData_ok: "tg_ok {} g \<Longrightarrow> tg_ok {} (snd (HandleTunnelData now e i d g))"
  unfolding HandleTunnelData_def SendToTarget_def
  by (auto split: option.splits intro!: other_fields_ok [OF touch_ok [of "{}" g "\<lambda>t. t\<lparr>tn_lastActivity := now\<rparr>"]] simp: closes_def)

lemma relay_ended_ok:
  assumes ok: "tg_ok {} g" and a: "a \<in> set (tg_relaying g)"
  shows "tg_ok {} (relay_ended a g)"
proof -
  let ?g = "relay_ended a g"
  have la: "a < length (tg_store g)" using tg_okD(2) [OF ok a] .
  have st: "tn_id (tg_store ?g ! b) = tn_id (tg_store g ! b)" "tn_closed (tg_store ?g ! b) = tn_closed (tg_store g ! b)"
      "tn_connOpen (tg_store ?g ! b) = (b \<noteq> a \<and> tn_connOpen (tg_store g ! b))" for b
    using la by (auto simp: relay_ended_def pool_Remove_def nth_list_update)
  have sel: "tg_relaying ?g = filter (\<lambda>b. b \<noteq> a) (tg_relaying g)" "tg_tunnels ?g = map_del (tn_id (tg_store g ! a)) (tg_tunnels g)"
      "length (tg_store ?g) = length (tg_store g)" "ids ?g = ids g" "closes i ?g = closes i g" for i
    using ids_on_tunnel [of "\<lambda>t. t\<lparr>tn_connOpen := False\<rparr>"] by (simp_all add: relay_ended_def pool_Remove_def closes_def)
  have lv: "live ?g b \<longleftrightarrow> live g b \<and> b \<noteq> a" for b by (auto simp: live_def st sel)
  have "(map_of (tg_tunnels ?g) i = Some b) = (live ?g b \<and> tn_id (tg_store ?g ! b) = i)" for i b
    using tg_okD(2,3) [OF ok] same_id [OF ok _ la, of b] by (auto simp: sel st lv live_def)
  then show ?thesis using ok by (simp add: tg_ok_def st sel lv del: set_map) auto
qed

lemma relay_ended_Close: "relay_ended a (tun_Close a g) = tun_Close a (relay_ended a g)"
  by (cases "a < length (tg_store g)"; cases "tn_closed (tg_store g ! a)")
     (simp_all add: relay_ended_def tun_Close_def pool_Remove_def on_tunnel_def tg_send_def list_update_beyond)

lemma relay_event_ok:
  assumes ok: "tg_ok {} g"
  shows "tg_ok {} (relay_event now d rerr e a g)"
proof (cases "a \<in> set (tg_relaying g)")
  case True
  have close: "tg_ok {} (relay_ended a (tun_Close a h))" if "tg_ok {} h" "a \<in> set (tg_relaying h)" for h
  proof -
    have "tg_ok ({} - {a}) (tun_Close a (relay_ended a h))"
      using tg_okD(2) [OF that] by (intro tun_Close_ok [OF relay_ended_ok [OF that]]) (simp_all add: relay_ended_def pool_Remove_def)
    then show ?thesis by (simp add: relay_ended_Close)
  qed
  define h where "h = (if d = [] then g
      else tg_send (TunnelDataMsg (tn_id (tg_store g ! a)) d) (on_tunnel a (\<lambda>t. t\<lparr>tn_lastActivity := now\<rparr>) g))"
  have h: "tg_ok {} h" "a \<in> set (tg_relaying h)" using ok True by (simp_all add: h_def data_sent_ok touch_ok)
  show ?thesis
    using True close [OF ok True] close [OF h] relay_ended_ok [OF ok True] relay_ended_ok [OF h] h(1)
    by (simp add: relay_event_def relay_round_def Let_def flip: h_def split: option.splits read_error.splits)
qed (use ok in \<open>simp add: relay_event_def\<close>)

text \<open>A tunnel that was never in the pool, or left it at once.\<close>

lemma new_closed_ok:
  assumes ok: "tg_ok {} g" and i: "tn_id t \<notin> set (ids g)" and t: "tn_closed t" "\<not> tn_connOpen t"
    and g': "tg_store g' = tg_store g @ [t]" "map_of (tg_tunnels g') = map_of (tg_tunnels g)" "tg_relaying g' = tg_relaying g"
      "\<And>i. closes i g' = closes i g + (if i = tn_id t then 1 else 0)"
  shows "tg_ok {} g'"
proof -
  have lv: "live g' b \<longleftrightarrow> live g b" for b using tg_okD(2) [OF ok] by (auto simp: live_def g' nth_append)
  have len: "live g b \<Longrightarrow> b < length (tg_store g)" for b using tg_okD(2) [OF ok] by (simp add: live_def)
  have fresh: "b < length (tg_store g) \<Longrightarrow> tn_id (tg_store g ! b) \<noteq> tn_id t" for b using i nth_mem [of b "tg_store g"] by (metis imageI set_map)
  have "(map_of (tg_tunnels g') j = Some b) = (live g' b \<and> tn_id (tg_store g' ! b) = j)" for j b
    using tg_okD(3) [OF ok] len by (auto simp: lv g' nth_append)
  moreover have "tn_connOpen (tg_store g' ! b) = live g' b
      \<and> closes (tn_id (tg_store g' ! b)) g' = (if tn_closed (tg_store g' ! b) then 1 else 0)" if "b < length (tg_store g')" for b
    using that tg_okD(4,5) [OF ok, of b] tg_okD(6) [OF ok i] len [of b] fresh [of b] t
    by (cases "b = length (tg_store g)") (auto simp: lv g' nth_append)
  moreover have "distinct (ids g')" using tg_okD(1) [OF ok] i by (simp add: g')
  moreover have "\<forall>b \<in> set (tg_relaying g'). b < length (tg_store g')" using tg_okD(2) [OF ok] by (simp add: g' less_SucI)
  moreover have "closes j g' = 0" if "j \<notin> set (ids g')" for j using tg_okD(6) [OF ok, of j] that by (simp add: g')
  ultimately show ?thesis unfolding tg_ok_def by blast
qed

lemma new_relay_ok:
  assumes ok: "tg_ok {} g" and i: "tn_id t \<notin> set (ids g)" and t: "\<not> tn_closed t" "tn_connOpen t"
    and g': "tg_store g' = tg_store g @ [t]" "map_of (tg_tunnels g') = (map_of (tg_tunnels g))(tn_id t \<mapsto> length (tg_store g))"
      "tg_relaying g' = length (tg_store g) # tg_relaying g" "\<And>i. closes i g' = closes i g"
  shows "tg_ok {} g'"
proof -
  let ?a = "length (tg_store g)"
  have lv: "live g' b \<longleftrightarrow> live g b \<or> b = ?a" for b using tg_okD(2) [OF ok] t by (auto simp: live_def g' nth_append)
  have len: "live g b \<Longrightarrow> b < ?a" for b using tg_okD(2) [OF ok] by (simp add: live_def)
  have fresh: "b < ?a \<Longrightarrow> tn_id (tg_store g ! b) \<noteq> tn_id t" for b using i nth_mem [of b "tg_store g"] by (metis imageI set_map)
  have "(map_of (tg_tunnels g') j = Some b) = (live g' b \<and> tn_id (tg_store g' ! b) = j)" for j b
    using tg_okD(3) [OF ok, of j b] len [of b] fresh [of b] len [of ?a] by (auto simp: lv g' nth_append)
  moreover have "tn_connOpen (tg_store g' ! b) = live g' b
      \<and> closes (tn_id (tg_store g' ! b)) g' = (if tn_closed (tg_store g' ! b) then 1 else 0)" if "b < length (tg_store g')" for b
    using that tg_okD(4,5) [OF ok, of b] tg_okD(6) [OF ok i] len [of b] fresh [of b] t
    by (cases "b = ?a") (auto simp: lv g' nth_append)
  moreover have "distinct (ids g')" using tg_okD(1) [OF ok] i by (simp add: g')
  moreover have "\<forall>b \<in> set (tg_relaying g'). b < length (tg_store g')" using tg_okD(2) [OF ok] by (simp add: g' less_SucI)
  moreover have "closes j g' = 0" if "j \<notin> set (ids g')" for j using tg_okD(6) [OF ok, of j] that by (simp add: g')
  ultimately show ?thesis unfolding tg_ok_def by blast
qed

lemma Close_new:
  assumes "tg_store h = s @ [t]" "\<not> tn_closed t"
  shows "tg_store (tun_Close (length s) h) = s @ [t\<lparr>tn_closed := True, tn_connOpen := False\<rparr>]"
    "closes i (tun_Close (length s) h) = closes i h + (if i = tn_id t then 1 else 0)"
  using assms by (simp_all add: tun_Close_def closes_send)

text \<open>The ends of a new connection.\<close>

lemma admit_rejected:
  assumes "int (length (tg_tunnels g)) \<ge> tg_maxCount g \<or> in_open_err c \<noteq> None" "\<not> tn_closed t"
  shows "tg_store (admit t c g) = tg_store g @ [t\<lparr>tn_closed := True, tn_connOpen := False\<rparr>]"
    "tg_relaying (admit t c g) = tg_relaying g" "closes i (admit t c g) = closes i g + (if i = tn_id t then 1 else 0)"
    "map_of (tg_tunnels g) (tn_id t) = None \<Longrightarrow> map_of (tg_tunnels (admit t c g)) = map_of (tg_tunnels g)"
  using assms by (auto simp: admit_def pool_Add_def pool_Remove_def Let_def Close_new closes_send fun_eq_iff) (auto simp: closes_def)

lemma admit_relayed:
  assumes "int (length (tg_tunnels g)) < tg_maxCount g" "in_open_err c = None"
  shows "tg_store (admit t c g) = tg_store g @ [t]" "tg_relaying (admit t c g) = length (tg_store g) # tg_relaying g"
    "closes i (admit t c g) = closes i g"
    "map_of (tg_tunnels (admit t c g)) = (map_of (tg_tunnels g))(tn_id t \<mapsto> length (tg_store g))"
  using assms by (auto simp: admit_def pool_Add_def Let_def closes_def)

lemma admit_ids: "\<not> tn_closed t \<Longrightarrow> ids (admit t c g) = ids g @ [tn_id t]"
  using admit_rejected(1) [of g c t] admit_relayed(1) [of g c t]
  by (cases "int (length (tg_tunnels g)) \<ge> tg_maxCount g \<or> in_open_err c \<noteq> None") auto

lemma admit_ok:
  assumes ok: "tg_ok {} g" and t: "\<not> tn_closed t" "tn_connOpen t" and i: "tn_id t \<notin> set (ids g)"
  shows "tg_ok {} (admit t c g)"
proof (cases "int (length (tg_tunnels g)) \<ge> tg_maxCount g \<or> in_open_err c \<noteq> None")
  case True
  have "map_of (tg_tunnels g) (tn_id t) = None"
  proof (rule ccontr)
    assume "map_of (tg_tunnels g) (tn_id t) \<noteq> None"
    then obtain a where "map_of (tg_tunnels g) (tn_id t) = Some a" by blast
    from pool_live [OF ok this] i show False by (metis imageI nth_mem set_map)
  qed
  then show ?thesis
    using admit_rejected [OF True t(1)] i
    by (intro new_closed_ok [OF ok, of "t\<lparr>tn_closed := True, tn_connOpen := False\<rparr>"]) simp_all
next
  case False
  then show ?thesis using admit_relayed [where g = g and c = c and t = t] i t by (intro new_relay_ok [OF ok, of t]) auto
qed

lemma NewTunnel_sel [simp]: "tn_id (NewTunnel i a b n) = i" "\<not> tn_closed (NewTunnel i a b n)" "tn_connOpen (NewTunnel i a b n)"
  by (simp_all add: NewTunnel_def)

lemma handleIncoming_ok:
  assumes "tg_ok {} g" "distinct (ids (handleIncoming c g))"
  shows "tg_ok {} (handleIncoming c g)"
  using assms by (auto simp: handleIncoming_def admit_ids simp del: set_map split: sum.splits intro!: admit_ok)

text \<open>The store only grows, and no tunnel changes its ID.\<close>

lemma CloseAll_ids [simp]: "ids (CloseAll g) = ids g"
  by (simp add: CloseAll_def)

lemma step_ids: "\<exists>new. ids (tg_step e g) = ids g @ new"
proof (cases e)
  case (Incoming c)
  then show ?thesis by (auto simp: handleIncoming_def admit_ids split: sum.splits)
next
  case (RelayRound now d rerr e' a)
  have touch: "ids (on_tunnel a (\<lambda>t. t\<lparr>tn_lastActivity := now\<rparr>) g) = ids g" by (rule ids_on_tunnel) simp
  have ended: "ids (relay_ended a h) = ids h" for h
    using ids_on_tunnel [of "\<lambda>t. t\<lparr>tn_connOpen := False\<rparr>"] by (simp add: relay_ended_def pool_Remove_def)
  show ?thesis
    using RelayRound touch
    by (auto simp: relay_event_def relay_round_def ended Let_def simp del: on_tunnel_sel(8) split: option.splits read_error.splits)
next
  case (PlatformData now we i d)
  have "ids (on_tunnel a (\<lambda>t. t\<lparr>tn_lastActivity := now\<rparr>) g) = ids g" for a by (rule ids_on_tunnel) simp
  then show ?thesis using PlatformData
    by (auto simp: HandleTunnelData_def SendToTarget_def simp del: on_tunnel_sel(8) split: option.splits)
qed (auto simp: HandleTunnelClose_def pool_Remove_def CloseIdle_def tg_Stop_def Let_def split: option.splits)

text \<open>The pool by itself.\<close>

definition pool_ok :: "TGateway \<Rightarrow> bool" where
  "pool_ok g \<longleftrightarrow> map_ok (tg_tunnels g) \<and> int (length (tg_tunnels g)) \<le> max 0 (tg_maxCount g)"

lemma pool_ok_filter: "pool_ok g \<Longrightarrow> tg_maxCount g' = tg_maxCount g \<Longrightarrow> tg_tunnels g' = filter P (tg_tunnels g) \<Longrightarrow> pool_ok g'"
  using order_trans [OF of_nat_mono [OF length_filter_le, where 'a = int, of P "tg_tunnels g"], of "max 0 (tg_maxCount g)"]
  by (simp add: pool_ok_def map_ok_def sorted_filter distinct_map_filter)

lemma pool_ok_del: "pool_ok g \<Longrightarrow> tg_maxCount g' = tg_maxCount g \<Longrightarrow> tg_tunnels g' = map_del k (tg_tunnels g) \<Longrightarrow> pool_ok g'"
  unfolding map_del_def by (rule pool_ok_filter)

lemma pool_ok_same: "pool_ok g \<Longrightarrow> tg_maxCount g' = tg_maxCount g \<Longrightarrow> tg_tunnels g' = tg_tunnels g \<Longrightarrow> pool_ok g'"
  by (simp add: pool_ok_def)

lemma pool_ok_admit: "pool_ok g \<Longrightarrow> pool_ok (admit t c g)"
proof -
  assume ok: "pool_ok g"
  show ?thesis
  proof (cases "int (length (tg_tunnels g)) \<ge> tg_maxCount g")
    case True
    then show ?thesis by (intro pool_ok_same [OF ok]) (simp_all add: admit_def pool_Add_def)
  next
    case False
    let ?g = "g\<lparr>tg_tunnels := map_put (tn_id t) (length (tg_store g)) (tg_tunnels g)\<rparr>"
    have put: "pool_ok ?g" using ok False by (auto simp: pool_ok_def map_ok_put length_map_put)
    show ?thesis
    proof (cases "in_open_err c")
      case None
      then show ?thesis using False by (intro pool_ok_same [OF put]) (simp_all add: admit_def pool_Add_def Let_def)
    next
      case (Some e)
      then show ?thesis using False
        by (intro pool_ok_del [OF put, of _ "tn_id t"]) (simp_all add: admit_def pool_Add_def pool_Remove_def Let_def)
    qed
  qed
qed

lemma relay_round_sel [simp]:
  "tg_tunnels (snd (relay_round now d rerr e a g)) = tg_tunnels g" "tg_maxCount (snd (relay_round now d rerr e a g)) = tg_maxCount g"
  "tg_cfg (snd (relay_round now d rerr e a g)) = tg_cfg g"
  by (simp_all add: relay_round_def Let_def split: option.splits read_error.splits)

lemma pool_ok_step:
  assumes ok: "pool_ok g"
  shows "pool_ok (tg_step e g)"
proof (cases e)
  case (Incoming c)
  then show ?thesis using ok by (simp add: handleIncoming_def pool_ok_admit split: sum.splits)
next
  case (RelayRound now d rerr e' a)
  let ?r = "relay_round now d rerr e' a g"
  have r: "pool_ok (snd ?r)" by (rule pool_ok_same [OF ok]) simp_all
  have "pool_ok (relay_ended a (snd ?r))" by (rule pool_ok_del [OF r]) (simp_all add: relay_ended_def pool_Remove_def)
  with r ok show ?thesis using RelayRound by (simp add: relay_event_def case_prod_beta)
next
  case (PlatformData now we i d)
  then show ?thesis by (intro pool_ok_same [OF ok]) (simp_all add: HandleTunnelData_def SendToTarget_def split: option.splits)
next
  case (PlatformClose i r)
  then show ?thesis by (intro pool_ok_del [OF ok, where k = i]) (simp_all add: HandleTunnelClose_def pool_Remove_def split: option.splits)
next
  case (ReaperTick now)
  then show ?thesis
    by (intro pool_ok_filter [OF ok, where P = "\<lambda>e. \<not> IsIdle now (tg_store g ! snd e)"]) (simp_all add: CloseIdle_def Let_def)
next
  case StopTunnels
  then show ?thesis using ok by (simp add: tg_Stop_def CloseAll_def pool_ok_def)
qed

lemma tg_ok_step:
  assumes ok: "tg_ok {} g" and p: "pool_ok g" and d: "distinct (ids (tg_step e g))"
  shows "tg_ok {} (tg_step e g)"
proof (cases e)
  case StopTunnels
  have "tg_ok {} (g\<lparr>tg_running := False, tg_cancelled := True, tg_listening := False\<rparr>)"
    by (rule other_fields_ok [OF ok]) (simp_all add: closes_def)
  with StopTunnels ok p show ?thesis by (simp add: tg_Stop_def CloseAll_ok pool_ok_def)
qed (use ok p d in \<open>auto simp: handleIncoming_ok relay_event_ok HandleTunnelData_ok HandleTunnelClose_ok CloseIdle_ok pool_ok_def\<close>)

lemma step_maxCount [simp]: "tg_maxCount (tg_step e g) = tg_maxCount g"
proof -
  have "tg_maxCount (admit t c g) = tg_maxCount g" for t c by (simp add: admit_def pool_Add_def pool_Remove_def Let_def)
  then show ?thesis
    by (cases e) (simp_all add: handleIncoming_def relay_event_def case_prod_beta relay_ended_def pool_Remove_def HandleTunnelData_def
        SendToTarget_def HandleTunnelClose_def CloseIdle_def tg_Stop_def CloseAll_def Let_def split: sum.splits option.splits)
qed

definition tg_inv :: "int \<Rightarrow> TGateway \<Rightarrow> bool" where
  "tg_inv n g \<longleftrightarrow> pool_ok g \<and> tg_maxCount g = n \<and> (distinct (ids g) \<longrightarrow> tg_ok {} g)"

interpretation tunnels: invariant_machine tg_step "tg_inv n" for n
proof
  fix e g assume inv: "tg_inv n g"
  obtain new where "ids (tg_step e g) = ids g @ new" using step_ids by blast
  with inv show "tg_inv n (tg_step e g)" by (auto simp: tg_inv_def pool_ok_step simp del: set_map intro!: tg_ok_step)
qed

lemma fold_register_sel [simp]:
  "tg_store (fold register_host hs g) = tg_store g" "tg_tunnels (fold register_host hs g) = tg_tunnels g"
  "tg_relaying (fold register_host hs g) = tg_relaying g" "tg_maxCount (fold register_host hs g) = tg_maxCount g"
  "closes i (fold register_host hs g) = closes i g"
  by (induction hs arbitrary: g) (simp_all add: register_host_def closes_send)

lemma tg_Start_inv: "tg_inv (tc_MaxTunnels cfg) (snd (tg_Start listen_err (New_tgateway cfg)))"
proof -
  have "closes i (g\<lparr>tg_running := True\<rparr>) = closes i g" "tg_sent g = [] \<Longrightarrow> closes i g = 0" for i g by (simp_all add: closes_def)
  then show ?thesis by (simp add: tg_inv_def pool_ok_def tg_ok_def live_def tg_Start_def New_tgateway_def Let_def)
qed

text \<open>A tunnel whose handler is gone without closing it stays as it is.\<close>

definition left_open :: "nat \<Rightarrow> string \<Rightarrow> TGateway \<Rightarrow> bool" where
  "left_open a i g \<longleftrightarrow> a < length (tg_store g) \<and> a \<notin> set (tg_relaying g) \<and> \<not> tn_closed (tg_store g ! a) \<and> tn_id (tg_store g ! a) = i"

lemma fold_Close_closed:
  "\<forall>a \<in> set as. a < length (tg_store g) \<Longrightarrow> tn_closed (tg_store (fold tun_Close as g) ! b) \<longleftrightarrow> b \<in> set as \<or> tn_closed (tg_store g ! b)"
  by (induction as arbitrary: g) (auto simp: tun_Close_closed)

lemma fold_Close_left_open:
  assumes "left_open b i g" "\<forall>a \<in> set as. a < length (tg_store g) \<and> a \<noteq> b"
  shows "left_open b i (fold tun_Close as g)"
proof -
  have "tn_id (tg_store (fold tun_Close as g) ! b) = tn_id (tg_store g ! b)"
    using fold_Close_sel(5,6) [of as g] assms(1) by (metis left_open_def nth_map)
  then show ?thesis using assms fold_Close_closed [of as g b] by (auto simp: left_open_def)
qed

lemma left_open_cong:
  assumes "left_open b i g" "tg_store g' = tg_store g" "set (tg_relaying g') \<subseteq> set (tg_relaying g)"
  shows "left_open b i g'"
  using assms by (auto simp: left_open_def)

lemma left_open_on:
  assumes "left_open b i g" "\<And>t. tn_id (f t) = tn_id t" "\<And>t. tn_closed (f t) = tn_closed t"
  shows "left_open b i (on_tunnel a f g)"
  using assms by (cases "a < length (tg_store g)") (auto simp: left_open_def nth_list_update list_update_beyond)

lemma left_open_admit:
  assumes "left_open b i g" "\<not> tn_closed t"
  shows "left_open b i (admit t c g)"
  using assms admit_rejected(1,2) [of g c t] admit_relayed(1,2) [of g c t]
  by (cases "int (length (tg_tunnels g)) \<ge> tg_maxCount g \<or> in_open_err c \<noteq> None") (auto simp: left_open_def nth_append)

lemma left_open_relay:
  assumes "left_open b i g" "tg_ok {} g"
  shows "left_open b i (relay_event now d rerr e a g)"
proof (cases "a \<in> set (tg_relaying g)")
  case True
  then have a: "a < length (tg_store g)" "a \<noteq> b" using tg_okD(2) [OF assms(2)] assms(1) by (auto simp: left_open_def)
  have close: "left_open b i (tun_Close a h)" if "left_open b i h" "a < length (tg_store h)" for h
    using fold_Close_left_open [OF that(1), of "[a]"] that(2) a(2) by simp
  have ended: "left_open b i (relay_ended a h)" if "left_open b i h" for h
    unfolding relay_ended_def pool_Remove_def snd_conv
    by (rule left_open_on) (auto intro!: left_open_cong [OF that])
  have touch: "left_open b i (tg_send m (on_tunnel a (\<lambda>t. t\<lparr>tn_lastActivity := now\<rparr>) g))" for m
    by (rule left_open_cong [OF left_open_on [OF assms(1), of "\<lambda>t. t\<lparr>tn_lastActivity := now\<rparr>"]]) simp_all
  show ?thesis
    using True assms(1) a touch
    by (auto simp: relay_event_def relay_round_def Let_def intro!: ended close split: option.splits read_error.splits)
qed (use assms in \<open>simp add: relay_event_def\<close>)

lemma left_open_step:
  assumes lo: "left_open b i g" and ok: "tg_ok {} g" "pool_ok g"
  shows "left_open b i (tg_step e g)"
proof -
  have pool: "a < length (tg_store g) \<and> a \<noteq> b" if "(j, a) \<in> set (tg_tunnels g)" for j a
    using pool_live [OF ok(1), of j a] lo ok(2) that by (auto simp: left_open_def live_def pool_ok_def)
  have cut: "left_open b i (g\<lparr>tg_tunnels := q\<rparr>)" for q by (rule left_open_cong [OF lo]) simp_all
  show ?thesis
  proof (cases e)
    case (Incoming c)
    then show ?thesis using lo by (simp add: handleIncoming_def left_open_admit split: sum.splits)
  next
    case (PlatformData now we j d)
    have "left_open b i (on_tunnel a (\<lambda>t. t\<lparr>tn_lastActivity := now\<rparr>) g)" for a by (rule left_open_on [OF lo]) simp_all
    from left_open_cong [OF this] show ?thesis
      using PlatformData lo by (auto simp: HandleTunnelData_def SendToTarget_def split: option.splits)
  next
    case (PlatformClose j r)
    have "left_open b i (tun_Close a (g\<lparr>tg_tunnels := q\<rparr>))" if "map_of (tg_tunnels g) j = Some a" for a q
      using fold_Close_left_open [OF cut, of "[a]" q] pool [OF map_of_SomeD [OF that]] by simp
    then show ?thesis using PlatformClose cut by (auto simp: HandleTunnelClose_def pool_Remove_def split: option.splits)
  next
    case (ReaperTick now)
    have "left_open b i (fold tun_Close (map snd (filter Q (tg_tunnels g))) (g\<lparr>tg_tunnels := q\<rparr>))" for Q q
      using pool by (intro fold_Close_left_open [OF cut]) fastforce
    then show ?thesis using ReaperTick by (simp add: CloseIdle_def Let_def)
  next
    case StopTunnels
    have "left_open b i (g\<lparr>tg_running := False, tg_cancelled := True, tg_listening := False, tg_tunnels := []\<rparr>)"
      by (rule left_open_cong [OF lo]) simp_all
    then have "left_open b i (fold tun_Close (map snd (tg_tunnels g))
        (g\<lparr>tg_running := False, tg_cancelled := True, tg_listening := False, tg_tunnels := []\<rparr>))"
      by (rule fold_Close_left_open) (use pool in fastforce)
    then show ?thesis using StopTunnels lo by (simp add: tg_Stop_def CloseAll_def)
  qed (use left_open_relay [OF lo ok(1)] in simp)
qed

definition left_inv :: "nat \<Rightarrow> string \<Rightarrow> TGateway \<Rightarrow> bool" where
  "left_inv b i g \<longleftrightarrow> pool_ok g \<and> (distinct (ids g) \<longrightarrow> tg_ok {} g \<and> left_open b i g)"

interpretation left: invariant_machine tg_step "left_inv b i" for b i
proof
  fix e g assume inv: "left_inv b i g"
  obtain new where "ids (tg_step e g) = ids g @ new" using step_ids by blast
  with inv show "left_inv b i (tg_step e g)"
    by (auto simp: left_inv_def pool_ok_step left_open_step simp del: set_map intro!: tg_ok_step)
qed

subsection \<open>What the tunnels promise\<close>


text \<open>A tunnel that its host ends is never reported: when a read of a relayed tunnel gives the end of the
  stream, the connection is closed and the tunnel leaves the pool, but the platform gets no message that
  the tunnel is closed, neither then nor later.\<close>

theorem eof_never_reported:
  fixes cfg :: tg_Config and listen_err :: err and es es' :: "tg_event list" and now :: time and d :: string and a :: nat
  defines "s \<equiv> fold tg_step es (snd (tg_Start listen_err (New_tgateway cfg)))"
  defines "s' \<equiv> fold tg_step es' (tg_step (RelayRound now d (Some ReadEOF) None a) s)"
  assumes "distinct (ids s')" "a \<in> set (tg_relaying s)" "\<not> tg_cancelled s" "\<not> tn_closed (tg_store s ! a)"
  shows "closes (tn_id (tg_store s ! a)) s' = 0 \<and> \<not> tn_connOpen (tg_store s' ! a)
    \<and> map_of (tg_tunnels s') (tn_id (tg_store s ! a)) = None"
proof -
  let ?i = "tn_id (tg_store s ! a)" and ?e = "RelayRound now d (Some ReadEOF) None a"
  have inv: "tg_inv (tc_MaxTunnels cfg) s" unfolding s_def by (rule tunnels.run_inv [OF tg_Start_inv])
  have "left_open a ?i (tg_step ?e s)" if "tg_ok {} s"
    using assms(4-6) tg_okD(2) [OF that assms(4)]
    by (simp add: relay_event_def relay_round_def relay_ended_def pool_Remove_def Let_def left_open_def)
  moreover have "tg_inv (tc_MaxTunnels cfg) (tg_step ?e s)" by (rule tunnels.step_inv [OF inv])
  moreover have "distinct (ids (tg_step ?e s)) \<Longrightarrow> tg_ok {} s" using inv step_ids [of ?e s] by (auto simp: tg_inv_def simp del: set_map)
  ultimately have "left_inv a ?i (tg_step ?e s)" by (auto simp: left_inv_def tg_inv_def)
  then have "left_inv a ?i s'" unfolding s'_def by (rule left.run_inv)
  then have ok: "tg_ok {} s'" and lo: "left_open a ?i s'" using assms(3) by (simp_all add: left_inv_def)
  have "map_of (tg_tunnels s') ?i \<noteq> Some b" for b
    using pool_live [OF ok, of ?i b] same_id [OF ok, of a b] lo by (auto simp: left_open_def live_def)
  then have "map_of (tg_tunnels s') ?i = None" by auto
  then show ?thesis using tg_okD(4,5) [OF ok, of a] lo by (simp add: left_open_def live_def)
qed

subsection \<open>ssh.go\<close>

record proxy_SSHConfig =
  px_User :: string
  px_Password :: string
  px_KeyFile :: string
  px_Port :: int
  px_KnownHostsFile :: string
  px_InsecureSkipVerify :: bool

datatype auth_method = AuthPassword string | AuthKey string

datatype host_key = AcceptAnyKey | CheckKnownHosts string

text \<open>How the SSH library and the host answer; a key is parsed to its signer.\<close>

record ssh_env =
  se_ReadFile :: "string \<Rightarrow> string result"
  se_ParsePrivateKey :: "string \<Rightarrow> string result"
  se_UserHomeDir :: "string result"
  se_knownhosts :: "string \<Rightarrow> err"
  se_dial :: err
  se_handshake :: err
  se_session :: err

definition buildAuth :: "ssh_env \<Rightarrow> proxy_SSHConfig \<Rightarrow> auth_method list result" where
  "buildAuth env c =
     (let methods = (if px_Password c \<noteq> [] then [AuthPassword (px_Password c)] else [])
      in if px_KeyFile c = [] then
           (if methods = [] then Inl ''no ssh auth methods configured (set password or key_file)'' else Inr methods)
         else
           (case se_ReadFile env (px_KeyFile c) of
              Inl e \<Rightarrow> Inl ''read key file: %w''
            | Inr key \<Rightarrow>
               (case se_ParsePrivateKey env key of
                  Inl e \<Rightarrow> Inl ''parse private key: %w''
                | Inr signer \<Rightarrow> Inr (methods @ [AuthKey signer]))))"

definition buildHostKeyCallback :: "ssh_env \<Rightarrow> proxy_SSHConfig \<Rightarrow> host_key result" where
  "buildHostKeyCallback env c =
     (if px_InsecureSkipVerify c then Inr AcceptAnyKey
      else
        (case (if px_KnownHostsFile c \<noteq> [] then Inr (px_KnownHostsFile c)
               else (case se_UserHomeDir env of
                       Inl e \<Rightarrow> Inl ''determine home directory: %w''
                     | Inr home \<Rightarrow> Inr (path_Join [home, ''.ssh'', ''known_hosts'']))) of
           Inl e \<Rightarrow> Inl e
         | Inr f \<Rightarrow> (case se_knownhosts env f of Some e \<Rightarrow> Inl ''load known hosts %s: %w'' | None \<Rightarrow> Inr (CheckKnownHosts f))))"

record ssh_conn =
  sn_addr :: string
  sn_user :: string
  sn_auth :: "auth_method list"
  sn_hostKey :: host_key

definition ssh_Connect :: "ssh_env \<Rightarrow> proxy_SSHConfig \<Rightarrow> string \<Rightarrow> ssh_conn result" where
  "ssh_Connect env c addr =
     (case buildAuth env c of
        Inl e \<Rightarrow> Inl (''ssh auth: '' @ e)
      | Inr auth \<Rightarrow>
         (case buildHostKeyCallback env c of
            Inl e \<Rightarrow> Inl (''ssh host key: '' @ e)
          | Inr cb \<Rightarrow>
              if se_dial env \<noteq> None then Inl ''ssh dial %s: %w''
              else if se_handshake env \<noteq> None then Inl ''ssh handshake %s: %w''
              else Inr \<lparr>sn_addr = addr @ '':'' @ itoa (px_Port c), sn_user = px_User c, sn_auth = auth, sn_hostKey = cb\<rparr>))"

definition shellQuote :: "string \<Rightarrow> string" where
  "shellQuote s =
     [CHR 0x27] @ concat (map (\<lambda>c. if c = CHR 0x27 then [CHR 0x27, CHR 0x5C, CHR 0x27, CHR 0x27] else [c]) s) @ [CHR 0x27]"

definition fullCmd :: "string \<Rightarrow> string list \<Rightarrow> string" where
  "fullCmd command args = shellQuote command @ concat (map (\<lambda>arg. '' '' @ shellQuote arg) args)"

datatype ssh_run = SshOK | SshExit int | SshFail string | SshTimeout

text \<open>The answer of the host: how the run ends, and what is in the two buffers then.\<close>

definition ssh_Execute :: "ssh_env \<Rightarrow> ssh_run \<times> string \<times> string \<Rightarrow> int \<times> string \<times> string \<times> bool" where
  "ssh_Execute env ans =
     (case se_session env of
        Some e \<Rightarrow> (- 1, [], e, False)
      | None \<Rightarrow>
         (case ans of
            (SshTimeout, out, er) \<Rightarrow> (- 1, out, er, True)
          | (SshExit n, out, er) \<Rightarrow> (n, out, er, False)
          | (SshFail e, out, er) \<Rightarrow> (- 1, out, e, False)
          | (SshOK, out, er) \<Rightarrow> (0, out, er, False)))"

subsection \<open>gateway.go: commands for a host\<close>

definition proxy_ssh :: "tg_HostConfig \<Rightarrow> proxy_SSHConfig" where
  "proxy_ssh host =
     \<lparr>px_User = ts_User (th_SSH host), px_Password = ts_Password (th_SSH host), px_KeyFile = ts_KeyFile (th_SSH host),
      px_Port = ts_Port (th_SSH host), px_KnownHostsFile = [], px_InsecureSkipVerify = False\<rparr>"

definition proxy_timeout :: "int \<Rightarrow> duration" where
  "proxy_timeout timeoutSec = (let t = timeoutSec * Second in if t \<le> 0 then 30 * Second else t)"

text \<open>The command line that is run, if a session is opened, and the result.\<close>

definition executeProxyCommand ::
    "ssh_env \<Rightarrow> (ssh_conn \<Rightarrow> string \<Rightarrow> duration \<Rightarrow> ssh_run \<times> string \<times> string) \<Rightarrow> proxy_SSHConfig \<Rightarrow> string \<Rightarrow> string \<Rightarrow> string list \<Rightarrow> int
     \<Rightarrow> (ssh_conn \<times> string) option \<times> int \<times> string \<times> string \<times> bool" where
  "executeProxyCommand env run sshcfg addr command args timeoutSec =
     (case ssh_Connect env sshcfg addr of
        Inl e \<Rightarrow> (None, - 1, [], e, False)
      | Inr conn \<Rightarrow>
          (if se_session env = None then Some (conn, fullCmd command args) else None,
           ssh_Execute env (run conn (fullCmd command args) (proxy_timeout timeoutSec))))"

definition HandleProxyCommand ::
    "ssh_env \<Rightarrow> (ssh_conn \<Rightarrow> string \<Rightarrow> duration \<Rightarrow> ssh_run \<times> string \<times> string) \<Rightarrow> err \<Rightarrow> string \<Rightarrow> string \<Rightarrow> string list \<Rightarrow> int \<Rightarrow> TGateway
     \<Rightarrow> (ssh_conn \<times> string) option \<times> err \<times> TGateway" where
  "HandleProxyCommand env run send_err hostID command args timeoutSec g =
     (case find (\<lambda>h. th_ID h = hostID) (tc_Hosts (tg_cfg g)) of
        None \<Rightarrow> (None, Some ''proxy host %s not configured'', g)
      | Some h \<Rightarrow>
         (case executeProxyCommand env run (proxy_ssh h) (th_Addr h) command args timeoutSec of
            (started, exitCode, out, er, timedOut) \<Rightarrow>
              (started, send_err, tg_send (ProxyResponseMsg hostID command exitCode out er timedOut) g)))"

subsection \<open>proxy.go\<close>

record proxy_HostConfig =
  ph_ID :: string
  ph_Addr :: string
  ph_SSH :: proxy_SSHConfig

definition NewManager :: "proxy_HostConfig list \<Rightarrow> proxy_HostConfig gomap" where
  "NewManager hosts = fold (\<lambda>h. map_put (ph_ID h) h) hosts []"

text \<open>In some order of the map; the first error ends it.\<close>

fun RegisterHosts :: "(string \<Rightarrow> err) \<Rightarrow> proxy_HostConfig list \<Rightarrow> tg_message list \<times> err" where
  "RegisterHosts send_err [] = ([], None)"
| "RegisterHosts send_err (h # hs) =
     (let m = ProxyRegisterMsg (ph_ID h) (ph_ID h) (ph_Addr h)
      in case send_err (ph_ID h) of
           Some e \<Rightarrow> ([m], Some e)
         | None \<Rightarrow> (case RegisterHosts send_err hs of (ms, e) \<Rightarrow> (m # ms, e)))"

definition mgr_ExecuteCommand ::
    "ssh_env \<Rightarrow> (ssh_conn \<Rightarrow> string \<Rightarrow> duration \<Rightarrow> ssh_run \<times> string \<times> string) \<Rightarrow> err \<Rightarrow> string \<Rightarrow> string \<Rightarrow> string list \<Rightarrow> int
     \<Rightarrow> proxy_HostConfig gomap \<Rightarrow> err \<times> tg_message list" where
  "mgr_ExecuteCommand env run send_err hostID command args timeoutSec m =
     (case map_of m hostID of
        None \<Rightarrow> (Some ''proxy host %s not configured'', [])
      | Some h \<Rightarrow>
         (case executeProxyCommand env run (ph_SSH h) (ph_Addr h) command args timeoutSec of
            (started, exitCode, out, er, timedOut) \<Rightarrow> (send_err, [ProxyResponseMsg hostID command exitCode out er timedOut])))"

definition metric_commands :: "(string \<times> string) list" where
  "metric_commands =
     [(''cpu'', ''top -bn1 | head -5''), (''memory'', ''free -b''), (''disk'', ''df -B1''), (''load'', ''cat /proc/loadavg'')]"

definition collectAndSendMetrics ::
    "ssh_env \<Rightarrow> (ssh_conn \<Rightarrow> string \<Rightarrow> duration \<Rightarrow> ssh_run \<times> string \<times> string) \<Rightarrow> (string gomap \<Rightarrow> string result) \<Rightarrow> err \<Rightarrow> string \<Rightarrow> ssh_conn
     \<Rightarrow> err \<times> tg_message list" where
  "collectAndSendMetrics env run json send_err hostID conn =
     (let metrics = fold (\<lambda>(name, cmd). map_put name (fst (snd (ssh_Execute env (run conn (fullCmd cmd []) (30 * Second)))))) metric_commands []
      in case json metrics of
           Inl e \<Rightarrow> (Some ''marshal metrics for host %s: %w'', [])
         | Inr data \<Rightarrow> (send_err, [ProxyMetricsMsg hostID data]))"

definition ExecuteMetricsCollect ::
    "ssh_env \<Rightarrow> (ssh_conn \<Rightarrow> string \<Rightarrow> duration \<Rightarrow> ssh_run \<times> string \<times> string) \<Rightarrow> (string gomap \<Rightarrow> string result) \<Rightarrow> err \<Rightarrow> string
     \<Rightarrow> proxy_HostConfig gomap \<Rightarrow> err \<times> tg_message list" where
  "ExecuteMetricsCollect env run json send_err hostID m =
     (case map_of m hostID of
        None \<Rightarrow> (Some ''proxy host %s not configured'', [])
      | Some h \<Rightarrow>
         (case ssh_Connect env (ph_SSH h) (ph_Addr h) of
            Inl e \<Rightarrow> (Some e, [])
          | Inr conn \<Rightarrow> collectAndSendMetrics env run json send_err hostID conn))"

subsection \<open>The words of a command line\<close>

text \<open>
  How a POSIX shell splits a line into words, as far as it consists of plain characters, single quotes, escaped
  characters and blanks; None for a quote without an end and for any character with another meaning.
\<close>

definition sh_special :: "char list" where
  "sh_special = [CHR 0x0A, CHR 0x22] @ ''|&;<>()$`*?[#~=%!{}''"

fun sh_lex :: "bool \<Rightarrow> string option \<Rightarrow> string \<Rightarrow> string list option" where
  "sh_lex True w [] = None"
| "sh_lex False w [] = Some (case w of None \<Rightarrow> [] | Some v \<Rightarrow> [v])"
| "sh_lex True w (c # cs) = (if c = CHR 0x27 then sh_lex False w cs else sh_lex True (map_option (\<lambda>v. v @ [c]) w) cs)"
| "sh_lex False w (c # cs) =
     (let v = (case w of None \<Rightarrow> [] | Some v \<Rightarrow> v)
      in if c = CHR 0x27 then sh_lex True (Some v) cs
         else if c = CHR 0x5C then
           (case cs of [] \<Rightarrow> None | d # ds \<Rightarrow> if d = CHR 0x0A then None else sh_lex False (Some (v @ [d])) ds)
         else if c = CHR 0x20 \<or> c = CHR 0x09 then
           (case w of None \<Rightarrow> sh_lex False None cs | Some v \<Rightarrow> map_option (Cons v) (sh_lex False None cs))
         else if c \<in> set sh_special then None
         else sh_lex False (Some (v @ [c])) cs)"

definition sh_words :: "string \<Rightarrow> string list option" where
  "sh_words s = sh_lex False None s"

lemma lex_quoted:
  "sh_lex True (Some v) (concat (map (\<lambda>c. if c = CHR 0x27 then [CHR 0x27, CHR 0x5C, CHR 0x27, CHR 0x27] else [c]) s) @ CHR 0x27 # rest) =
   sh_lex False (Some (v @ s)) rest"
  by (induction s arbitrary: v) simp_all

lemma lex_shellQuote: "sh_lex False None (shellQuote s @ rest) = sh_lex False (Some s) rest"
  using lex_quoted [of "[]" s rest] by (simp add: shellQuote_def)

lemma sh_words_fullCmd: "sh_words (fullCmd command args) = Some (command # args)"
proof -
  have "sh_lex False (Some w) (concat (map (\<lambda>arg. '' '' @ shellQuote arg) args)) = Some (w # args)" for w
    by (induction args arbitrary: w) (simp_all add: lex_shellQuote)
  then show ?thesis by (simp add: sh_words_def fullCmd_def lex_shellQuote)
qed

text \<open>C16: a proxied command reaches its host as it was given: a command for a configured host is answered by exactly
  one response with its host and command, and when it is run, then as a line that a shell splits into exactly
  the command and its arguments, whatever characters they contain, over a connection to that host whose
  key is checked against the known hosts.\<close>

theorem proxy_command_faithful:
  assumes "HandleProxyCommand env run send_err hostID command args timeoutSec g = (started, e, g')"
    and "hostID \<in> th_ID ` set (tc_Hosts (tg_cfg g))"
  shows "(\<exists>code out er late. tg_sent g' = tg_sent g @ [ProxyResponseMsg hostID command code out er late])
    \<and> (\<forall>conn line. started = Some (conn, line) \<longrightarrow> sh_words line = Some (command # args)
         \<and> (\<exists>f h. sn_hostKey conn = CheckKnownHosts f \<and> h \<in> set (tc_Hosts (tg_cfg g)) \<and> th_ID h = hostID
              \<and> sn_addr conn = th_Addr h @ '':'' @ itoa (ts_Port (th_SSH h))))"
proof -
  obtain h where h: "find (\<lambda>h. th_ID h = hostID) (tc_Hosts (tg_cfg g)) = Some h" "h \<in> set (tc_Hosts (tg_cfg g))" "th_ID h = hostID"
    using assms(2) by (cases "find (\<lambda>h. th_ID h = hostID) (tc_Hosts (tg_cfg g))") (auto simp: find_None_iff find_Some_iff)
  have conn: "sn_addr conn = th_Addr h @ '':'' @ itoa (ts_Port (th_SSH h)) \<and> (\<exists>f. sn_hostKey conn = CheckKnownHosts f)"
    if "ssh_Connect env (proxy_ssh h) (th_Addr h) = Inr conn" for conn
    using that by (auto simp: ssh_Connect_def buildHostKeyCallback_def proxy_ssh_def split: sum.splits option.splits if_splits)
  have "started = Some (conn, line) \<Longrightarrow> ssh_Connect env (proxy_ssh h) (th_Addr h) = Inr conn \<and> line = fullCmd command args" for conn line
    using assms(1) h(1) by (auto simp: HandleProxyCommand_def executeProxyCommand_def split: sum.splits prod.splits if_splits)
  moreover have "\<exists>code out er late. tg_sent g' = tg_sent g @ [ProxyResponseMsg hostID command code out er late]"
    using assms(1) h(1) by (auto simp: HandleProxyCommand_def split: prod.splits)
  ultimately show ?thesis using conn h(2,3) sh_words_fullCmd by metis
qed

text \<open>The agent's gateway never asks a tunnel for a key: with every configuration file, every connection is
  admitted whatever bytes it sends, as long as the pool has room, the random source works and the
  platform can be told.\<close>

theorem agent_tunnels_unauthenticated:
  assumes "tg_cfg g = tunnel_config cfg" "in_rand c = Inr bytes" "in_open_err c = None" "int (ActiveCount g) < tg_maxCount g"
  shows "map_of (tg_tunnels (handleIncoming c g)) (''tunnel-'' @ hex_encode bytes) = Some (length (tg_store g))"
  using assms admit_relayed(4) [of g c]
  by (simp add: handleIncoming_def auth_failed_def tunnel_config_def ActiveCount_def)

lemma psk_length: "authenticateConnection psk input = None \<longleftrightarrow> length psk = 32 \<and> (\<exists>rest. input = psk @ rest)"
  by (auto simp: authenticateConnection_def intro: exI [of _ "drop 32 input"])

subsection \<open>Stopping\<close>

lemma relay_event_cancelled:
  assumes "tg_cancelled g"
  shows "tg_relaying (relay_event now d rerr e a g) = filter (\<lambda>b. b \<noteq> a) (tg_relaying g)" "tg_cancelled (relay_event now d rerr e a g)"
proof -
  have "tg_relaying (relay_ended a h) = filter (\<lambda>b. b \<noteq> a) (tg_relaying h)" "tg_cancelled (relay_ended a h) = tg_cancelled h" for h
    by (simp_all add: relay_ended_def pool_Remove_def)
  moreover have "tg_cancelled (tun_Close a g) = tg_cancelled g" by (simp add: tun_Close_def)
  moreover have "a \<notin> set (tg_relaying g) \<Longrightarrow> filter (\<lambda>b. b \<noteq> a) (tg_relaying g) = tg_relaying g"
    by (rule filter_True) auto
  ultimately show "tg_relaying (relay_event now d rerr e a g) = filter (\<lambda>b. b \<noteq> a) (tg_relaying g)" "tg_cancelled (relay_event now d rerr e a g)"
    using assms by (simp_all add: relay_event_def relay_round_def)
qed

lemma relays_end:
  "tg_cancelled g \<Longrightarrow> tg_relaying (fold (\<lambda>a. tg_step (RelayRound (now a) (d a) (rerr a) (e a) a)) as g) = filter (\<lambda>b. b \<notin> set as) (tg_relaying g)"
proof (induction as arbitrary: g)
  case (Cons a as)
  have "(\<lambda>b. b \<noteq> a \<and> b \<notin> set as) = (\<lambda>b. b \<notin> set (a # as))" by auto
  then show ?case using Cons.IH [OF relay_event_cancelled(2)] Cons.prems by (simp add: relay_event_cancelled conj_commute)
qed simp

lemma Stop_sel: "tg_running g \<Longrightarrow> tg_cancelled (tg_Stop g) \<and> tg_relaying (tg_Stop g) = tg_relaying g"
proof -
  have "tg_cancelled (fold tun_Close as h) = tg_cancelled h" for as h
    by (induction as arbitrary: h) (simp_all add: tun_Close_def)
  then show "tg_running g \<Longrightarrow> ?thesis" by (simp add: tg_Stop_def CloseAll_def)
qed

text \<open>C29: stopping the gateway ends every relay: from any state of a running gateway, once it is stopped, one more
  round of the loop of each relayed tunnel, whatever its read gives, ends them all, so that the wait for them
  returns; no connection of a tunnel is then open and no tunnel is left in the pool.\<close>

theorem stop_ends_relays:
  fixes cfg :: tg_Config and listen_err :: err and es :: "tg_event list"
    and now :: "nat \<Rightarrow> time" and d :: "nat \<Rightarrow> string" and rerr :: "nat \<Rightarrow> read_error option" and e :: "nat \<Rightarrow> err"
  defines "s \<equiv> fold tg_step es (snd (tg_Start listen_err (New_tgateway cfg)))"
  defines "s' \<equiv> fold (\<lambda>a. tg_step (RelayRound (now a) (d a) (rerr a) (e a) a)) (tg_relaying s) (tg_Stop s)"
  assumes "tg_running s" "distinct (ids s')"
  shows "tg_relaying s' = [] \<and> tg_tunnels s' = [] \<and> (\<forall>t \<in> set (tg_store s'). \<not> tn_connOpen t)"
proof -
  have "s' = fold tg_step (StopTunnels # map (\<lambda>a. RelayRound (now a) (d a) (rerr a) (e a) a) (tg_relaying s)) s"
    by (simp add: s'_def fold_map comp_def)
  moreover have "tg_inv (tc_MaxTunnels cfg) s" unfolding s_def by (rule tunnels.run_inv [OF tg_Start_inv])
  ultimately have "tg_inv (tc_MaxTunnels cfg) s'" by (metis tunnels.run_inv)
  then have ok: "tg_ok {} s'" using assms(4) by (simp add: tg_inv_def)
  have r: "tg_relaying s' = []" unfolding s'_def using Stop_sel [OF assms(3)] by (simp add: relays_end)
  then have "map_of (tg_tunnels s') i = None" for i using tg_okD(3) [OF ok, of i] by (cases "map_of (tg_tunnels s') i") (auto simp: live_def)
  then have "tg_tunnels s' = []" by (metis list.set_intros(1) map_of_eq_None_iff neq_Nil_conv not_None_eq image_eqI)
  then show ?thesis using r tg_okD(4) [OF ok] by (auto simp: live_def in_set_conv_nth)
qed

subsection \<open>Examples\<close>

definition lab_host :: tg_HostConfig where
  "lab_host = \<lparr>th_ID = ''db'', th_Hostname = [], th_Addr = ''10.0.0.5'', th_Mode = ''proxy'',
     th_SSH = \<lparr>ts_User = ''ops'', ts_Password = ''pw'', ts_KeyFile = [], ts_Port = 22\<rparr>\<rparr>"

definition lab_config :: tg_Config where
  "lab_config = \<lparr>tc_ListenAddr = '':18081'', tc_MaxTunnels = 1, tc_TunnelTimeout = Second, tc_IdleTimeout = Second,
     tc_Hosts = [lab_host], tc_AuthPSK = []\<rparr>"

definition lab_peer :: "nat \<Rightarrow> incoming" where
  "lab_peer n = \<lparr>in_now = 0, in_input = [], in_rand = Inr [n], in_remote = ''10.0.0.9:4711'', in_open_err = None\<rparr>"


theorem eof_never_reported_witness:
  "\<exists>s. s = tg_step (RelayRound 5 ''hi'' (Some ReadEOF) None 0) (tg_step (Incoming (lab_peer 1)) (snd (tg_Start None (New_tgateway lab_config))))
     \<and> closes ''tunnel-01'' s = 0 \<and> map_of (tg_tunnels s) ''tunnel-01'' = None"
proof -
  let ?s = "fold tg_step [Incoming (lab_peer 1)] (snd (tg_Start None (New_tgateway lab_config)))"
  let ?s' = "fold tg_step [] (tg_step (RelayRound 5 ''hi'' (Some ReadEOF) None 0) ?s)"
  note defs = tg_Start_def New_tgateway_def lab_config_def lab_host_def lab_peer_def Let_def handleIncoming_def auth_failed_def
    admit_def pool_Add_def tun_Close_def tg_send_def on_tunnel_def NewTunnel_def hex_encode_def hex_digit_def register_host_def
  have s: "tn_id (tg_store ?s ! 0) = ''tunnel-01''" "\<not> tn_closed (tg_store ?s ! 0)" "0 \<in> set (tg_relaying ?s)" "\<not> tg_cancelled ?s"
    by (simp_all add: defs)
  have "ids ?s' = [''tunnel-01'']" by (simp add: defs relay_event_def relay_round_def relay_ended_def pool_Remove_def)
  then have "distinct (ids ?s')" by simp
  from eof_never_reported [OF this s(3,4,2)] show ?thesis using s(1) by (intro exI [of _ ?s']) simp
qed

definition lab_ssh :: ssh_env where
  "lab_ssh = \<lparr>se_ReadFile = \<lambda>_. Inl ''none'', se_ParsePrivateKey = Inr, se_UserHomeDir = Inr ''/root'', se_knownhosts = \<lambda>_. None,
     se_dial = None, se_handshake = None, se_session = None\<rparr>"

theorem proxy_command_faithful_witness:
  "\<exists>conn line e g'. HandleProxyCommand lab_ssh (\<lambda>conn line t. (SshOK, ''ok'', [])) None ''db'' ''rm'' [''a; b'', ''it'' @ [CHR 0x27] @ ''s''] 0
       (New_tgateway lab_config) = (Some (conn, line), e, g')
     \<and> sh_words line = Some [''rm'', ''a; b'', ''it'' @ [CHR 0x27] @ ''s''] \<and> length (tg_sent g') = 1"
proof -
  let ?run = "\<lambda>conn line t. (SshOK, ''ok'', [])" and ?args = "[''a; b'', ''it'' @ [CHR 0x27] @ ''s'']"
  obtain st e g' where h: "HandleProxyCommand lab_ssh ?run None ''db'' ''rm'' ?args 0 (New_tgateway lab_config) = (st, e, g')" by (rule prod_cases3)
  then have "st \<noteq> None"
    by (auto simp: HandleProxyCommand_def executeProxyCommand_def New_tgateway_def lab_config_def lab_host_def proxy_ssh_def ssh_Connect_def
        buildAuth_def buildHostKeyCallback_def lab_ssh_def Let_def split: prod.splits)
  then obtain conn line where "st = Some (conn, line)" by auto
  moreover have "''db'' \<in> th_ID ` set (tc_Hosts (tg_cfg (New_tgateway lab_config)))" "tg_sent (New_tgateway lab_config) = []"
    by (simp_all add: New_tgateway_def lab_config_def lab_host_def)
  ultimately show ?thesis using proxy_command_faithful [OF h] h by auto
qed

theorem stop_ends_relays_witness:
  "\<exists>s'. s' = fold (\<lambda>a. tg_step (RelayRound 5 ''late'' None None a)) [0] (tg_Stop (tg_step (Incoming (lab_peer 1)) (snd (tg_Start None (New_tgateway lab_config)))))
     \<and> tg_relaying s' = [] \<and> tg_tunnels s' = []"
proof -
  let ?s = "fold tg_step [Incoming (lab_peer 1)] (snd (tg_Start None (New_tgateway lab_config)))"
  let ?s' = "fold (\<lambda>a. tg_step (RelayRound 5 ''late'' None None a)) (tg_relaying ?s) (tg_Stop ?s)"
  note defs = tg_Start_def New_tgateway_def lab_config_def lab_host_def lab_peer_def Let_def handleIncoming_def auth_failed_def
    admit_def pool_Add_def tun_Close_def tg_send_def on_tunnel_def NewTunnel_def hex_encode_def hex_digit_def register_host_def
  have s: "tg_running ?s" "tg_relaying ?s = [0]" by (simp_all add: defs)
  have "ids ?s' = [''tunnel-01'']"
    by (simp add: defs relay_event_def relay_round_def relay_ended_def pool_Remove_def tg_Stop_def CloseAll_def)
  then have "distinct (ids ?s')" by simp
  from stop_ends_relays [OF s(1), of "\<lambda>_. 5" "\<lambda>_. ''late''" "\<lambda>_. None" "\<lambda>_. None", OF this] show ?thesis
    using s(2) by (intro exI [of _ ?s']) simp
qed

end
