(* ===== verification/Executor.thy ===== *)
theory Executor
imports Go_Values Config_Types
begin

text \<open>
  The executor of local commands (\<open>internal/executor/executor.go\<close>, \<open>whitelist.go\<close>): the whitelist,
  the check of the arguments, the buffers that bound the output, and \<open>Execute\<close>. What the process does
  (its output in the chunks it is written in, how it ends, how long it takes) is a parameter.
\<close>

subsection \<open>whitelist.go\<close>

definition DefaultAllowedCommands :: "string list" where
  "DefaultAllowedCommands = [''uptime'', ''df'', ''free'', ''whoami'', ''hostname'', ''ip'', ''ss'']"

primrec buildWhitelist :: "string list \<Rightarrow> unit gomap" where
  "buildWhitelist [] = []"
| "buildWhitelist (cmd # cmds) =
     (let trimmed = TrimSpace cmd; rest = buildWhitelist cmds
      in if trimmed = [] then rest else map_put trimmed () rest)"

subsection \<open>executor.go\<close>

record Request =
  xr_Command :: string
  xr_Args :: "string list"
  xr_TimeoutSeconds :: int

record Result =
  xs_ExitCode :: int
  xs_Stdout :: string
  xs_Stderr :: string
  xs_DurationMS :: int

record Executor =
  ex_allowed :: "unit gomap"
  ex_defaultTimeout :: duration
  ex_maxOutputBytes :: int

definition New_executor :: "string list \<Rightarrow> duration \<Rightarrow> int \<Rightarrow> Executor" where
  "New_executor allowedCommands defaultTimeout maxOutputBytes =
     \<lparr>ex_allowed = buildWhitelist (if allowedCommands = [] then DefaultAllowedCommands else allowedCommands),
      ex_defaultTimeout = (if defaultTimeout \<le> 0 then 10 * 1000000000 else defaultTimeout),
      ex_maxOutputBytes = (if maxOutputBytes \<le> 0 then 64 * 1024 else maxOutputBytes)\<rparr>"

definition maxArgLength :: nat where "maxArgLength = 4096"

primrec validateArgs :: "string list \<Rightarrow> err" where
  "validateArgs [] = None"
| "validateArgs (arg # args) =
     (if CHR 0x00 \<in> set arg then Some ''argument %d contains null byte''
      else if length arg > maxArgLength then Some ''argument %d too long (%d bytes, max %d)''
      else validateArgs args)"

record limitedBuffer =
  lb_buf :: string
  lb_max :: int
  lb_truncated :: bool

definition newLimitedBuffer :: "int \<Rightarrow> limitedBuffer" where
  "newLimitedBuffer m = \<lparr>lb_buf = [], lb_max = m, lb_truncated = False\<rparr>"

definition lb_Write :: "string \<Rightarrow> limitedBuffer \<Rightarrow> limitedBuffer" where
  "lb_Write p b =
     (if lb_max b \<le> 0 then b
      else
        (let remaining = lb_max b - int (length (lb_buf b))
         in if remaining > 0 then
              (if int (length p) > remaining
               then b\<lparr>lb_buf := lb_buf b @ take (nat remaining) p, lb_truncated := True\<rparr>
               else b\<lparr>lb_buf := lb_buf b @ p\<rparr>)
            else b\<lparr>lb_truncated := True\<rparr>))"

text \<open>What \<open>cmd.Run\<close> returns: nil, an \<open>exec.ExitError\<close> or another error.\<close>

datatype run_result = RunOK | RunExit int | RunFail string

record process =
  pr_stdout :: "string list"
  pr_stderr :: "string list"
  pr_result :: run_result
  pr_deadline :: bool
  pr_millis :: int

text \<open>The process that is started: its name, its arguments and its time limit.\<close>

record exec_call =
  xc_name :: string
  xc_args :: "string list"
  xc_timeout :: duration

definition exec_timeout :: "Executor \<Rightarrow> Request \<Rightarrow> duration" where
  "exec_timeout e req =
     (if xr_TimeoutSeconds req > 0 then wrap64 (xr_TimeoutSeconds req * 1000000000) else ex_defaultTimeout e)"

definition marked :: "limitedBuffer \<Rightarrow> string" where
  "marked b = lb_buf b @ (if lb_truncated b then CHR 0x0A # ''[truncated]'' else [])"

definition Execute :: "Executor \<Rightarrow> Request \<Rightarrow> process \<Rightarrow> exec_call option \<times> Result result" where
  "Execute e req pr =
     (let cmdName = TrimSpace (xr_Command req)
      in if cmdName = [] then (None, Inl ''command is required'')
         else if map_of (ex_allowed e) cmdName = None then (None, Inl ''command %q is not allowed'')
         else
           (case validateArgs (xr_Args req) of
              Some m \<Rightarrow> (None, Inl (''invalid arguments: '' @ m))
            | None \<Rightarrow>
                (let call = \<lparr>xc_name = cmdName, xc_args = xr_Args req, xc_timeout = exec_timeout e req\<rparr>;
                     stdoutBuf = fold lb_Write (pr_stdout pr) (newLimitedBuffer (ex_maxOutputBytes e));
                     stderrBuf = fold lb_Write (pr_stderr pr) (newLimitedBuffer (ex_maxOutputBytes e));
                     result = \<lparr>xs_ExitCode = 0, xs_Stdout = marked stdoutBuf, xs_Stderr = marked stderrBuf,
                       xs_DurationMS = pr_millis pr\<rparr>
                 in (Some call,
                     if pr_result pr = RunOK then Inr result
                     else if pr_deadline pr then
                       Inr (result\<lparr>xs_ExitCode := - 1,
                              xs_Stderr := (if xs_Stderr result = [] then ''command timed out'' else xs_Stderr result)\<rparr>)
                     else
                       (case pr_result pr of
                          RunExit n \<Rightarrow> Inr (result\<lparr>xs_ExitCode := n\<rparr>)
                        | RunFail m \<Rightarrow> Inl (''execute command %q: '' @ m)
                        | RunOK \<Rightarrow> Inr result)))))"

subsection \<open>Lemmas\<close>

lemma whitelist_keys: "fst ` set (buildWhitelist cmds) = TrimSpace ` set cmds - {[]}"
  by (induction cmds) (auto simp: Let_def)

lemma validateArgs_None:
  "validateArgs args = None \<longleftrightarrow> list_all (\<lambda>a. CHR 0x00 \<notin> set a \<and> length a \<le> maxArgLength) args"
  by (induction args) auto

text \<open>The buffer keeps a prefix of what was written, and knows whether anything is missing.\<close>

lemma lb_Write_fold:
  assumes "0 < lb_max b" "list_all (\<lambda>p. p \<noteq> []) ps" "int (length (lb_buf b)) \<le> lb_max b"
    and "lb_truncated b \<Longrightarrow> int (length (lb_buf b)) = lb_max b"
  shows "lb_buf (fold lb_Write ps b) = take (nat (lb_max b)) (lb_buf b @ concat ps)
    \<and> (lb_truncated (fold lb_Write ps b) \<longleftrightarrow> lb_truncated b \<or> lb_max b < int (length (lb_buf b @ concat ps)))"
  using assms
proof (induction ps arbitrary: b)
  case (Cons p ps)
  consider "lb_max b = int (length (lb_buf b))"
    | "lb_max b > int (length (lb_buf b))" "int (length p) > lb_max b - int (length (lb_buf b))"
    | "lb_max b > int (length (lb_buf b))" "int (length p) \<le> lb_max b - int (length (lb_buf b))"
    using Cons.prems(3) by linarith
  then show ?case
  proof cases
    case 1
    then have w: "lb_Write p b = b\<lparr>lb_truncated := True\<rparr>" using Cons.prems(1) by (simp add: lb_Write_def)
    obtain k where "length p = Suc k" using Cons.prems(2) by (cases p) auto
    with Cons.IH [of "b\<lparr>lb_truncated := True\<rparr>"] Cons.prems 1 show ?thesis by (simp add: w)
  next
    case 2
    let ?b = "b\<lparr>lb_buf := lb_buf b @ take (nat (lb_max b - int (length (lb_buf b)))) p, lb_truncated := True\<rparr>"
    have w: "lb_Write p b = ?b" using 2 Cons.prems(1) by (simp add: lb_Write_def)
    have l: "length (lb_buf ?b) = nat (lb_max b)" using 2 by (simp add: min_def) linarith
    then have "nat (lb_max b) - length (lb_buf b) \<le> length p" using 2 by linarith
    with Cons.IH [of ?b] Cons.prems 2 l show ?thesis by (simp add: w nat_diff_distrib)
  next
    case 3
    have w: "lb_Write p b = b\<lparr>lb_buf := lb_buf b @ p\<rparr>" using 3 Cons.prems(1) by (simp add: lb_Write_def)
    have "\<not> lb_truncated b" using 3 Cons.prems(4) by auto
    with Cons.IH [of "b\<lparr>lb_buf := lb_buf b @ p\<rparr>"] Cons.prems 3 show ?thesis by (simp add: w)
  qed
qed auto

text \<open>the executor runs only what its whitelist names: whatever the request and whatever the process does, a
  process is started only for a command whose trimmed name is one of the trimmed, non-blank commands of the
  configuration (of the default list if none is configured), with the arguments of the request, none of which
  contains a null byte or is longer than 4096 bytes; every other request ends with an error.\<close>

theorem executor_whitelist:
  "(case fst (Execute (New_executor cmds d m) req pr) of
      Some call \<Rightarrow>
        xc_name call \<in> TrimSpace ` set (if cmds = [] then DefaultAllowedCommands else cmds) - {[]}
        \<and> xc_name call = TrimSpace (xr_Command req) \<and> xc_args call = xr_Args req
        \<and> list_all (\<lambda>a. CHR 0x00 \<notin> set a \<and> length a \<le> 4096) (xc_args call)
    | None \<Rightarrow> isl (snd (Execute (New_executor cmds d m) req pr)))"
proof -
  have "map_of (ex_allowed (New_executor cmds d m)) c \<noteq> None \<longleftrightarrow>
      c \<in> TrimSpace ` set (if cmds = [] then DefaultAllowedCommands else cmds) - {[]}" for c
    unfolding whitelist_keys [symmetric] by (simp add: New_executor_def map_of_eq_None_iff)
  then show ?thesis
    using validateArgs_None [of "xr_Args req"]
    by (cases "validateArgs (xr_Args req)") (auto simp: Execute_def Let_def maxArgLength_def)
qed

text \<open>The output of a command is bounded and truncation is reported: with a process that writes no empty
  chunk, the standard output in the result is the first \<open>max_output_bytes\<close> bytes the process wrote, followed
  by the mark exactly when the process wrote more.\<close>

theorem executor_output_bounded:
  assumes "Execute (New_executor cmds d m) req pr = (Some call, Inr res)" and "list_all (\<lambda>p. p \<noteq> []) (pr_stdout pr)"
  shows "xs_Stdout res =
    (let n = (if m \<le> 0 then 65536 else nat m); out = concat (pr_stdout pr)
     in take n out @ (if length out > n then CHR 0x0A # ''[truncated]'' else []))"
proof -
  let ?n = "if m \<le> 0 then 65536 else m"
  have "lb_buf (fold lb_Write (pr_stdout pr) (newLimitedBuffer ?n)) = take (nat ?n) (concat (pr_stdout pr))
      \<and> (lb_truncated (fold lb_Write (pr_stdout pr) (newLimitedBuffer ?n)) \<longleftrightarrow> ?n < int (length (concat (pr_stdout pr))))"
    using lb_Write_fold [of "newLimitedBuffer ?n" "pr_stdout pr"] assms(2) by (simp add: newLimitedBuffer_def)
  then have m: "marked (fold lb_Write (pr_stdout pr) (newLimitedBuffer ?n)) =
      take (nat ?n) (concat (pr_stdout pr)) @ (if ?n < int (length (concat (pr_stdout pr))) then CHR 0x0A # ''[truncated]'' else [])"
    by (simp add: marked_def)
  have "xs_Stdout res = marked (fold lb_Write (pr_stdout pr) (newLimitedBuffer ?n))"
    using assms(1) by (auto simp: Execute_def Let_def New_executor_def split: if_splits option.splits run_result.splits)
  then show ?thesis unfolding m by (auto simp: Let_def)
qed

theorem executor_output_bounded_witness:
  "xs_Stdout (projr (snd (Execute (New_executor [''df''] 0 4) \<lparr>xr_Command = ''df '', xr_Args = [], xr_TimeoutSeconds = 5\<rparr>
     \<lparr>pr_stdout = [''abc'', ''def''], pr_stderr = [], pr_result = RunOK, pr_deadline = False, pr_millis = 3\<rparr>)))
   = ''abcd'' @ CHR 0x0A # ''[truncated]''"
proof -
  let ?pr = "\<lparr>pr_stdout = [''abc'', ''def''], pr_stderr = [], pr_result = RunOK, pr_deadline = False, pr_millis = 3\<rparr> :: process"
  have df: "TrimSpace ''df '' = ''df''" "TrimSpace ''df'' = ''df''" by code_simp+
  obtain call res where e: "Execute (New_executor [''df''] 0 4) \<lparr>xr_Command = ''df '', xr_Args = [], xr_TimeoutSeconds = 5\<rparr> ?pr
      = (Some call, Inr res)"
    by (simp add: Execute_def New_executor_def Let_def df)
  from executor_output_bounded [OF this] show ?thesis using e by simp
qed

text \<open>A time limit beyond the range of a duration wraps around to a negative one.\<close>

lemma huge_timeout_negative:
  "exec_timeout e \<lparr>xr_Command = c, xr_Args = as, xr_TimeoutSeconds = 9223372037\<rparr> < 0"
  by (simp add: exec_timeout_def wrap64_def)

end
