(* ===== verification/Plugin_Gateway.thy ===== *)
theory Plugin_Gateway
imports Plugin_Manifest Interfaces Config_Types
begin

text \<open>
  The gateway of custom plugins (\<open>internal/pluginruntime\<close>): loading, stopping, health checks and routing
  (\<open>gateway.go\<close>), the file watcher (\<open>watcher.go\<close>) and the plugin runtime with its client
  (\<open>runtime.go\<close>, \<open>client.go\<close>). The file system, the plugin processes and their answers are parameters. Each
  operation is one atomic step.
\<close>

subsection \<open>types.go and the RPC client of gateway.go\<close>

record ChunkingConfig =
  ck_Enabled :: bool
  ck_MaxChunkBytes :: int
  ck_MaxTotalBytes :: int

record TaskRequest =
  tr_TaskID :: string
  tr_Type :: string
  tr_DeadlineMS :: int
  tr_Payload :: "goval gomap option"
  tr_Chunking :: ChunkingConfig

record Chunk =
  ch_Seq :: int
  ch_EOF :: bool
  ch_DataB64 :: string

record TaskStats =
  ts_DurationMS :: int
  ts_CPUMS :: int
  ts_MemPeakBytes :: int

record TaskResponse =
  tp_TaskID :: string
  tp_Status :: string
  tp_Error :: string
  tp_Summary :: "goval gomap"
  tp_Chunks :: "Chunk list"
  tp_Stats :: TaskStats

record rpcRequest =
  rpq_ID :: string
  rpq_Method :: string
  rpq_Params :: "TaskRequest option"

record rpcError =
  rpe_Code :: int
  rpe_Message :: string

record rpcResponse =
  rps_Result :: "TaskResponse option"
  rps_Error :: "rpcError option"

text \<open>How one exchange over the socket ends: at one of its four fallible calls, or with a response.\<close>

datatype rpc_outcome = DialErr string | EncodeErr string | ReadErr string | DecodeErr string | Replied rpcResponse

type_synonym rpc = "string \<Rightarrow> rpcRequest \<Rightarrow> rpc_outcome"

definition Ping :: "rpc \<Rightarrow> string \<Rightarrow> err" where
  "Ping rpc socketPath =
     (case rpc socketPath \<lparr>rpq_ID = ''ping'', rpq_Method = ''ping'', rpq_Params = None\<rparr> of
        DialErr e \<Rightarrow> Some (''dial plugin: '' @ e)
      | EncodeErr e \<Rightarrow> Some (''encode ping request: '' @ e)
      | ReadErr e \<Rightarrow> Some (''read ping response: '' @ e)
      | DecodeErr e \<Rightarrow> Some (''decode ping response: '' @ e)
      | Replied resp \<Rightarrow>
          (case rps_Error resp of Some e \<Rightarrow> Some (''ping error (%d): '' @ rpe_Message e) | None \<Rightarrow> None))"

definition rpc_ExecuteTask :: "rpc \<Rightarrow> string \<Rightarrow> TaskRequest \<Rightarrow> TaskResponse result" where
  "rpc_ExecuteTask rpc socketPath req =
     (case rpc socketPath \<lparr>rpq_ID = tr_TaskID req, rpq_Method = ''execute_task'', rpq_Params = Some req\<rparr> of
        DialErr e \<Rightarrow> Inl (''dial plugin: '' @ e)
      | EncodeErr e \<Rightarrow> Inl (''encode task request: '' @ e)
      | ReadErr e \<Rightarrow> Inl (''read task response: '' @ e)
      | DecodeErr e \<Rightarrow> Inl (''decode task response: '' @ e)
      | Replied resp \<Rightarrow>
          (case rps_Error resp of
             Some e \<Rightarrow> Inl (''plugin rpc error (%d): '' @ rpe_Message e)
           | None \<Rightarrow> (case rps_Result resp of None \<Rightarrow> Inl ''empty task response'' | Some r \<Rightarrow> Inr r)))"

subsection \<open>gateway.go: state\<close>

text \<open>The regular expression \<open>^[a-zA-Z0-9][a-zA-Z0-9_-]*$\<close>.\<close>

definition validPluginName :: "string \<Rightarrow> bool" where
  "validPluginName s =
     (case s of [] \<Rightarrow> False
      | c # r \<Rightarrow> is_alnum c \<and> list_all (\<lambda>x. is_alnum x \<or> x = CHR ''_'' \<or> x = CHR ''-'') r)"

definition sanitizePluginName :: "string \<Rightarrow> string result" where
  "sanitizePluginName name =
     (if validPluginName name then Inr name
      else Inl ''invalid plugin name %q: must be alphanumeric with hyphens/underscores'')"

datatype PluginStatus =
  PluginStatusStarting | PluginStatusRunning | PluginStatusStopped | PluginStatusError | PluginStatusDisabled

record GatewayConfig =
  gc_PluginsDir :: string
  gc_StartupTimeout :: duration
  gc_HealthCheckInterval :: duration
  gc_MaxRestarts :: int
  gc_RestartBackoff :: duration
  gc_FileWatchDebounce :: duration
  gc_PluginConfigs :: "goval gomap gomap"

record ManagedPlugin =
  mp_Manifest :: PluginManifest
  mp_Process :: "nat option"
  mp_Client :: "string option"
  mp_SocketPath :: string
  mp_Status :: PluginStatus
  mp_RestartCount :: int
  mp_LastHealth :: time
  mp_StartedAt :: time

text \<open>A process that was started and not yet killed, and a call of one of the two callbacks.\<close>

record plugin_process =
  pp_pid :: nat
  pp_path :: string
  pp_env :: "string list"

datatype plugin_call = Loaded string "string list" | Unloaded string "string list"

text \<open>
  Besides the fields of the code, the state has the live processes, the next free process ID of the
  system and the calls of the callbacks in order.
\<close>

record Gateway =
  gw_cfg :: GatewayConfig
  gw_plugins :: "ManagedPlugin gomap"
  gw_started :: bool
  gw_live :: "plugin_process list"
  gw_nextpid :: nat
  gw_calls :: "plugin_call list"

definition NewGateway :: "GatewayConfig \<Rightarrow> Gateway" where
  "NewGateway cfg =
     \<lparr>gw_cfg = \<lparr>gc_PluginsDir = gc_PluginsDir cfg,
        gc_StartupTimeout = (if gc_StartupTimeout cfg \<le> 0 then 10000000000 else gc_StartupTimeout cfg),
        gc_HealthCheckInterval = (if gc_HealthCheckInterval cfg \<le> 0 then 30000000000 else gc_HealthCheckInterval cfg),
        gc_MaxRestarts = (if gc_MaxRestarts cfg \<le> 0 then 3 else gc_MaxRestarts cfg),
        gc_RestartBackoff = (if gc_RestartBackoff cfg \<le> 0 then 5000000000 else gc_RestartBackoff cfg),
        gc_FileWatchDebounce = (if gc_FileWatchDebounce cfg \<le> 0 then 500000000 else gc_FileWatchDebounce cfg),
        gc_PluginConfigs = gc_PluginConfigs cfg\<rparr>,
      gw_plugins = [], gw_started = False, gw_live = [], gw_nextpid = 1, gw_calls = []\<rparr>"

subsection \<open>gateway.go: loading and stopping\<close>

definition mergePluginConfig :: "goval gomap option \<Rightarrow> goval gomap option \<Rightarrow> goval gomap option" where
  "mergePluginConfig manifestCfg agentCfg =
     (let a = (case manifestCfg of Some m \<Rightarrow> m | None \<Rightarrow> []); b = (case agentCfg of Some m \<Rightarrow> m | None \<Rightarrow> [])
      in if a = [] \<and> b = [] then None else Some (map_copy (map_copy [] a) b))"

definition buildPluginEnv :: "string \<Rightarrow> string gomap \<Rightarrow> string list" where
  "buildPluginEnv socketPath manifestEnv =
     [''PATH=/usr/local/sbin:/usr/local/bin:/usr/sbin:/usr/bin:/sbin:/bin'', ''OPSAGENT_PLUGIN_SOCKET='' @ socketPath]
     @ map (\<lambda>(k, v). k @ ''='' @ v)
         (filter (\<lambda>(k, v). k \<notin> {''LD_PRELOAD'', ''LD_LIBRARY_PATH'', ''DYLD_INSERT_LIBRARIES''}) manifestEnv)"

text \<open>What the system answers while a plugin is loaded.\<close>

record load_env =
  le_tmp :: string
  le_mkdir :: err
  le_symlink :: bool
  le_binary :: err
  le_start :: err
  le_socket :: err
  le_now :: time

definition startProcess :: "load_env \<Rightarrow> PluginManifest \<Rightarrow> string \<Rightarrow> Gateway \<Rightarrow> nat result \<times> Gateway" where
  "startProcess env manifest socketPath gw =
     (case le_binary env of
        Some e \<Rightarrow> (Inl (''plugin binary not found: '' @ e), gw)
      | None \<Rightarrow>
          (case le_start env of
             Some e \<Rightarrow> (Inl (''start plugin binary: '' @ e), gw)
           | None \<Rightarrow>
               (Inr (gw_nextpid gw),
                gw\<lparr>gw_nextpid := gw_nextpid gw + 1,
                   gw_live := gw_live gw @ [\<lparr>pp_pid = gw_nextpid gw, pp_path = pm_BinaryPath manifest,
                     pp_env = buildPluginEnv socketPath (pm_Env manifest)\<rparr>]\<rparr>)))"

definition killProcess :: "nat \<Rightarrow> Gateway \<Rightarrow> Gateway" where
  "killProcess pid gw = gw\<lparr>gw_live := filter (\<lambda>p. pp_pid p \<noteq> pid) (gw_live gw)\<rparr>"

definition loadPlugin :: "load_env \<Rightarrow> PluginManifest \<Rightarrow> Gateway \<Rightarrow> err \<times> Gateway" where
  "loadPlugin env manifest0 gw =
     (case sanitizePluginName (pm_Name manifest0) of
        Inl e \<Rightarrow> (Some (''invalid plugin name: '' @ e), gw)
      | Inr safeName \<Rightarrow>
          (let manifest = manifest0\<lparr>pm_Config :=
                 mergePluginConfig (pm_Config manifest0) (map_of (gc_PluginConfigs (gw_cfg gw)) (pm_Name manifest0))\<rparr>;
               socketPath = path_Join [le_tmp env, ''opsagent-plugins'', safeName @ ''.sock'']
           in case le_mkdir env of
                Some e \<Rightarrow> (Some (''create socket directory: '' @ e), gw)
              | None \<Rightarrow>
                  if le_symlink env then (Some ''socket path %q is a symlink, refusing to remove'', gw)
                  else
                    (case startProcess env manifest socketPath gw of
                       (Inl e, gw1) \<Rightarrow> (Some (''start plugin process: '' @ e), gw1)
                     | (Inr pid, gw1) \<Rightarrow>
                         (case le_socket env of
                            Some e \<Rightarrow> (Some (''wait for plugin socket: '' @ e), killProcess pid gw1)
                          | None \<Rightarrow>
                              (let mp = \<lparr>mp_Manifest = manifest, mp_Process = Some pid, mp_Client = Some socketPath,
                                     mp_SocketPath = socketPath, mp_Status = PluginStatusRunning,
                                     mp_RestartCount =
                                       (case map_of (gw_plugins gw1) (pm_Name manifest) of
                                          Some existing \<Rightarrow> mp_RestartCount existing | None \<Rightarrow> 0),
                                     mp_LastHealth = le_now env, mp_StartedAt = le_now env\<rparr>
                               in (None,
                                   gw1\<lparr>gw_plugins := map_put (pm_Name manifest) mp (gw_plugins gw1),
                                       gw_calls := gw_calls gw1 @ [Loaded (pm_Name manifest) (pm_TaskTypes manifest)]\<rparr>))))))"

definition stopPlugin :: "string \<Rightarrow> ManagedPlugin \<Rightarrow> Gateway \<Rightarrow> Gateway" where
  "stopPlugin name p gw =
     (if mp_Status p = PluginStatusStopped \<or> mp_Status p = PluginStatusDisabled then gw
      else
        (let p' = p\<lparr>mp_Status := PluginStatusStopped, mp_Client := None, mp_Process := None\<rparr>;
             gw1 = gw\<lparr>gw_plugins := map_put name p' (gw_plugins gw)\<rparr>;
             gw2 = (case mp_Process p of Some pid \<Rightarrow> killProcess pid gw1 | None \<Rightarrow> gw1)
         in gw2\<lparr>gw_calls := gw_calls gw2 @ [Unloaded name (pm_TaskTypes (mp_Manifest p))]\<rparr>))"

definition set_status :: "string \<Rightarrow> PluginStatus \<Rightarrow> Gateway \<Rightarrow> Gateway" where
  "set_status name st gw =
     (case map_of (gw_plugins gw) name of
        None \<Rightarrow> gw
      | Some p \<Rightarrow> gw\<lparr>gw_plugins := map_put name (p\<lparr>mp_Status := st\<rparr>) (gw_plugins gw)\<rparr>)"

definition ReloadPlugin :: "load_env \<Rightarrow> string \<Rightarrow> Gateway \<Rightarrow> err \<times> Gateway" where
  "ReloadPlugin env name gw =
     (case map_of (gw_plugins gw) name of
        None \<Rightarrow> (Some ''plugin not found: %s'', gw)
      | Some p \<Rightarrow> loadPlugin env (mp_Manifest p) (stopPlugin name p gw))"

definition EnablePlugin :: "load_env \<Rightarrow> string \<Rightarrow> Gateway \<Rightarrow> err \<times> Gateway" where
  "EnablePlugin env name gw =
     (case map_of (gw_plugins gw) name of
        None \<Rightarrow> (Some ''plugin not found: %s'', gw)
      | Some p \<Rightarrow>
          if mp_Status p \<noteq> PluginStatusDisabled then (Some ''plugin %s is not disabled (status: %s)'', gw)
          else loadPlugin env (mp_Manifest p) gw)"

definition DisablePlugin :: "string \<Rightarrow> Gateway \<Rightarrow> err \<times> Gateway" where
  "DisablePlugin name gw =
     (case map_of (gw_plugins gw) name of
        None \<Rightarrow> (Some ''plugin not found: %s'', gw)
      | Some p \<Rightarrow> (None, set_status name PluginStatusDisabled (stopPlugin name p gw)))"

text \<open>Stopping goes over a copy of the table; the plugins are then forgotten.\<close>

definition gw_Stop :: "Gateway \<Rightarrow> Gateway" where
  "gw_Stop gw = (fold (\<lambda>(name, p). stopPlugin name p) (gw_plugins gw) gw)\<lparr>gw_plugins := []\<rparr>"

subsection \<open>gateway.go: start, routing, health\<close>

text \<open>The entries of the plugins directory: name, whether it is a directory, whether it holds a manifest.\<close>

primrec discover_loop :: "(string \<Rightarrow> PluginManifest result) \<Rightarrow> string \<Rightarrow> (string \<times> bool \<times> bool) list \<Rightarrow> PluginManifest list result" where
  "discover_loop load dir [] = Inr []"
| "discover_loop load dir (entry # entries) =
     (case entry of (name, isDir, exists) \<Rightarrow>
        if \<not> isDir \<or> \<not> exists then discover_loop load dir entries
        else
          (case load (path_Join [dir, name, ''plugin.yaml'']) of
             Inl e \<Rightarrow> Inl (''load manifest %s: '' @ e)
           | Inr m \<Rightarrow> map_sum id (Cons m) (discover_loop load dir entries)))"

definition DiscoverManifests ::
    "(string \<Rightarrow> PluginManifest result) \<Rightarrow> (string \<times> bool \<times> bool) list result \<Rightarrow> string \<Rightarrow> PluginManifest list result" where
  "DiscoverManifests load readDir dir =
     (case readDir of
        Inl e \<Rightarrow> Inl (''read plugins directory: '' @ e)
      | Inr entries \<Rightarrow> discover_loop load dir entries)"

definition load_all :: "(PluginManifest \<times> load_env) list \<Rightarrow> Gateway \<Rightarrow> Gateway" where
  "load_all ms gw = fold (\<lambda>(manifest, env) g. snd (loadPlugin env manifest g)) ms gw"

definition gw_Start :: "PluginManifest list result \<Rightarrow> load_env list \<Rightarrow> Gateway \<Rightarrow> err \<times> Gateway" where
  "gw_Start discovered envs gw0 =
     (let gw = gw0\<lparr>gw_started := True\<rparr>
      in if gc_PluginsDir (gw_cfg gw) = [] then (None, gw)
         else
           (case discovered of
              Inl e \<Rightarrow> (Some (''discover plugins: '' @ e), gw)
            | Inr manifests \<Rightarrow> (None, load_all (zip manifests envs) gw)))"

definition gw_HealthStatus :: "Gateway \<Rightarrow> string \<times> string list" where
  "gw_HealthStatus gw = (if gw_started gw then ''running'' else ''stopped'', map fst (gw_plugins gw))"

text \<open>\<open>strings.Cut\<close> at the first slash.\<close>

definition ParseFullTaskType :: "string \<Rightarrow> (string \<times> string) result" where
  "ParseFullTaskType fullType =
     (let before = takeWhile (\<lambda>c. c \<noteq> CHR ''/'') fullType; rest = dropWhile (\<lambda>c. c \<noteq> CHR ''/'') fullType
      in if rest = [] then Inl (''invalid task type format %q: expected 'plugin-name/task-type'' @ [CHR 0x27])
         else if before = [] \<or> tl rest = []
         then Inl ''invalid task type format %q: plugin name and task type must not be empty''
         else Inr (before, tl rest))"

definition gw_ExecuteTask :: "rpc \<Rightarrow> time \<Rightarrow> TaskRequest \<Rightarrow> Gateway \<Rightarrow> TaskResponse result \<times> Gateway" where
  "gw_ExecuteTask rpc now req gw =
     (case ParseFullTaskType (tr_Type req) of
        Inl e \<Rightarrow> (Inl e, gw)
      | Inr (pluginName, taskType) \<Rightarrow>
          (case map_of (gw_plugins gw) pluginName of
             None \<Rightarrow> (Inl ''plugin not found: %s'', gw)
           | Some p \<Rightarrow>
               if mp_Status p \<noteq> PluginStatusRunning then (Inl ''plugin %s is not running (status: %s)'', gw)
               else
                 (case mp_Client p of
                    None \<Rightarrow> (Inl ''plugin %s has no RPC client'', gw)
                  | Some client \<Rightarrow>
                      (case rpc_ExecuteTask rpc client (req\<lparr>tr_Type := taskType\<rparr>) of
                         Inl e \<Rightarrow> (Inl (''plugin %s execute task: '' @ e), gw)
                       | Inr resp \<Rightarrow>
                           (Inr resp, gw\<lparr>gw_plugins := map_put pluginName (p\<lparr>mp_LastHealth := now\<rparr>) (gw_plugins gw)\<rparr>)))))"

definition shouldRestart :: "GatewayConfig \<Rightarrow> ManagedPlugin \<Rightarrow> bool" where
  "shouldRestart cfg p = (mp_RestartCount p < gc_MaxRestarts cfg)"

primrec backoff_loop :: "nat \<Rightarrow> duration \<Rightarrow> duration" where
  "backoff_loop 0 backoff = backoff"
| "backoff_loop (Suc n) backoff =
     (let b = wrap64 (backoff * 2) in if b > 60000000000 then 60000000000 else backoff_loop n b)"

definition restartBackoff :: "GatewayConfig \<Rightarrow> int \<Rightarrow> duration" where
  "restartBackoff cfg restartCount = backoff_loop (nat restartCount) (gc_RestartBackoff cfg)"

text \<open>
  One plugin of a health check: the time, the answer to the ping, whether the gateway is stopped during the
  backoff, and what the system answers to the restart. The result says whether the loop goes on.
\<close>

record health_env =
  he_now :: time
  he_rpc :: rpc
  he_done :: bool
  he_load :: load_env

definition healthCheck_one :: "string \<Rightarrow> health_env \<Rightarrow> Gateway \<Rightarrow> bool \<times> Gateway" where
  "healthCheck_one name he gw =
     (case map_of (gw_plugins gw) name of
        None \<Rightarrow> (True, gw)
      | Some p \<Rightarrow>
          (case (mp_Status p, mp_Client p) of
             (PluginStatusRunning, Some client) \<Rightarrow>
               (case Ping (he_rpc he) client of
                  Some e \<Rightarrow>
                    if shouldRestart (gw_cfg gw) p then
                      (let gw1 = stopPlugin name p gw
                       in if he_done he then (False, gw1)
                          else
                            (case loadPlugin (he_load he) (mp_Manifest p) gw1 of
                               (Some e, gw2) \<Rightarrow> (True, set_status name PluginStatusError gw2)
                             | (None, gw2) \<Rightarrow> (True, gw2)))
                    else (True, set_status name PluginStatusError gw)
                | None \<Rightarrow> (True, gw\<lparr>gw_plugins := map_put name (p\<lparr>mp_LastHealth := he_now he\<rparr>) (gw_plugins gw)\<rparr>))
           | _ \<Rightarrow> (True, gw)))"

text \<open>The plugins in the order in which the iteration over the map visits them.\<close>

primrec healthCheckAll :: "(string \<times> health_env) list \<Rightarrow> Gateway \<Rightarrow> Gateway" where
  "healthCheckAll [] gw = gw"
| "healthCheckAll (x # xs) gw =
     (case healthCheck_one (fst x) (snd x) gw of (True, gw') \<Rightarrow> healthCheckAll xs gw' | (False, gw') \<Rightarrow> gw')"

subsection \<open>watcher.go\<close>

datatype fs_op = FsCreateOrWrite | FsRemove | FsOther

definition isPluginManifest :: "string \<Rightarrow> bool" where
  "isPluginManifest path = (path_Base path = ''plugin.yaml'')"

text \<open>What the debounced callback of an event for the plugin \<open>name\<close> does.\<close>

definition fs_action :: "fs_op \<Rightarrow> load_env \<Rightarrow> string \<Rightarrow> Gateway \<Rightarrow> Gateway" where
  "fs_action op env name gw =
     (case op of
        FsCreateOrWrite \<Rightarrow> snd (ReloadPlugin env name gw)
      | FsRemove \<Rightarrow>
          (case map_of (gw_plugins gw) name of
             None \<Rightarrow> gw
           | Some p \<Rightarrow> (let gw1 = stopPlugin name p gw in gw1\<lparr>gw_plugins := map_del name (gw_plugins gw1)\<rparr>))
      | FsOther \<Rightarrow> gw)"

subsection \<open>Names and types\<close>

lemma valid_name_no_slash: "validPluginName n \<Longrightarrow> CHR ''/'' \<notin> set n"
  by (auto simp: validPluginName_def list_all_iff is_alnum_def is_digit_def Let_def split: list.splits)

lemma valid_name_nonempty: "validPluginName n \<Longrightarrow> n \<noteq> []"
  by (auto simp: validPluginName_def)

lemma Parse_Full:
  assumes "validPluginName n"
  shows "ParseFullTaskType (FullTaskType n t) = (if t = [] then Inl ''invalid task type format %q: plugin name and task type must not be empty'' else Inr (n, t))"
proof -
  have "takeWhile (\<lambda>c. c \<noteq> CHR ''/'') (n @ CHR ''/'' # t) = n" "dropWhile (\<lambda>c. c \<noteq> CHR ''/'') (n @ CHR ''/'' # t) = CHR ''/'' # t"
    using valid_name_no_slash [OF assms] by (auto simp: takeWhile_append dropWhile_append)
  then show ?thesis using valid_name_nonempty [OF assms] by (simp add: ParseFullTaskType_def FullTaskType_def Let_def)
qed

lemma Full_inj:
  assumes "validPluginName n" "validPluginName m" "FullTaskType n t = FullTaskType m u"
  shows "n = m \<and> t = u"
proof -
  have "takeWhile (\<lambda>c. c \<noteq> CHR ''/'') (n @ CHR ''/'' # t) = n" "takeWhile (\<lambda>c. c \<noteq> CHR ''/'') (m @ CHR ''/'' # u) = m"
    using assms(1,2) valid_name_no_slash by (auto simp: takeWhile_append)
  with assms(3) show ?thesis by (metis FullTaskType_def append_Cons append_Nil same_append_eq list.inject)
qed

declare map_of_eq_Some_iff [simp del]

subsection \<open>The table, the processes and the registered types stay in step\<close>

definition running :: "Gateway \<Rightarrow> string \<Rightarrow> (nat \<times> string list) option" where
  "running gw n =
     (case map_of (gw_plugins gw) n of
        None \<Rightarrow> None
      | Some p \<Rightarrow> map_option (\<lambda>pid. (pid, pm_TaskTypes (mp_Manifest p))) (mp_Process p))"

fun call_types :: "plugin_call \<Rightarrow> string set \<Rightarrow> string set" where
  "call_types (Loaded n ts) S = S \<union> FullTaskType n ` set ts"
| "call_types (Unloaded n ts) S = S - FullTaskType n ` set ts"

definition registered :: "plugin_call list \<Rightarrow> string set" where
  "registered calls = fold call_types calls {}"

lemma registered_snoc [simp]: "registered (calls @ [c]) = call_types c (registered calls)"
  by (simp add: registered_def)

lemma registered_Nil [simp]: "registered [] = {}"
  by (simp add: registered_def)

definition entry_ok :: "string \<Rightarrow> ManagedPlugin \<Rightarrow> bool" where
  "entry_ok n p \<longleftrightarrow> pm_Name (mp_Manifest p) = n \<and> validPluginName n \<and> mp_RestartCount p = 0
     \<and> (mp_Status p = PluginStatusRunning \<longleftrightarrow> mp_Process p \<noteq> None) \<and> (mp_Client p \<noteq> None \<longleftrightarrow> mp_Process p \<noteq> None)"

definition types_of :: "(string \<Rightarrow> (nat \<times> string list) option) \<Rightarrow> string \<Rightarrow> string set" where
  "types_of r n = (case r n of None \<Rightarrow> {} | Some (pid, ts) \<Rightarrow> set ts)"

definition full_types :: "(string \<Rightarrow> string set) \<Rightarrow> string set" where
  "full_types T = {FullTaskType n t | n t. t \<in> T n}"

definition gw_ok :: "Gateway \<Rightarrow> bool" where
  "gw_ok gw \<longleftrightarrow> 1 \<le> gc_MaxRestarts (gw_cfg gw) \<and> map_ok (gw_plugins gw)
     \<and> (\<forall>n p. map_of (gw_plugins gw) n = Some p \<longrightarrow> entry_ok n p)
     \<and> pp_pid ` set (gw_live gw) = fst ` ran (running gw)
     \<and> (\<forall>n m x y. running gw n = Some x \<longrightarrow> running gw m = Some y \<longrightarrow> fst x = fst y \<longrightarrow> n = m)
     \<and> (\<forall>n x. running gw n = Some x \<longrightarrow> fst x < gw_nextpid gw)
     \<and> registered (gw_calls gw) = full_types (types_of (running gw))"

lemma gw_okD:
  assumes "gw_ok gw"
  shows "1 \<le> gc_MaxRestarts (gw_cfg gw)" "map_ok (gw_plugins gw)"
    "map_of (gw_plugins gw) n = Some p \<Longrightarrow> entry_ok n p"
    "pp_pid ` set (gw_live gw) = fst ` ran (running gw)"
    "running gw n = Some x \<Longrightarrow> running gw m = Some y \<Longrightarrow> fst x = fst y \<Longrightarrow> n = m"
    "running gw n = Some x \<Longrightarrow> fst x < gw_nextpid gw"
    "registered (gw_calls gw) = full_types (types_of (running gw))"
  using assms unfolding gw_ok_def by blast+

lemma running_valid: "gw_ok gw \<Longrightarrow> running gw n = Some x \<Longrightarrow> validPluginName n"
  using gw_okD(3) [of gw n] by (auto simp: running_def entry_ok_def split: option.splits)

lemma types_of_upd [simp]:
  "types_of (r(n := None)) = (types_of r)(n := {})" "types_of (r(n \<mapsto> (pid, ts))) = (types_of r)(n := set ts)"
  by (auto simp: types_of_def fun_eq_iff)

lemma full_types_remove:
  assumes "\<And>n t. t \<in> T n \<Longrightarrow> validPluginName n" "validPluginName name"
  shows "full_types T - FullTaskType name ` T name = full_types (T(name := {}))"
proof -
  have "FullTaskType n t \<in> FullTaskType name ` T name \<longleftrightarrow> n = name" if "t \<in> T n" for n t
    using Full_inj [OF assms(1) [OF that] assms(2)] that by auto
  then show ?thesis by (auto simp: full_types_def)
qed

lemma full_types_add:
  assumes "T name = {}"
  shows "full_types T \<union> FullTaskType name ` S = full_types (T(name := S))"
  using assms by (auto simp: full_types_def)

text \<open>The invariant in terms of the running plugins: ending one, starting one, leaving them as they are.\<close>

lemma ran_end:
  assumes "\<And>n m x y. r n = Some x \<Longrightarrow> r m = Some y \<Longrightarrow> fst x = fst y \<Longrightarrow> n = m" "r name = Some (pid, ts)"
  shows "fst ` ran (r(name := None)) = fst ` ran r - {pid}"
  using assms by (force simp: ran_def)

lemma gw_ok_end:
  assumes ok: "gw_ok gw" and r: "running gw name = Some (pid, ts)"
    and cfg: "gw_cfg gw' = gw_cfg gw" "gw_nextpid gw' = gw_nextpid gw"
    and map: "map_ok (gw_plugins gw')" "\<And>n p. map_of (gw_plugins gw') n = Some p \<Longrightarrow> entry_ok n p"
    and run: "running gw' = (running gw)(name := None)"
    and live: "gw_live gw' = filter (\<lambda>p. pp_pid p \<noteq> pid) (gw_live gw)"
    and calls: "gw_calls gw' = gw_calls gw @ [Unloaded name ts]"
  shows "gw_ok gw'"
  unfolding gw_ok_def
proof (intro conjI allI impI)
  have "pp_pid ` set (gw_live gw') = pp_pid ` set (gw_live gw) - {pid}" unfolding live by auto
  also have "\<dots> = fst ` ran (running gw')" unfolding run gw_okD(4) [OF ok] 
    by (rule ran_end [of "running gw" name pid ts, symmetric]) (use gw_okD(5) [OF ok] r in blast)+
  finally show "pp_pid ` set (gw_live gw') = fst ` ran (running gw')" .
  have T: "types_of (running gw) name = set ts" using r by (simp add: types_of_def)
  have "full_types (types_of (running gw)) - FullTaskType name ` types_of (running gw) name =
      full_types ((types_of (running gw))(name := {}))"
    by (rule full_types_remove [OF _ running_valid [OF ok r]])
       (use running_valid [OF ok] in \<open>auto simp: types_of_def split: option.splits\<close>)
  then show "registered (gw_calls gw') = full_types (types_of (running gw'))"
    unfolding run calls by (simp add: gw_okD(7) [OF ok] T)
  show "n = m" if "running gw' n = Some x" "running gw' m = Some y" "fst x = fst y" for n m x y
    using that gw_okD(5) [OF ok, of n x m y] unfolding run by (simp split: if_splits)
  show "fst x < gw_nextpid gw'" if "running gw' n = Some x" for n x
    using that gw_okD(6) [OF ok, of n x] unfolding run cfg by (simp split: if_splits)
qed (use gw_okD(1) [OF ok] cfg map in simp_all)

lemma gw_ok_begin:
  assumes ok: "gw_ok gw" and r: "running gw name = None"
    and cfg: "gw_cfg gw' = gw_cfg gw" "gw_nextpid gw' = gw_nextpid gw + 1"
    and map: "map_ok (gw_plugins gw')" "\<And>n p. map_of (gw_plugins gw') n = Some p \<Longrightarrow> entry_ok n p"
    and run: "running gw' = (running gw)(name \<mapsto> (gw_nextpid gw, ts))"
    and live: "gw_live gw' = gw_live gw @ [pr]" "pp_pid pr = gw_nextpid gw"
    and calls: "gw_calls gw' = gw_calls gw @ [Loaded name ts]"
  shows "gw_ok gw'"
  unfolding gw_ok_def
proof (intro conjI allI impI)
  have fresh: "running gw n = Some x \<Longrightarrow> fst x \<noteq> gw_nextpid gw" for n x using gw_okD(6) [OF ok, of n x] by simp
  show "pp_pid ` set (gw_live gw') = fst ` ran (running gw')"
    unfolding run live(1) by (simp add: ran_map_upd [of "running gw", OF r] live(2) gw_okD(4) [OF ok])
  have "types_of (running gw) name = {}" using r by (simp add: types_of_def)
  then show "registered (gw_calls gw') = full_types (types_of (running gw'))"
    unfolding run calls by (simp add: gw_okD(7) [OF ok] full_types_add)
  show "n = m" if "running gw' n = Some x" "running gw' m = Some y" "fst x = fst y" for n m x y
    using that gw_okD(5) [OF ok, of n x m y] fresh [of n x] fresh [of m y] unfolding run by (auto split: if_splits)
  show "fst x < gw_nextpid gw'" if "running gw' n = Some x" for n x
    using that gw_okD(6) [OF ok, of n x] unfolding run cfg by (auto split: if_splits)
qed (use gw_okD(1) [OF ok] cfg map in simp_all)

lemma gw_ok_same:
  assumes ok: "gw_ok gw" and cfg: "gw_cfg gw' = gw_cfg gw" "gw_nextpid gw \<le> gw_nextpid gw'"
    and map: "map_ok (gw_plugins gw')" "\<And>n p. map_of (gw_plugins gw') n = Some p \<Longrightarrow> entry_ok n p"
    and run: "running gw' = running gw" and live: "pp_pid ` set (gw_live gw') = pp_pid ` set (gw_live gw)"
    and calls: "gw_calls gw' = gw_calls gw"
  shows "gw_ok gw'"
  unfolding gw_ok_def run live calls cfg(1)
proof (intro conjI allI impI)
  show "fst x < gw_nextpid gw'" if "running gw n = Some x" for n x
    using gw_okD(6) [OF ok that] cfg(2) by simp
qed (use gw_okD [OF ok] map in simp_all)

subsection \<open>Every operation keeps the invariant\<close>

lemma running_put:
  "running (gw\<lparr>gw_plugins := map_put n p (gw_plugins gw)\<rparr>) =
     (running gw)(n := map_option (\<lambda>pid. (pid, pm_TaskTypes (mp_Manifest p))) (mp_Process p))"
  by (auto simp: running_def fun_eq_iff)

lemma running_fields [simp]:
  "running (gw\<lparr>gw_live := l\<rparr>) = running gw" "running (gw\<lparr>gw_calls := c\<rparr>) = running gw"
  "running (gw\<lparr>gw_nextpid := k\<rparr>) = running gw" "running (gw\<lparr>gw_started := b\<rparr>) = running gw"
  by (simp_all add: running_def fun_eq_iff)

lemma running_iff:
  assumes "gw_ok gw" "map_of (gw_plugins gw) n = Some p"
  shows "running gw n \<noteq> None \<longleftrightarrow> mp_Status p = PluginStatusRunning"
    "mp_Status p = PluginStatusRunning \<longleftrightarrow> mp_Process p \<noteq> None" "mp_Client p \<noteq> None \<longleftrightarrow> mp_Process p \<noteq> None"
    "mp_RestartCount p = 0" "pm_Name (mp_Manifest p) = n" "validPluginName n"
  using gw_okD(3) [OF assms] assms(2) by (simp_all add: running_def entry_ok_def)

lemma gw_ok_put:
  assumes ok: "gw_ok gw" and p: "map_of (gw_plugins gw) n = Some p" and p': "entry_ok n p'"
    and same: "mp_Process p' = mp_Process p" "mp_Manifest p' = mp_Manifest p"
  shows "gw_ok (gw\<lparr>gw_plugins := map_put n p' (gw_plugins gw)\<rparr>)"
proof (rule gw_ok_same [OF ok])
  have "running gw n = map_option (\<lambda>pid. (pid, pm_TaskTypes (mp_Manifest p))) (mp_Process p)" using p by (simp add: running_def)
  then show "running (gw\<lparr>gw_plugins := map_put n p' (gw_plugins gw)\<rparr>) = running gw"
    unfolding running_put same by (metis fun_upd_triv)
qed (use gw_okD [OF ok] p' in \<open>auto intro: inv_intros split: if_splits\<close>)

lemma gw_ok_calls: "gw_ok gw \<Longrightarrow> registered c = registered (gw_calls gw) \<Longrightarrow> gw_ok (gw\<lparr>gw_calls := c\<rparr>)"
  by (simp add: gw_ok_def)

lemma running_cong: "gw_plugins a = gw_plugins b \<Longrightarrow> running a = running b"
  by (simp add: running_def fun_eq_iff)

lemma stopPlugin_ok:
  assumes ok: "gw_ok gw" and p: "map_of (gw_plugins gw) name = Some p"
  shows "gw_ok (stopPlugin name p gw)"
proof -
  let ?p = "p\<lparr>mp_Status := PluginStatusStopped, mp_Client := None, mp_Process := None\<rparr>"
  have e: "entry_ok name ?p" using gw_okD(3) [OF ok p] by (simp add: entry_ok_def)
  consider "mp_Status p = PluginStatusStopped \<or> mp_Status p = PluginStatusDisabled"
    | pid where "\<not> (mp_Status p = PluginStatusStopped \<or> mp_Status p = PluginStatusDisabled)" "mp_Process p = Some pid"
    | "\<not> (mp_Status p = PluginStatusStopped \<or> mp_Status p = PluginStatusDisabled)" "mp_Process p = None"
    by (cases "mp_Process p") auto
  then show ?thesis
  proof cases
    case 1
    with ok show ?thesis by (simp add: stopPlugin_def)
  next
    case 2
    then have r: "running gw name = Some (pid, pm_TaskTypes (mp_Manifest p))" using p by (simp add: running_def)
    show ?thesis
      by (rule gw_ok_end [OF ok r])
         (use 2 e gw_okD(2,3) [OF ok] in \<open>auto simp: stopPlugin_def killProcess_def running_put Let_def intro: inv_intros split: if_splits\<close>)
  next
    case 3
    then have r: "running gw name = None" using p by (simp add: running_def)
    have "registered (gw_calls gw) - FullTaskType name ` set (pm_TaskTypes (mp_Manifest p)) = registered (gw_calls gw)"
    proof -
      have "FullTaskType name t \<notin> full_types (types_of (running gw))" for t
      proof
        assume "FullTaskType name t \<in> full_types (types_of (running gw))"
        then obtain n u where nu: "FullTaskType name t = FullTaskType n u" "u \<in> types_of (running gw) n"
          by (auto simp: full_types_def)
        then have "running gw n \<noteq> None" by (auto simp: types_of_def split: option.splits)
        with running_valid [OF ok, of n] have "validPluginName n" by blast
        with Full_inj [OF running_iff(6) [OF ok p], of n] nu(1) have "n = name" by blast
        with r nu(2) show False by (simp add: types_of_def)
      qed
      then show ?thesis unfolding gw_okD(7) [OF ok] by blast
    qed
    moreover have "gw_ok (gw\<lparr>gw_plugins := map_put name ?p (gw_plugins gw)\<rparr>)" using gw_ok_put [OF ok p e] 3 by simp
    ultimately show ?thesis using 3 by (simp add: stopPlugin_def Let_def gw_ok_calls)
  qed
qed

lemma stopPlugin_table:
  assumes "gw_ok gw" "map_of (gw_plugins gw) name = Some p"
  shows "running (stopPlugin name p gw) = (running gw)(name := None)"
    "\<exists>p'. map_of (gw_plugins (stopPlugin name p gw)) = (map_of (gw_plugins gw))(name \<mapsto> p')
       \<and> mp_Manifest p' = mp_Manifest p \<and> mp_Process p' = None \<and> mp_Status p' \<noteq> PluginStatusRunning"
    "gw_cfg (stopPlugin name p gw) = gw_cfg gw"
proof -
  have none: "running gw name = None" if "mp_Status p = PluginStatusStopped \<or> mp_Status p = PluginStatusDisabled"
    using running_iff(1,2) [OF assms] that by auto
  then show "running (stopPlugin name p gw) = (running gw)(name := None)"
    by (auto simp: stopPlugin_def Let_def running_put killProcess_def split: option.splits)
  show "\<exists>p'. map_of (gw_plugins (stopPlugin name p gw)) = (map_of (gw_plugins gw))(name \<mapsto> p')
       \<and> mp_Manifest p' = mp_Manifest p \<and> mp_Process p' = None \<and> mp_Status p' \<noteq> PluginStatusRunning"
  proof (cases "mp_Status p = PluginStatusStopped \<or> mp_Status p = PluginStatusDisabled")
    case True
    with none assms(2) running_iff(2) [OF assms] show ?thesis
      by (intro exI [of _ p]) (auto simp: stopPlugin_def running_def fun_upd_idem)
  next
    case False
    then show ?thesis
      by (intro exI [of _ "p\<lparr>mp_Status := PluginStatusStopped, mp_Client := None, mp_Process := None\<rparr>"])
         (auto simp: stopPlugin_def Let_def killProcess_def split: option.splits)
  qed
  show "gw_cfg (stopPlugin name p gw) = gw_cfg gw" by (auto simp: stopPlugin_def Let_def killProcess_def split: option.splits)
qed

text \<open>Loading: either nothing but the process counter changes, or the plugin runs.\<close>

lemma loadPlugin_cases:
  assumes ok: "gw_ok gw" and r: "running gw (pm_Name m) = None"
  obtains e where "fst (loadPlugin env m gw) = Some e" "gw_plugins (snd (loadPlugin env m gw)) = gw_plugins gw"
      "gw_cfg (snd (loadPlugin env m gw)) = gw_cfg gw" "gw_calls (snd (loadPlugin env m gw)) = gw_calls gw"
      "gw_live (snd (loadPlugin env m gw)) = gw_live gw" "gw_nextpid gw \<le> gw_nextpid (snd (loadPlugin env m gw))"
  | pr mp where "fst (loadPlugin env m gw) = None" "validPluginName (pm_Name m)"
      "snd (loadPlugin env m gw) = gw\<lparr>gw_nextpid := gw_nextpid gw + 1, gw_live := gw_live gw @ [pr],
         gw_plugins := map_put (pm_Name m) mp (gw_plugins gw), gw_calls := gw_calls gw @ [Loaded (pm_Name m) (pm_TaskTypes m)]\<rparr>"
      "pp_pid pr = gw_nextpid gw" "mp_Process mp = Some (gw_nextpid gw)" "mp_Client mp \<noteq> None"
      "mp_Status mp = PluginStatusRunning" "mp_RestartCount mp = 0" "pm_Name (mp_Manifest mp) = pm_Name m"
      "pm_TaskTypes (mp_Manifest mp) = pm_TaskTypes m"
proof -
  let ?name = "pm_Name m"
  have fresh: "filter (\<lambda>p. pp_pid p \<noteq> gw_nextpid gw) (gw_live gw) = gw_live gw"
  proof -
    have "pp_pid p < gw_nextpid gw" if "p \<in> set (gw_live gw)" for p
      using that gw_okD(4,6) [OF ok] by (force simp: ran_def)
    then show ?thesis by (intro filter_True) (metis less_irrefl)
  qed
  have rc: "(case map_of (gw_plugins gw) ?name of Some existing \<Rightarrow> mp_RestartCount existing | None \<Rightarrow> 0) = 0"
    using running_iff(4) [OF ok] by (auto split: option.splits)
  consider (fail) e gw' where "loadPlugin env m gw = (Some e, gw')" | (load) gw' where "loadPlugin env m gw = (None, gw')"
    by (cases "loadPlugin env m gw", cases "fst (loadPlugin env m gw)") auto
  then show thesis
  proof cases
    case fail
    then show thesis
      by (intro that(1) [of e])
         (auto simp: loadPlugin_def startProcess_def killProcess_def sanitizePluginName_def Let_def fresh
           split: sum.splits option.splits prod.splits if_splits)
  next
    case load
    then show thesis
      by (auto simp: loadPlugin_def startProcess_def sanitizePluginName_def Let_def rc running_iff(4) [OF ok]
           split: sum.splits option.splits prod.splits if_splits intro!: that(2))
  qed
qed

lemma loadPlugin_ok:
  assumes ok: "gw_ok gw" and r: "running gw (pm_Name m) = None"
  shows "gw_ok (snd (loadPlugin env m gw))"
  using ok r
proof (cases rule: loadPlugin_cases [where env = env])
  case (1 e)
  then show ?thesis
    by (intro gw_ok_same [OF ok]) (use gw_okD(2,3) [OF ok] in \<open>simp_all add: running_def fun_eq_iff\<close>)
next
  case (2 pr mp)
  have e: "entry_ok (pm_Name m) mp" using 2 by (simp add: entry_ok_def)
  show ?thesis
    by (rule gw_ok_begin [OF ok r, where pr = pr and ts = "pm_TaskTypes m"])
       (use 2 e gw_okD(2,3) [OF ok] in \<open>auto simp: running_def fun_eq_iff intro: inv_intros split: if_splits\<close>)
qed

lemma set_status_ok:
  assumes "gw_ok gw" "running gw name = None" "st \<noteq> PluginStatusRunning"
  shows "gw_ok (set_status name st gw)"
proof (cases "map_of (gw_plugins gw) name")
  case (Some p)
  have "entry_ok name (p\<lparr>mp_Status := st\<rparr>)"
    using assms gw_okD(3) [OF assms(1) Some] Some by (auto simp: entry_ok_def running_def)
  from gw_ok_put [OF assms(1) Some this] Some show ?thesis by (simp add: set_status_def)
qed (simp add: set_status_def assms)

lemma ReloadPlugin_ok:
  assumes "gw_ok gw"
  shows "gw_ok (snd (ReloadPlugin env name gw))"
proof (cases "map_of (gw_plugins gw) name")
  case (Some p)
  have "running (stopPlugin name p gw) (pm_Name (mp_Manifest p)) = None"
    by (simp add: stopPlugin_table(1) [OF assms Some] running_iff(5) [OF assms Some])
  with loadPlugin_ok [OF stopPlugin_ok [OF assms Some]] Some show ?thesis by (simp add: ReloadPlugin_def)
qed (simp add: ReloadPlugin_def assms)

lemma EnablePlugin_ok:
  assumes "gw_ok gw"
  shows "gw_ok (snd (EnablePlugin env name gw))"
proof (cases "map_of (gw_plugins gw) name")
  case (Some p)
  have "running gw (pm_Name (mp_Manifest p)) = None" if "mp_Status p = PluginStatusDisabled"
    using running_iff(1,5) [OF assms Some] that by (metis PluginStatus.distinct(13))
  with loadPlugin_ok [OF assms, of "mp_Manifest p"] assms Some show ?thesis by (simp add: EnablePlugin_def)
qed (simp add: EnablePlugin_def assms)

lemma DisablePlugin_ok:
  assumes "gw_ok gw"
  shows "gw_ok (snd (DisablePlugin name gw))"
proof (cases "map_of (gw_plugins gw) name")
  case (Some p)
  then show ?thesis
    using set_status_ok [OF stopPlugin_ok [OF assms Some], of name PluginStatusDisabled] stopPlugin_table(1) [OF assms Some]
    by (simp add: DisablePlugin_def)
qed (simp add: DisablePlugin_def assms)

lemma fs_action_ok:
  assumes "gw_ok gw"
  shows "gw_ok (fs_action op env name gw)"
proof (cases op)
  case FsRemove
  show ?thesis
  proof (cases "map_of (gw_plugins gw) name")
    case (Some p)
    let ?g = "stopPlugin name p gw"
    have ok: "gw_ok ?g" by (rule stopPlugin_ok [OF assms Some])
    have "running ?g name = None" by (simp add: stopPlugin_table(1) [OF assms Some])
    then have "gw_ok (?g\<lparr>gw_plugins := map_del name (gw_plugins ?g)\<rparr>)"
      by (intro gw_ok_same [OF ok]) (use gw_okD(2,3) [OF ok] in \<open>auto simp: running_def fun_eq_iff intro: inv_intros split: if_splits\<close>)
    with Some FsRemove show ?thesis by (simp add: fs_action_def Let_def)
  qed (simp add: fs_action_def FsRemove assms)
qed (simp_all add: fs_action_def assms ReloadPlugin_ok)

lemma healthCheck_one_ok:
  assumes "gw_ok gw"
  shows "gw_ok (snd (healthCheck_one name he gw))"
proof (cases "map_of (gw_plugins gw) name")
  case (Some p)
  show ?thesis
  proof (cases "mp_Status p = PluginStatusRunning")
    case True
    then obtain client where c: "mp_Client p = Some client" using running_iff(2,3) [OF assms Some] by auto
    have restart: "shouldRestart (gw_cfg gw) p"
      using gw_okD(1) [OF assms] running_iff(4) [OF assms Some] by (simp add: shouldRestart_def)
    let ?g = "stopPlugin name p gw"
    have ok: "gw_ok ?g" and none: "running ?g name = None"
      using stopPlugin_ok [OF assms Some] stopPlugin_table(1) [OF assms Some] by simp_all
    have n: "pm_Name (mp_Manifest p) = name" by (rule running_iff(5) [OF assms Some])
    have nn: "running ?g (pm_Name (mp_Manifest p)) = None" using none n by simp
    have "gw_ok (snd (loadPlugin (he_load he) (mp_Manifest p) ?g))" by (rule loadPlugin_ok [OF ok nn])
    moreover have "running (snd (loadPlugin (he_load he) (mp_Manifest p) ?g)) name = None"
      if "fst (loadPlugin (he_load he) (mp_Manifest p) ?g) \<noteq> None"
      using ok nn
    proof (cases rule: loadPlugin_cases [where env = "he_load he"])
      case (1 e)
      then show ?thesis using none running_cong by metis
    qed (use that in simp)
    moreover have "gw_ok (gw\<lparr>gw_plugins := map_put name (p\<lparr>mp_LastHealth := he_now he\<rparr>) (gw_plugins gw)\<rparr>)"
      by (rule gw_ok_put [OF assms Some]) (use gw_okD(3) [OF assms Some] in \<open>simp_all add: entry_ok_def\<close>)
    ultimately show ?thesis using Some True c restart ok
      by (auto simp: healthCheck_one_def Let_def set_status_ok split: option.splits prod.splits)
  next
    case False
    with Some assms show ?thesis by (simp add: healthCheck_one_def split: PluginStatus.splits)
  qed
qed (simp add: healthCheck_one_def assms)

lemma healthCheckAll_ok: "gw_ok gw \<Longrightarrow> gw_ok (healthCheckAll xs gw)"
proof (induction xs arbitrary: gw)
  case (Cons x xs)
  then show ?case using healthCheck_one_ok [OF Cons.prems, of "fst x" "snd x"] by (auto split: prod.splits bool.splits)
qed simp

lemma gw_ExecuteTask_ok:
  assumes "gw_ok gw"
  shows "gw_ok (snd (gw_ExecuteTask rpc now req gw))"
proof -
  have "gw_ok (gw\<lparr>gw_plugins := map_put n (p\<lparr>mp_LastHealth := now\<rparr>) (gw_plugins gw)\<rparr>)"
    if p: "map_of (gw_plugins gw) n = Some p" for n p
    by (rule gw_ok_put [OF assms p]) (use gw_okD(3) [OF assms p] in \<open>simp_all add: entry_ok_def\<close>)
  then show ?thesis using assms by (auto simp: gw_ExecuteTask_def split: sum.splits option.splits prod.splits)
qed

lemma stop_all:
  assumes "gw_ok gw" "distinct (map fst ps)" "\<forall>(n, p) \<in> set ps. map_of (gw_plugins gw) n = Some p"
  shows "gw_ok (fold (\<lambda>(n, p). stopPlugin n p) ps gw)
    \<and> running (fold (\<lambda>(n, p). stopPlugin n p) ps gw) = (\<lambda>n. if n \<in> fst ` set ps then None else running gw n)"
  using assms
proof (induction ps arbitrary: gw)
  case (Cons x ps)
  obtain n p where x: "x = (n, p)" by force
  with Cons.prems have p: "map_of (gw_plugins gw) n = Some p" by simp
  obtain p' where "map_of (gw_plugins (stopPlugin n p gw)) = (map_of (gw_plugins gw))(n \<mapsto> p')"
    using stopPlugin_table(2) [OF Cons.prems(1) p] by blast
  then have "\<forall>(m, q) \<in> set ps. map_of (gw_plugins (stopPlugin n p gw)) m = Some q"
    using Cons.prems(2,3) x by force
  with Cons.IH [OF stopPlugin_ok [OF Cons.prems(1) p]] Cons.prems(2) x
  show ?case by (auto simp: stopPlugin_table(1) [OF Cons.prems(1) p] fun_eq_iff)
qed simp

lemma gw_Stop_ok:
  assumes "gw_ok gw"
  shows "gw_ok (gw_Stop gw)" "running (gw_Stop gw) = (\<lambda>n. None)"
proof -
  let ?f = "fold (\<lambda>(n, p). stopPlugin n p) (gw_plugins gw) gw"
  have ok: "map_ok (gw_plugins gw)" by (rule gw_okD(2) [OF assms])
  have f: "gw_ok ?f" "running ?f = (\<lambda>n. if n \<in> fst ` set (gw_plugins gw) then None else running gw n)"
    using stop_all [OF assms map_ok_distinct [OF ok]] ok by (auto simp: map_of_eq_Some_iff)
  have "running gw n = None" if "n \<notin> fst ` set (gw_plugins gw)" for n
    using that by (simp add: running_def map_of_eq_None_iff [symmetric])
  then have none: "running ?f = (\<lambda>n. None)" using f(2) by auto
  show r: "running (gw_Stop gw) = (\<lambda>n. None)" by (simp add: gw_Stop_def running_def fun_eq_iff)
  show "gw_ok (gw_Stop gw)"
    by (rule gw_ok_same [OF f(1)]) (use none r in \<open>simp_all add: gw_Stop_def\<close>)
qed

datatype gw_event =
    GwReload load_env string
  | GwEnable load_env string
  | GwDisable string
  | GwHealth "(string \<times> health_env) list"
  | GwFile fs_op load_env string
  | GwExec rpc time TaskRequest
  | GwStop

fun gw_step :: "gw_event \<Rightarrow> Gateway \<Rightarrow> Gateway" where
  "gw_step (GwReload env n) gw = snd (ReloadPlugin env n gw)"
| "gw_step (GwEnable env n) gw = snd (EnablePlugin env n gw)"
| "gw_step (GwDisable n) gw = snd (DisablePlugin n gw)"
| "gw_step (GwHealth xs) gw = healthCheckAll xs gw"
| "gw_step (GwFile op env n) gw = fs_action op env n gw"
| "gw_step (GwExec rpc now req) gw = snd (gw_ExecuteTask rpc now req gw)"
| "gw_step GwStop gw = gw_Stop gw"

interpretation gateway: invariant_machine gw_step gw_ok
proof
  show "gw_ok s \<Longrightarrow> gw_ok (gw_step e s)" for s e
    by (cases e) (simp_all add: ReloadPlugin_ok EnablePlugin_ok DisablePlugin_ok healthCheckAll_ok fs_action_ok
        gw_ExecuteTask_ok gw_Stop_ok)
qed

lemma New_sel:
  "gw_plugins (NewGateway cfg) = []" "gw_live (NewGateway cfg) = []" "gw_calls (NewGateway cfg) = []"
  "1 \<le> gc_MaxRestarts (gw_cfg (NewGateway cfg))" "running (NewGateway cfg) = (\<lambda>n. None)"
  by (simp_all add: NewGateway_def running_def fun_eq_iff)

lemma gw_ok_New: "gw_ok (NewGateway cfg)"
  unfolding gw_ok_def New_sel by (simp add: New_sel types_of_def full_types_def)

lemma load_all_ok:
  assumes "gw_ok gw" "distinct (map (pm_Name \<circ> fst) ms)" "\<forall>m \<in> set ms. running gw (pm_Name (fst m)) = None"
  shows "gw_ok (load_all ms gw)"
  using assms
proof (induction ms arbitrary: gw)
  case (Cons x ms)
  obtain m env where x: "x = (m, env)" by force
  have r: "running gw (pm_Name m) = None" using Cons.prems(3) x by simp
  have "running (snd (loadPlugin env m gw)) (pm_Name (fst y)) = None" if "y \<in> set ms" for y
    using Cons.prems(1) r
  proof (cases rule: loadPlugin_cases [where env = env])
    case 1
    then show ?thesis using Cons.prems(3) that running_cong by (metis list.set_intros(2))
  next
    case 2
    have "pm_Name (fst y) \<noteq> pm_Name m" using Cons.prems(2) that x by force
    with 2 Cons.prems(3) that show ?thesis by (simp add: running_def)
  qed
  with Cons.IH [OF loadPlugin_ok [OF Cons.prems(1) r]] Cons.prems(2) x show ?case by (simp add: load_all_def)
qed (simp add: load_all_def)

lemma gw_ok_started: "gw_ok (gw\<lparr>gw_started := b\<rparr>) = gw_ok gw"
  by (simp add: gw_ok_def)

lemma gw_ok_Start:
  assumes "distinct (map pm_Name ms)"
  shows "gw_ok (snd (gw_Start (Inr ms) envs (NewGateway cfg)))"
proof -
  have "distinct (map (pm_Name \<circ> fst) (zip ms envs))"
  proof -
    have "map (pm_Name \<circ> fst) (zip ms envs) = take (min (length ms) (length envs)) (map pm_Name ms)"
      by (simp flip: map_map add: map_fst_zip_take take_map)
    with assms show ?thesis by (metis distinct_take)
  qed
  moreover note New_sel(5) [of cfg]
  ultimately have "gw_ok (load_all (zip ms envs) ((NewGateway cfg)\<lparr>gw_started := True\<rparr>))"
    by (intro load_all_ok) (simp_all add: gw_ok_started gw_ok_New)
  moreover have "gw_ok ((NewGateway cfg)\<lparr>gw_started := True\<rparr>)" by (simp add: gw_ok_started gw_ok_New)
  ultimately show ?thesis unfolding gw_Start_def Let_def by (simp split: if_splits)
qed

subsection \<open>runtime.go and client.go\<close>

record RuntimeConfig =
  rc_Enabled :: bool
  rc_RuntimePath :: string
  rc_SocketPath :: string
  rc_AutoStart :: bool
  rc_StartupTimeout :: duration
  rc_RequestTimeout :: duration
  rc_MaxConcurrentTasks :: int
  rc_MaxResultBytes :: int
  rc_ChunkSizeBytes :: int
  rc_SandboxProfile :: string

record Runtime =
  rt_cfg :: RuntimeConfig
  rt_started :: bool
  rt_cmd :: "nat option"

definition New_runtime :: "RuntimeConfig \<Rightarrow> Runtime" where
  "New_runtime cfg =
     \<lparr>rt_cfg = cfg\<lparr>rc_StartupTimeout := (if rc_StartupTimeout cfg \<le> 0 then 5000000000 else rc_StartupTimeout cfg),
        rc_RequestTimeout := (if rc_RequestTimeout cfg \<le> 0 then 30000000000 else rc_RequestTimeout cfg),
        rc_MaxConcurrentTasks := (if rc_MaxConcurrentTasks cfg \<le> 0 then 4 else rc_MaxConcurrentTasks cfg),
        rc_MaxResultBytes := (if rc_MaxResultBytes cfg \<le> 0 then 8 * 1024 * 1024 else rc_MaxResultBytes cfg),
        rc_ChunkSizeBytes := (if rc_ChunkSizeBytes cfg \<le> 0 then 256 * 1024 else rc_ChunkSizeBytes cfg)\<rparr>,
      rt_started = False, rt_cmd = None\<rparr>"

text \<open>The directory, the process (its ID or an error) and the wait for the socket.\<close>

definition Start_runtime :: "err \<Rightarrow> nat result \<Rightarrow> err \<Rightarrow> Runtime \<Rightarrow> err \<times> Runtime" where
  "Start_runtime mkdir start socket r =
     (if \<not> rc_Enabled (rt_cfg r) \<or> rt_started r then (None, r)
      else if rc_SocketPath (rt_cfg r) = [] then (Some ''plugin socket path is required'', r)
      else if \<not> rc_AutoStart (rt_cfg r) then (None, r\<lparr>rt_started := True\<rparr>)
      else if rc_RuntimePath (rt_cfg r) = [] then (Some ''plugin runtime path is required when autostart=true'', r)
      else
        (case mkdir of
           Some e \<Rightarrow> (Some (''create plugin socket directory: '' @ e), r)
         | None \<Rightarrow>
             (case start of
                Inl e \<Rightarrow> (Some (''start plugin runtime: '' @ e), r)
              | Inr pid \<Rightarrow>
                  (case socket of
                     Some e \<Rightarrow> (Some (''wait plugin runtime socket: '' @ e), r)
                   | None \<Rightarrow> (None, r\<lparr>rt_cmd := Some pid, rt_started := True\<rparr>)))))"

text \<open>\<open>base64.StdEncoding.DecodedLen\<close>.\<close>

definition DecodedLen :: "nat \<Rightarrow> nat" where
  "DecodedLen n = n div 4 * 3"

primrec chunk_loop :: "int \<Rightarrow> int \<Rightarrow> Chunk list \<Rightarrow> err" where
  "chunk_loop maxBytes n [] = None"
| "chunk_loop maxBytes n (c # cs) =
     (let n' = n + int (DecodedLen (length (ch_DataB64 c)))
      in if n' > maxBytes then Some ''plugin response exceeded max result bytes: %d > %d'' else chunk_loop maxBytes n' cs)"

definition validateChunkSize :: "TaskResponse \<Rightarrow> int \<Rightarrow> err" where
  "validateChunkSize resp maxBytes = (if maxBytes \<le> 0 then None else chunk_loop maxBytes 0 (tp_Chunks resp))"

definition runtime_request :: "RuntimeConfig \<Rightarrow> int \<Rightarrow> TaskRequest \<Rightarrow> TaskRequest" where
  "runtime_request cfg deadline req =
     req\<lparr>tr_Payload := (case tr_Payload req of None \<Rightarrow> Some [] | Some p \<Rightarrow> Some p),
        tr_DeadlineMS := (if tr_DeadlineMS req \<le> 0 then deadline else tr_DeadlineMS req),
        tr_Chunking := \<lparr>ck_Enabled = True,
          ck_MaxChunkBytes = (if ck_MaxChunkBytes (tr_Chunking req) \<le> 0 then rc_ChunkSizeBytes cfg else ck_MaxChunkBytes (tr_Chunking req)),
          ck_MaxTotalBytes = (if ck_MaxTotalBytes (tr_Chunking req) \<le> 0 then rc_MaxResultBytes cfg else ck_MaxTotalBytes (tr_Chunking req))\<rparr>\<rparr>"

text \<open>\<open>ctx_err\<close> is the error of a context that ends while the call waits for a free slot.\<close>

definition runtime_ExecuteTask :: "rpc \<Rightarrow> err \<Rightarrow> int \<Rightarrow> TaskRequest \<Rightarrow> Runtime \<Rightarrow> TaskResponse result" where
  "runtime_ExecuteTask rpc ctx_err deadline req r =
     (let cfg = rt_cfg r
      in if \<not> rc_Enabled cfg then Inl ''plugin runtime is disabled''
         else
           (case ctx_err of
              Some e \<Rightarrow> Inl e
            | None \<Rightarrow>
                if tr_TaskID req = [] then Inl ''task_id is required''
                else if tr_Type req = [] then Inl ''task type is required''
                else
                  (case rpc (rc_SocketPath cfg) \<lparr>rpq_ID = tr_TaskID req, rpq_Method = ''execute_task'',
                       rpq_Params = Some (runtime_request cfg deadline req)\<rparr> of
                     DialErr e \<Rightarrow> Inl (''dial plugin runtime: '' @ e)
                   | EncodeErr e \<Rightarrow> Inl (''encode plugin request: '' @ e)
                   | ReadErr e \<Rightarrow> Inl (''read plugin response: '' @ e)
                   | DecodeErr e \<Rightarrow> Inl (''decode plugin response: '' @ e)
                   | Replied resp \<Rightarrow>
                       (case rps_Error resp of
                          Some e \<Rightarrow> Inl (''plugin rpc error (%d): '' @ rpe_Message e)
                        | None \<Rightarrow>
                            (case rps_Result resp of
                               None \<Rightarrow> Inl ''empty plugin response''
                             | Some res \<Rightarrow>
                                 (case validateChunkSize res (rc_MaxResultBytes cfg) of Some e \<Rightarrow> Inl e | None \<Rightarrow> Inr res))))))"

lemma chunk_loop_None:
  "n \<le> maxBytes \<Longrightarrow> chunk_loop maxBytes n cs = None \<longleftrightarrow> n + int (sum_list (map (DecodedLen \<circ> length \<circ> ch_DataB64) cs)) \<le> maxBytes"
  by (induction cs arbitrary: n) (auto simp: Let_def)

text \<open>A response that the runtime returns keeps the configured limit.\<close>

lemma runtime_result_bounded:
  assumes "runtime_ExecuteTask rpc e dl req (New_runtime cfg) = Inr res"
  shows "int (sum_list (map (DecodedLen \<circ> length \<circ> ch_DataB64) (tp_Chunks res))) \<le> rc_MaxResultBytes (rt_cfg (New_runtime cfg))"
proof -
  let ?max = "rc_MaxResultBytes (rt_cfg (New_runtime cfg))"
  have pos: "0 < ?max" by (simp add: New_runtime_def)
  have "validateChunkSize res ?max = None"
    using assms by (auto simp: runtime_ExecuteTask_def Let_def split: option.splits if_splits rpc_outcome.splits)
  with pos chunk_loop_None [of 0 ?max "tp_Chunks res"] show ?thesis by (simp add: validateChunkSize_def)
qed

subsection \<open>What the gateway promises\<close>

lemma running_Some:
  assumes "gw_ok gw"
  shows "running gw n = Some (pid, ts) \<longleftrightarrow>
    (\<exists>p. map_of (gw_plugins gw) n = Some p \<and> mp_Status p = PluginStatusRunning \<and> mp_Process p = Some pid
      \<and> pm_TaskTypes (mp_Manifest p) = ts)"
  using running_iff(2) [OF assms] by (auto simp: running_def split: option.splits)




text \<open>A registered task type reaches its plugin: in every state the gateway can get to, a task of a
  registered type, which has the form name/type with a type that is not empty, is sent under that
  type to the socket of a running plugin of that name, and the answer is that of the plugin.\<close>

theorem registered_types_routed:
  fixes cfg :: GatewayConfig and ms :: "PluginManifest list" and envs :: "load_env list" and es :: "gw_event list"
  defines "s \<equiv> fold gw_step es (snd (gw_Start (Inr ms) envs (NewGateway cfg)))"
  assumes "distinct (map pm_Name ms)" and "FullTaskType n t \<in> registered (gw_calls s)"
    and "validPluginName n" "t \<noteq> []" "tr_Type req = FullTaskType n t"
  shows "\<exists>p socket. map_of (gw_plugins s) n = Some p \<and> mp_Client p = Some socket \<and> t \<in> set (pm_TaskTypes (mp_Manifest p))
    \<and> fst (gw_ExecuteTask rpc now req s) =
      (case rpc_ExecuteTask rpc socket (req\<lparr>tr_Type := t\<rparr>) of
         Inl e \<Rightarrow> Inl (''plugin %s execute task: '' @ e) | Inr resp \<Rightarrow> Inr resp)"
proof -
  have ok: "gw_ok s" unfolding s_def by (rule gateway.run_inv [OF gw_ok_Start [OF assms(2)]])
  obtain n' t' where "FullTaskType n t = FullTaskType n' t'" and t': "t' \<in> types_of (running s) n'"
    using assms(3) unfolding gw_okD(7) [OF ok] by (auto simp: full_types_def)
  moreover from t' have "validPluginName n'" using running_valid [OF ok, of n'] by (auto simp: types_of_def split: option.splits)
  ultimately have "t \<in> types_of (running s) n" using Full_inj [OF assms(4)] by blast
  then obtain pid ts where "running s n = Some (pid, ts)" "t \<in> set ts" by (auto simp: types_of_def split: option.splits)
  then obtain p where p: "map_of (gw_plugins s) n = Some p" "mp_Status p = PluginStatusRunning"
      "mp_Process p = Some pid" "t \<in> set (pm_TaskTypes (mp_Manifest p))"
    unfolding running_Some [OF ok] by blast
  then obtain socket where c: "mp_Client p = Some socket" using running_iff(3) [OF ok p(1)] by auto
  have "ParseFullTaskType (tr_Type req) = Inr (n, t)" using Parse_Full [OF assms(4)] assms(5,6) by simp
  with p c show ?thesis by (auto simp: gw_ExecuteTask_def split: sum.splits)
qed

text \<open>restarts are never counted: in every state the gateway can get to, no plugin has a restart count above
  zero, so a plugin that runs but fails its health check is restarted, however often that has happened
  before and whatever limit is configured, and runs again when its process can be started.\<close>

theorem restarts_never_counted:
  fixes cfg :: GatewayConfig and ms :: "PluginManifest list" and envs :: "load_env list" and es :: "gw_event list"
  defines "s \<equiv> fold gw_step es (snd (gw_Start (Inr ms) envs (NewGateway cfg)))"
  assumes "distinct (map pm_Name ms)" and "map_of (gw_plugins s) n = Some p" "mp_Status p = PluginStatusRunning"
    and fails: "\<And>client. Ping (he_rpc he) client \<noteq> None" and "\<not> he_done he"
    and env: "le_mkdir (he_load he) = None" "\<not> le_symlink (he_load he)" "le_binary (he_load he) = None"
      "le_start (he_load he) = None" "le_socket (he_load he) = None"
  shows "snd (healthCheck_one n he s) = snd (loadPlugin (he_load he) (mp_Manifest p) (stopPlugin n p s))
    \<and> (\<exists>p'. mp_RestartCount p = 0 \<and> map_of (gw_plugins (snd (healthCheck_one n he s))) n = Some p'
    \<and> mp_Status p' = PluginStatusRunning \<and> mp_RestartCount p' = 0)"
proof -
  have ok: "gw_ok s" unfolding s_def by (rule gateway.run_inv [OF gw_ok_Start [OF assms(2)]])
  note i = running_iff [OF ok assms(3)]
  obtain client where c: "mp_Client p = Some client" using i(2,3) assms(4) by auto
  obtain e where e: "Ping (he_rpc he) client = Some e" using fails [of client] by blast
  have rs: "shouldRestart (gw_cfg s) p" using gw_okD(1) [OF ok] i(4) by (simp add: shouldRestart_def)
  let ?g = "stopPlugin n p s"
  have g: "gw_ok ?g" "running ?g (pm_Name (mp_Manifest p)) = None"
    using stopPlugin_ok [OF ok assms(3)] stopPlugin_table(1) [OF ok assms(3)] i(5) by simp_all
  have load: "fst (loadPlugin (he_load he) (mp_Manifest p) ?g) = None"
    using env i(5,6) by (simp add: loadPlugin_def sanitizePluginName_def startProcess_def Let_def)
  from g obtain mp where "map_of (gw_plugins (snd (loadPlugin (he_load he) (mp_Manifest p) ?g))) n = Some mp"
      "mp_Status mp = PluginStatusRunning" "mp_RestartCount mp = 0"
    by (cases rule: loadPlugin_cases [where env = "he_load he"]) (use load i(5) in auto)
  moreover have "snd (healthCheck_one n he s) = snd (loadPlugin (he_load he) (mp_Manifest p) ?g)"
    using assms(3,4,6) c e rs load by (auto simp: healthCheck_one_def Let_def split: prod.splits option.splits)
  ultimately show ?thesis using i(4) by auto
qed

text \<open>Plugins of the same name leak: when two manifests have the same valid name and both processes start, the
  second takes the place of the first in the table, and stopping the gateway leaves the first process running.\<close>

theorem duplicate_plugin_leaks:
  assumes "pm_Name m2 = pm_Name m1" "validPluginName (pm_Name m1)"
    and "list_all (\<lambda>e. le_mkdir e = None \<and> \<not> le_symlink e \<and> le_binary e = None \<and> le_start e = None \<and> le_socket e = None) [e1, e2]"
  shows "map pp_path (gw_live (gw_Stop (load_all [(m1, e1), (m2, e2)] (NewGateway cfg)))) = [pm_BinaryPath m1]"
  using assms
  by (simp add: load_all_def loadPlugin_def sanitizePluginName_def startProcess_def Let_def gw_Stop_def stopPlugin_def
      killProcess_def New_sel)

subsection \<open>Examples\<close>

definition echo_manifest :: PluginManifest where
  "echo_manifest =
     \<lparr>pm_Name = ''echo'', pm_Version = ''1.0.0'', pm_Description = [], pm_Author = [], pm_Runtime = ''process'',
      pm_BinaryPath = ''bin/echo'', pm_Env = [], pm_TaskTypes = [''say''], pm_ConfigSchema = [], pm_Config = None,
      pm_Requirements = None, pm_Limits = None, pm_HealthCheck = None, pm_Sandbox = None, pm_resolvedDir = []\<rparr>"

definition fine_env :: load_env where
  "fine_env = \<lparr>le_tmp = ''/tmp'', le_mkdir = None, le_symlink = False, le_binary = None, le_start = None, le_socket = None, le_now = 0\<rparr>"

definition echo_gateway :: GatewayConfig where
  "echo_gateway = \<lparr>gc_PluginsDir = ''/p'', gc_StartupTimeout = 0, gc_HealthCheckInterval = 0, gc_MaxRestarts = 2,
     gc_RestartBackoff = 0, gc_FileWatchDebounce = 0, gc_PluginConfigs = []\<rparr>"

definition echo_state :: Gateway where
  "echo_state = snd (gw_Start (Inr [echo_manifest]) [fine_env] (NewGateway echo_gateway))"

lemma echo_sel:
  "pm_Name echo_manifest = ''echo''" "pm_TaskTypes echo_manifest = [''say'']" "validPluginName ''echo''"
  "le_mkdir fine_env = None" "\<not> le_symlink fine_env" "le_binary fine_env = None" "le_start fine_env = None" "le_socket fine_env = None"
  by (simp_all add: echo_manifest_def fine_env_def validPluginName_def is_alnum_def is_digit_def)

lemma echo_running:
  "\<exists>p. map_of (gw_plugins echo_state) ''echo'' = Some p \<and> mp_Status p = PluginStatusRunning"
  "FullTaskType ''echo'' ''say'' \<in> registered (gw_calls echo_state)" "map pp_pid (gw_live echo_state) = [1]"
  by (simp_all add: echo_state_def gw_Start_def Let_def NewGateway_def echo_gateway_def load_all_def loadPlugin_def
      sanitizePluginName_def startProcess_def echo_sel registered_def FullTaskType_def)

lemma echo_distinct: "distinct (map pm_Name [echo_manifest])"
  by simp


definition say_request :: TaskRequest where
  "say_request = \<lparr>tr_TaskID = ''t'', tr_Type = ''echo/say'', tr_DeadlineMS = 0, tr_Payload = None,
     tr_Chunking = \<lparr>ck_Enabled = True, ck_MaxChunkBytes = 0, ck_MaxTotalBytes = 0\<rparr>\<rparr>"

theorem registered_types_routed_witness:
  "\<exists>e. fst (gw_ExecuteTask (\<lambda>socket req. DialErr ''refused'') 0 say_request echo_state) = Inl e"
proof -
  have "\<exists>p socket. map_of (gw_plugins (fold gw_step [] echo_state)) ''echo'' = Some p \<and> mp_Client p = Some socket
      \<and> ''say'' \<in> set (pm_TaskTypes (mp_Manifest p))
      \<and> fst (gw_ExecuteTask (\<lambda>socket req. DialErr ''refused'') 0 say_request (fold gw_step [] echo_state)) =
        (case rpc_ExecuteTask (\<lambda>socket req. DialErr ''refused'') socket (say_request\<lparr>tr_Type := ''say''\<rparr>) of
           Inl e \<Rightarrow> Inl (''plugin %s execute task: '' @ e) | Inr resp \<Rightarrow> Inr resp)"
    unfolding echo_state_def
    by (rule registered_types_routed [OF echo_distinct])
       (use echo_running(2) echo_sel(3) in \<open>simp_all add: echo_state_def say_request_def FullTaskType_def\<close>)
  then show ?thesis by (auto simp: rpc_ExecuteTask_def)
qed

theorem restarts_never_counted_witness:
  "\<exists>p'. map_of (gw_plugins (snd (healthCheck_one ''echo''
       \<lparr>he_now = 0, he_rpc = \<lambda>socket req. DialErr ''refused'', he_done = False, he_load = fine_env\<rparr> echo_state))) ''echo'' = Some p'
     \<and> mp_Status p' = PluginStatusRunning"
proof -
  let ?he = "\<lparr>he_now = 0, he_rpc = \<lambda>socket req. DialErr ''refused'', he_done = False, he_load = fine_env\<rparr>"
  obtain p where p: "map_of (gw_plugins echo_state) ''echo'' = Some p" "mp_Status p = PluginStatusRunning"
    using echo_running(1) by blast
  have "snd (healthCheck_one ''echo'' ?he (fold gw_step [] echo_state)) = snd (loadPlugin (he_load ?he) (mp_Manifest p) (stopPlugin ''echo'' p (fold gw_step [] echo_state)))
      \<and> (\<exists>p'. mp_RestartCount p = 0 \<and> map_of (gw_plugins (snd (healthCheck_one ''echo'' ?he (fold gw_step [] echo_state)))) ''echo'' = Some p'
      \<and> mp_Status p' = PluginStatusRunning \<and> mp_RestartCount p' = 0)"
    unfolding echo_state_def
    by (rule restarts_never_counted [OF echo_distinct])
       (use p in \<open>simp_all add: echo_state_def Ping_def echo_sel\<close>)
  then show ?thesis by auto
qed

theorem duplicate_plugin_leaks_witness:
  "map pp_path (gw_live (gw_Stop (load_all [(echo_manifest, fine_env), (echo_manifest\<lparr>pm_BinaryPath := ''other''\<rparr>, fine_env)]
     (NewGateway echo_gateway)))) = [''bin/echo'']"
  using duplicate_plugin_leaks [of "echo_manifest\<lparr>pm_BinaryPath := ''other''\<rparr>" echo_manifest fine_env fine_env echo_gateway]
  by (simp add: echo_sel) (simp add: echo_manifest_def)

theorem plugin_binary_contained_witness:
  "\<exists>m rest. LoadManifest ''linux'' (\<lambda>_. Inr echo_manifest) (\<lambda>_. Inr []) ''/p/echo/plugin.yaml'' = Inr m \<and> rest \<noteq> []
     \<and> pm_BinaryPath m = CHR ''/'' # join_with ''/'' (abs_comps (pm_resolvedDir m) @ rest)"
proof -
  have "\<not> isl (LoadManifest ''linux'' (\<lambda>_. Inr echo_manifest) (\<lambda>_. Inr []) ''/p/echo/plugin.yaml'')" by code_simp
  then obtain m where "LoadManifest ''linux'' (\<lambda>_. Inr echo_manifest) (\<lambda>_. Inr []) ''/p/echo/plugin.yaml'' = Inr m"
    by (metis isl_def sum.exhaust)
  moreover have "IsAbs ''/p/echo/plugin.yaml''" by code_simp
  ultimately show ?thesis using plugin_binary_contained by blast
qed

text \<open>A gateway that was stopped still reports that it runs, and a manifest that is new in the directory is not loaded.\<close>

lemma started_stopPlugin [simp]: "gw_started (stopPlugin n p g) = gw_started g"
  by (simp add: stopPlugin_def Let_def killProcess_def split: option.splits)

lemma started_stop_all [simp]: "gw_started (fold (\<lambda>(n, p). stopPlugin n p) ps g) = gw_started g"
  by (induction ps arbitrary: g) (simp_all add: case_prod_beta)

lemma started_load [simp]: "gw_started (snd (loadPlugin env m g)) = gw_started g"
  by (cases "sanitizePluginName (pm_Name m)"; cases "le_mkdir env"; cases "le_binary env"; cases "le_start env"; cases "le_socket env")
     (simp_all add: loadPlugin_def startProcess_def killProcess_def Let_def)

lemma started_load_all [simp]: "gw_started (load_all ms g) = gw_started g"
  unfolding load_all_def by (induction ms arbitrary: g) (simp_all add: case_prod_beta)

lemma stopped_reports_running: "fst (gw_HealthStatus (gw_Stop (snd (gw_Start d envs gw)))) = ''running''"
  by (simp add: gw_HealthStatus_def gw_Stop_def gw_Start_def Let_def split: sum.splits)

lemma new_manifest_not_loaded:
  "map_of (gw_plugins gw) name = None \<Longrightarrow> fs_action FsCreateOrWrite env name gw = gw"
  by (simp add: fs_action_def ReloadPlugin_def)

end
