(* ===== verification/Agent_Tasks.thy ===== *)
theory Agent_Tasks
imports Executor Plugin_Gateway Sandbox Agent_Reload Tunnel_Gateway
begin

text \<open>
  The tasks of the agent: the dispatcher (\<open>internal/task\<close>), the task handlers and their middleware, the
  handlers of platform messages, the receiver that dispatches these (\<open>internal/grpcclient/receiver.go\<close>) and
  the orderly shutdown (\<open>internal/app/agent.go\<close>). Processes, plugins and the sandbox answer as their theories
  describe; durations of results are left out.
\<close>

subsection \<open>dispatcher.go and task.go\<close>

record AgentTask =
  at_TaskID :: string
  at_Type :: string
  at_Payload :: "goval gomap"

type_synonym 'h dispatcher = "'h gomap"

definition Register_task :: "string \<Rightarrow> 'h \<Rightarrow> 'h dispatcher \<Rightarrow> 'h dispatcher" where
  "Register_task taskType handler d = map_put taskType handler d"

definition Unregister_task :: "string \<Rightarrow> 'h dispatcher \<Rightarrow> 'h dispatcher" where
  "Unregister_task taskType d = map_del taskType d"

definition Dispatch :: "'h dispatcher \<Rightarrow> AgentTask \<Rightarrow> 'h result" where
  "Dispatch d t = (case map_of d (at_Type t) of None \<Rightarrow> Inl ''unsupported task type: %s'' | Some h \<Rightarrow> Inr h)"

definition TypeCollectMetrics :: string where "TypeCollectMetrics = ''collect_metrics''"
definition TypeExecCommand :: string where "TypeExecCommand = ''exec_command''"
definition TypeHealthCheck :: string where "TypeHealthCheck = ''health_check''"
definition TypeSandboxExec :: string where "TypeSandboxExec = ''sandbox_exec''"
definition pluginTypes :: "string list" where
  "pluginTypes = [''plugin_log_parse'', ''plugin_text_process'', ''plugin_ebpf_collect'', ''plugin_fs_scan'',
     ''plugin_conn_analyze'', ''plugin_local_probe'']"

subsection \<open>agent.go: what the configuration builds\<close>

definition agent_executor :: "Config \<Rightarrow> Executor" where
  "agent_executor cfg =
     New_executor (elems (exec_AllowedCommands (cfg_Executor cfg)))
       (wrap64 (exec_TimeoutSeconds (cfg_Executor cfg) * 1000000000)) (exec_MaxOutputBytes (cfg_Executor cfg))"

definition agent_sandbox :: "Config \<Rightarrow> SbxConfig option" where
  "agent_sandbox cfg =
     (let s = cfg_Sandbox cfg; p = sbx_Policy s
      in if sbx_Enabled s then
           Some (fst (NewExecutor \<lparr>sc_NsjailPath = sbx_NsjailPath s, sc_WorkDir = sbx_BaseWorkdir s,
             sc_CgroupBase = sbx_CgroupBasePath s, sc_MemoryMB = 0, sc_CPUPercent = 0, sc_MaxPIDs = 0,
             sc_TimeoutSec = sbx_DefaultTimeoutSeconds s, sc_MaxTimeoutSec = 0, sc_MaxOutputKB = 0, sc_NetworkMode = [],
             sc_Policy = \<lparr>p_AllowedCommands = elems (pol_AllowedCommands p), p_BlockedCommands = elems (pol_BlockedCommands p),
               p_BlockedKeywords = elems (pol_BlockedKeywords p), p_AllowedInterpreters = elems (pol_AllowedInterpreters p),
               p_MaxScriptBytes = pol_ScriptMaxBytes p, p_AllowSudo = False, p_AllowNetwork = False\<rparr>,
             sc_MaxConcurrentTasks = sbx_MaxConcurrentTasks s\<rparr>))
         else None)"

definition agent_runtime :: "Config \<Rightarrow> Runtime" where
  "agent_runtime cfg =
     (let p = cfg_Plugin cfg
      in New_runtime \<lparr>rc_Enabled = plug_Enabled p, rc_RuntimePath = plug_RuntimePath p, rc_SocketPath = plug_SocketPath p,
           rc_AutoStart = plug_AutoStart p, rc_StartupTimeout = wrap64 (plug_StartupTimeoutSeconds p * 1000000000),
           rc_RequestTimeout = wrap64 (plug_RequestTimeoutSeconds p * 1000000000),
           rc_MaxConcurrentTasks = plug_MaxConcurrentTasks p, rc_MaxResultBytes = plug_MaxResultBytes p,
           rc_ChunkSizeBytes = plug_ChunkSizeBytes p, rc_SandboxProfile = plug_SandboxProfile p\<rparr>)"

definition agent_gateway :: "Config \<Rightarrow> Gateway option" where
  "agent_gateway cfg =
     (let g = cfg_PluginGateway cfg
      in if pgw_Enabled g then
           Some (NewGateway \<lparr>gc_PluginsDir = pgw_PluginsDir g,
             gc_StartupTimeout = wrap64 (pgw_StartupTimeoutSeconds g * 1000000000),
             gc_HealthCheckInterval = wrap64 (pgw_HealthCheckIntervalSecs g * 1000000000),
             gc_MaxRestarts = pgw_MaxRestarts g, gc_RestartBackoff = wrap64 (pgw_RestartBackoffSeconds g * 1000000000),
             gc_FileWatchDebounce = wrap64 (pgw_FileWatchDebounceSecs g * 1000000000),
             gc_PluginConfigs = map (\<lambda>(k, v). (k, case v of Some m \<Rightarrow> m | None \<Rightarrow> [])) (case pgw_PluginConfigs g of Some m \<Rightarrow> m | None \<Rightarrow> [])\<rparr>)
         else None)"

subsection \<open>agent.go: payloads\<close>

primrec string_args :: "goval list \<Rightarrow> string list result" where
  "string_args [] = Inr []"
| "string_args (arg # args) =
     (case arg of
        GString s \<Rightarrow> map_sum id (Cons s) (string_args args)
      | _ \<Rightarrow> Inl ''task payload.args must be string array'')"

definition payload_args :: "goval gomap \<Rightarrow> string list result" where
  "payload_args payload = (case map_of payload ''args'' of Some (GList xs) \<Rightarrow> string_args xs | _ \<Rightarrow> Inr [])"

definition payload_command :: "goval gomap \<Rightarrow> string result" where
  "payload_command payload =
     (case map_of payload ''command'' of
        Some (GString c) \<Rightarrow> if c = [] then Inl ''task payload.command is required'' else Inr c
      | _ \<Rightarrow> Inl ''task payload.command is required'')"

definition payload_timeout :: "goval gomap \<Rightarrow> int result" where
  "payload_timeout payload =
     (case map_of payload ''timeout_seconds'' of
        None \<Rightarrow> Inr 0
      | Some v \<Rightarrow>
          (case v of
             GFloat64 x \<Rightarrow> Inr (to_int64 x)
           | GInt n \<Rightarrow> Inr n
           | GString s \<Rightarrow> (case Atoi s of None \<Rightarrow> Inl ''invalid timeout_seconds: %w'' | Some n \<Rightarrow> Inr n)
           | _ \<Rightarrow> Inl ''invalid timeout_seconds type''))"

definition exec_request :: "goval gomap \<Rightarrow> Request result" where
  "exec_request payload =
     (case payload_command payload of
        Inl e \<Rightarrow> Inl e
      | Inr c \<Rightarrow>
          (case payload_args payload of
             Inl e \<Rightarrow> Inl e
           | Inr args \<Rightarrow>
               (case payload_timeout payload of
                  Inl e \<Rightarrow> Inl e
                | Inr n \<Rightarrow> Inr \<lparr>xr_Command = c, xr_Args = args, xr_TimeoutSeconds = n\<rparr>)))"

definition sandbox_request :: "AgentTask \<Rightarrow> ExecRequest result" where
  "sandbox_request t =
     (case payload_command (at_Payload t) of
        Inl e \<Rightarrow> Inl e
      | Inr c \<Rightarrow>
          (case payload_args (at_Payload t) of
             Inl e \<Rightarrow> Inl e
           | Inr args \<Rightarrow>
               Inr \<lparr>rq_TaskID = at_TaskID t, rq_Command = c, rq_Args = args, rq_Script = [], rq_Interpreter = [],
                    rq_Env = [], rq_Timeout = 0, rq_SandboxCfg = None\<rparr>))"

subsection \<open>agent.go: the running agent\<close>

text \<open>What was started on the host, what was sent to the platform, and the audit log.\<close>

datatype launched = LocalRun exec_call | JailRun invocation

record sent_result =
  sr_TaskID :: string
  sr_ExitCode :: int
  sr_TimedOut :: bool
  sr_Killed :: bool

datatype sent = SentResult sent_result | SentOutput string string string

record AuditEvent =
  ae_EventType :: string
  ae_Component :: string
  ae_Action :: string
  ae_Status :: string
  ae_TaskID :: string
  ae_Error :: string

text \<open>A cancel function in the table of active tasks is a number; the cancelled ones are kept in a list.\<close>

record agent_run =
  ar_shuttingDown :: bool
  ar_active :: "nat gomap"
  ar_next :: nat
  ar_cancelled :: "nat list"
  ar_launched :: "launched list"
  ar_sent :: "sent list"
  ar_audit :: "AuditEvent list"
  ar_TasksRunning :: int
  ar_TasksCompleted :: int
  ar_TasksFailed :: int

definition Log :: "Config \<Rightarrow> AuditEvent \<Rightarrow> agent_run \<Rightarrow> agent_run" where
  "Log cfg ev st =
     (if auditlog_Enabled (agent_AuditLog (cfg_Agent cfg)) then st\<lparr>ar_audit := ar_audit st @ [ev]\<rparr> else st)"

definition task_event :: "string \<Rightarrow> string \<Rightarrow> string \<Rightarrow> string \<Rightarrow> string \<Rightarrow> AuditEvent" where
  "task_event eventType action status taskID e =
     \<lparr>ae_EventType = eventType, ae_Component = ''dispatcher'', ae_Action = action, ae_Status = status, ae_TaskID = taskID, ae_Error = e\<rparr>"

type_synonym 'r handler = "AgentTask \<Rightarrow> agent_run \<Rightarrow> 'r result \<times> agent_run"

definition withTaskMiddleware :: "Config \<Rightarrow> string \<Rightarrow> 'r handler \<Rightarrow> 'r handler" where
  "withTaskMiddleware cfg taskType handler t st =
     (if ar_shuttingDown st then
        (Inl ''agent is shutting down'',
         Log cfg (task_event ''task.failed'' taskType ''failure'' (at_TaskID t) ''agent is shutting down'') st)
      else
        (let st1 = Log cfg (task_event ''task.started'' taskType ''success'' (at_TaskID t) []) st;
             st2 = st1\<lparr>ar_TasksRunning := ar_TasksRunning st1 + 1\<rparr>
         in case handler t st2 of
              (Inl e, st3) \<Rightarrow>
                (let st4 = st3\<lparr>ar_TasksFailed := ar_TasksFailed st3 + 1\<rparr>;
                     st5 = Log cfg (task_event ''task.failed'' taskType ''failure'' (at_TaskID t) e) st4
                 in (Inl e, st5\<lparr>ar_TasksRunning := ar_TasksRunning st5 - 1\<rparr>))
            | (Inr r, st3) \<Rightarrow>
                (let st4 = st3\<lparr>ar_TasksCompleted := ar_TasksCompleted st3 + 1\<rparr>;
                     st5 = Log cfg (task_event ''task.completed'' taskType ''success'' (at_TaskID t) []) st4
                 in (Inr r, st5\<lparr>ar_TasksRunning := ar_TasksRunning st5 - 1\<rparr>))))"

text \<open>The registration of a task as active around its body.\<close>

definition while_active :: "string \<Rightarrow> (agent_run \<Rightarrow> 'r result \<times> agent_run) \<Rightarrow> agent_run \<Rightarrow> 'r result \<times> agent_run" where
  "while_active taskID body st =
     (if ar_shuttingDown st then (Inl ''agent is shutting down'', st)
      else
        (let st1 = st\<lparr>ar_active := map_put taskID (ar_next st) (ar_active st), ar_next := ar_next st + 1\<rparr>
         in case body st1 of (r, st2) \<Rightarrow> (r, st2\<lparr>ar_active := map_del taskID (ar_active st2)\<rparr>)))"

datatype task_reply = ExecReply Result | SandboxReply ExecResult | HealthReply string bool bool | PluginReply TaskResponse

definition run_local :: "Config \<Rightarrow> Request \<Rightarrow> process \<Rightarrow> agent_run \<Rightarrow> Result result \<times> agent_run" where
  "run_local cfg req pr st =
     (case Execute (agent_executor cfg) req pr of
        (None, r) \<Rightarrow> (r, st)
      | (Some call, r) \<Rightarrow> (r, st\<lparr>ar_launched := ar_launched st @ [LocalRun call]\<rparr>))"

definition run_jailed ::
    "(invocation \<times> string list \<times> ExecResult) result \<Rightarrow> agent_run \<Rightarrow> (string list \<times> ExecResult) result \<times> agent_run" where
  "run_jailed outcome st =
     (case outcome of
        Inl e \<Rightarrow> (Inl e, st)
      | Inr (iv, out, res) \<Rightarrow> (Inr (out, res), st\<lparr>ar_launched := ar_launched st @ [JailRun iv]\<rparr>))"

definition exec_command_handler :: "Config \<Rightarrow> process \<Rightarrow> task_reply handler" where
  "exec_command_handler cfg pr t st =
     while_active (at_TaskID t)
       (\<lambda>st1. case exec_request (at_Payload t) of
          Inl e \<Rightarrow> (Inl e, st1)
        | Inr req \<Rightarrow> (case run_local cfg req pr st1 of (r, st2) \<Rightarrow> (map_sum id ExecReply r, st2))) st"

definition sandbox_exec_handler :: "Config \<Rightarrow> sys_outcome \<Rightarrow> task_reply handler" where
  "sandbox_exec_handler cfg sys t st =
     (case agent_sandbox cfg of
        None \<Rightarrow> (Inl ''sandbox not available'', st)
      | Some sbx \<Rightarrow>
          while_active (at_TaskID t)
            (\<lambda>st1. case sandbox_request t of
               Inl e \<Rightarrow> (Inl e, st1)
             | Inr req \<Rightarrow>
                 (case run_jailed (ExecuteCommand sbx req sys) st1 of
                    (r, st2) \<Rightarrow> (map_sum id (SandboxReply \<circ> snd) r, st2))) st)"

definition executePluginTask :: "Config \<Rightarrow> rpc \<Rightarrow> err \<Rightarrow> time \<Rightarrow> string \<Rightarrow> task_reply handler" where
  "executePluginTask cfg rpc ctx_err now taskType t st =
     (let p = cfg_Plugin cfg
      in if \<not> plug_Enabled p then (Inl ''plugin runtime is disabled'', st)
         else
           (let taskID = (if at_TaskID t = [] then ''plugin-'' @ itoa now else at_TaskID t);
                deadline = (now + wrap64 (plug_RequestTimeoutSeconds p * 1000000000)) div 1000000
            in (map_sum id PluginReply
                 (runtime_ExecuteTask rpc ctx_err deadline
                    \<lparr>tr_TaskID = taskID, tr_Type = taskType, tr_DeadlineMS = deadline, tr_Payload = Some (at_Payload t),
                     tr_Chunking = \<lparr>ck_Enabled = True, ck_MaxChunkBytes = plug_ChunkSizeBytes p, ck_MaxTotalBytes = plug_MaxResultBytes p\<rparr>\<rparr>
                    (agent_runtime cfg)), st)))"

definition gateway_request :: "Config \<Rightarrow> time \<Rightarrow> AgentTask \<Rightarrow> TaskRequest" where
  "gateway_request cfg now t =
     (let p = cfg_Plugin cfg; timeoutSec = (if plug_RequestTimeoutSeconds p \<le> 0 then 30 else plug_RequestTimeoutSeconds p)
      in \<lparr>tr_TaskID = (if at_TaskID t = [] then ''gw-'' @ itoa now else at_TaskID t), tr_Type = at_Type t,
          tr_DeadlineMS = (now + wrap64 (timeoutSec * 1000000000)) div 1000000, tr_Payload = Some (at_Payload t),
          tr_Chunking = \<lparr>ck_Enabled = True, ck_MaxChunkBytes = plug_ChunkSizeBytes p, ck_MaxTotalBytes = plug_MaxResultBytes p\<rparr>\<rparr>)"

definition executeGatewayTask :: "Config \<Rightarrow> rpc \<Rightarrow> time \<Rightarrow> Gateway option \<Rightarrow> task_reply handler" where
  "executeGatewayTask cfg rpc now gw t st =
     (if ar_shuttingDown st then (Inl ''agent is shutting down'', st)
      else
        (case gw of
           None \<Rightarrow> (Inl ''plugin gateway is not enabled'', st)
         | Some g \<Rightarrow> (map_sum id PluginReply (fst (gw_ExecuteTask rpc now (gateway_request cfg now t) g)), st)))"

definition health_check_handler :: "Config \<Rightarrow> bool \<Rightarrow> task_reply handler" where
  "health_check_handler cfg hasMetric t st =
     (Inr (HealthReply (agent_ID (cfg_Agent cfg)) hasMetric (plug_Enabled (cfg_Plugin cfg))),
      Log cfg (task_event ''task.started'' ''health_check'' ''success'' (at_TaskID t) []) st)"

text \<open>What the host, the plugins and the clock answer to one task.\<close>

record task_env =
  te_process :: process
  te_sys :: sys_outcome
  te_rpc :: rpc
  te_ctx_err :: err
  te_now :: time
  te_hasMetric :: bool
  te_gateway :: "Gateway option"

datatype task_handler = LegacyCollect | HandleExec | HandleHealth | HandlePlugin string | HandleSandbox | HandleGateway string

fun run_handler :: "Config \<Rightarrow> task_env \<Rightarrow> task_handler \<Rightarrow> task_reply handler" where
  "run_handler cfg env LegacyCollect t st = (Inl ''legacy collect-metrics path removed'', st)"
| "run_handler cfg env HandleExec t st = withTaskMiddleware cfg ''exec_command'' (exec_command_handler cfg (te_process env)) t st"
| "run_handler cfg env HandleHealth t st = health_check_handler cfg (te_hasMetric env) t st"
| "run_handler cfg env (HandlePlugin tt) t st =
     withTaskMiddleware cfg tt (executePluginTask cfg (te_rpc env) (te_ctx_err env) (te_now env) tt) t st"
| "run_handler cfg env HandleSandbox t st = withTaskMiddleware cfg ''sandbox_exec'' (sandbox_exec_handler cfg (te_sys env)) t st"
| "run_handler cfg env (HandleGateway ft) t st =
     withTaskMiddleware cfg ft (executeGatewayTask cfg (te_rpc env) (te_now env) (te_gateway env)) t st"

definition builtin_handlers :: "task_handler dispatcher" where
  "builtin_handlers =
     Register_task TypeSandboxExec HandleSandbox
       (fold (\<lambda>tt. Register_task tt (HandlePlugin tt)) pluginTypes
         (Register_task TypeHealthCheck HandleHealth
           (Register_task TypeExecCommand HandleExec
             (Register_task TypeCollectMetrics LegacyCollect []))))"

text \<open>The two callbacks the agent gives the plugin gateway.\<close>

fun on_call :: "plugin_call \<Rightarrow> task_handler dispatcher \<Rightarrow> task_handler dispatcher" where
  "on_call (Loaded name taskTypes) d =
     fold (\<lambda>tt. Register_task (FullTaskType name tt) (HandleGateway (FullTaskType name tt))) taskTypes d"
| "on_call (Unloaded name taskTypes) d = fold (\<lambda>tt. Unregister_task (FullTaskType name tt)) taskTypes d"

definition agent_dispatcher :: "plugin_call list \<Rightarrow> task_handler dispatcher" where
  "agent_dispatcher calls = fold on_call calls builtin_handlers"

definition run_task :: "Config \<Rightarrow> plugin_call list \<Rightarrow> task_env \<Rightarrow> task_reply handler" where
  "run_task cfg calls env t st =
     (case Dispatch (agent_dispatcher calls) t of Inl e \<Rightarrow> (Inl e, st) | Inr h \<Rightarrow> run_handler cfg env h t st)"

subsection \<open>receiver.go\<close>

record ExecuteCommandMsg =
  xm_TaskId :: string
  xm_Command :: string
  xm_Args :: "string list"
  xm_TimeoutSeconds :: int

record ExecuteScriptMsg =
  sm_TaskId :: string
  sm_Interpreter :: string
  sm_Script :: string

datatype PlatformMessage =
    MsgExecCommand ExecuteCommandMsg
  | MsgExecScript ExecuteScriptMsg
  | MsgCancelJob string
  | MsgConfigUpdate int string
  | MsgHealthCheck string
  | MsgTunnelData string string
  | MsgTunnelClose string string
  | MsgProxyCommand string string "string list" int
  | MsgAck
  | MsgOther

record 's Receiver =
  onCmd :: "(ExecuteCommandMsg \<Rightarrow> 's \<Rightarrow> err \<times> 's) option"
  onScript :: "(ExecuteScriptMsg \<Rightarrow> 's \<Rightarrow> err \<times> 's) option"
  onCancel :: "(string \<Rightarrow> 's \<Rightarrow> err \<times> 's) option"
  onConfig :: "(int \<Rightarrow> string \<Rightarrow> 's \<Rightarrow> err \<times> 's) option"
  onHealthCheck :: "(string \<Rightarrow> 's \<Rightarrow> err \<times> 's) option"
  onTunnelData :: "(string \<Rightarrow> string \<Rightarrow> 's \<Rightarrow> err \<times> 's) option"
  onTunnelClose :: "(string \<Rightarrow> string \<Rightarrow> 's \<Rightarrow> err \<times> 's) option"
  onProxyCmd :: "(string \<Rightarrow> string \<Rightarrow> string list \<Rightarrow> int \<Rightarrow> 's \<Rightarrow> err \<times> 's) option"

definition call_handler :: "('m \<Rightarrow> 's \<Rightarrow> err \<times> 's) option \<Rightarrow> 'm \<Rightarrow> 's \<Rightarrow> err \<times> 's" where
  "call_handler h m s = (case h of Some f \<Rightarrow> f m s | None \<Rightarrow> (None, s))"

definition Handle :: "'s Receiver \<Rightarrow> PlatformMessage option \<Rightarrow> 's \<Rightarrow> err \<times> 's" where
  "Handle r msg s =
     (case msg of
        None \<Rightarrow> (Some ''nil platform message'', s)
      | Some (MsgExecCommand m) \<Rightarrow> call_handler (onCmd r) m s
      | Some (MsgExecScript m) \<Rightarrow> call_handler (onScript r) m s
      | Some (MsgCancelJob taskID) \<Rightarrow> call_handler (onCancel r) taskID s
      | Some (MsgConfigUpdate v yaml) \<Rightarrow> call_handler (map_option case_prod (onConfig r)) (v, yaml) s
      | Some (MsgHealthCheck i) \<Rightarrow> call_handler (onHealthCheck r) i s
      | Some (MsgTunnelData i d) \<Rightarrow> call_handler (map_option case_prod (onTunnelData r)) (i, d) s
      | Some (MsgTunnelClose i w) \<Rightarrow> call_handler (map_option case_prod (onTunnelClose r)) (i, w) s
      | Some (MsgProxyCommand h c as n) \<Rightarrow>
          call_handler (map_option (\<lambda>f (h, c, as, n). f h c as n) (onProxyCmd r)) (h, c, as, n) s
      | Some MsgAck \<Rightarrow> (None, s)
      | Some MsgOther \<Rightarrow> (Some ''unknown platform message payload type: %T'', s))"

subsection \<open>agent.go: handlers of platform messages\<close>

definition wrap32 :: "int \<Rightarrow> int" where
  "wrap32 x = (x + 2 ^ 31) mod 2 ^ 32 - 2 ^ 31"

text \<open>A message is sent; whether the client is connected is up to the client.\<close>

definition send :: "sent \<Rightarrow> agent_run \<Rightarrow> agent_run" where
  "send m st = st\<lparr>ar_sent := ar_sent st @ [m]\<rparr>"

definition failed_result :: "string \<Rightarrow> sent" where
  "failed_result taskID = SentResult \<lparr>sr_TaskID = taskID, sr_ExitCode = - 1, sr_TimedOut = False, sr_Killed = False\<rparr>"

definition jailed_result :: "ExecResult \<Rightarrow> sent" where
  "jailed_result res =
     SentResult \<lparr>sr_TaskID = er_TaskID res, sr_ExitCode = wrap32 (er_ExitCode res), sr_TimedOut = er_TimedOut res, sr_Killed = er_Killed res\<rparr>"

definition command_request :: "ExecuteCommandMsg \<Rightarrow> ExecRequest" where
  "command_request cmd =
     \<lparr>rq_TaskID = xm_TaskId cmd, rq_Command = xm_Command cmd, rq_Args = xm_Args cmd, rq_Script = [], rq_Interpreter = [],
      rq_Env = [], rq_Timeout = 0, rq_SandboxCfg = None\<rparr>"

definition command_handler :: "Config \<Rightarrow> process \<Rightarrow> sys_outcome \<Rightarrow> ExecuteCommandMsg \<Rightarrow> agent_run \<Rightarrow> err \<times> agent_run" where
  "command_handler cfg pr sys cmd st =
     (if ar_shuttingDown st then (Some ''agent is shutting down'', st)
      else
        (case agent_sandbox cfg of
           Some sbx \<Rightarrow>
             (case run_jailed (ExecuteCommand sbx (command_request cmd) sys) st of
                (Inl e, st1) \<Rightarrow> (None, send (failed_result (xm_TaskId cmd)) st1)
              | (Inr (out, res), st1) \<Rightarrow> (None, send (jailed_result res) st1))
         | None \<Rightarrow>
             if \<not> sbx_AllowUnsandboxedFallback (cfg_Sandbox cfg) then (None, send (failed_result (xm_TaskId cmd)) st)
             else
               (let timeoutSec = (if xm_TimeoutSeconds cmd \<le> 0 then exec_TimeoutSeconds (cfg_Executor cfg) else xm_TimeoutSeconds cmd)
                in case run_local cfg \<lparr>xr_Command = xm_Command cmd, xr_Args = xm_Args cmd, xr_TimeoutSeconds = timeoutSec\<rparr> pr st of
                     (Inl e, st1) \<Rightarrow> (None, send (failed_result (xm_TaskId cmd)) st1)
                   | (Inr res, st1) \<Rightarrow>
                       (None, send (SentResult \<lparr>sr_TaskID = xm_TaskId cmd, sr_ExitCode = wrap32 (xs_ExitCode res),
                          sr_TimedOut = False, sr_Killed = False\<rparr>) st1))))"

definition script_request :: "ExecuteScriptMsg \<Rightarrow> ExecRequest" where
  "script_request script =
     \<lparr>rq_TaskID = sm_TaskId script, rq_Command = [], rq_Args = [], rq_Script = sm_Script script,
      rq_Interpreter = sm_Interpreter script, rq_Env = [], rq_Timeout = 0, rq_SandboxCfg = None\<rparr>"

definition script_handler :: "Config \<Rightarrow> string result \<Rightarrow> sys_outcome \<Rightarrow> ExecuteScriptMsg \<Rightarrow> agent_run \<Rightarrow> err \<times> agent_run" where
  "script_handler cfg tmp sys script st =
     (if ar_shuttingDown st then (Some ''agent is shutting down'', st)
      else
        (case agent_sandbox cfg of
           None \<Rightarrow> (None, send (failed_result (sm_TaskId script)) st)
         | Some sbx \<Rightarrow>
             (case run_jailed (ExecuteScript sbx (script_request script) tmp sys) st of
                (Inl e, st1) \<Rightarrow> (None, send (failed_result (sm_TaskId script)) st1)
              | (Inr (out, res), st1) \<Rightarrow>
                  (None, send (jailed_result res) (fold (\<lambda>data. send (SentOutput (sm_TaskId script) ''stdout'' data)) out st1)))))"

definition cancel_handler :: "Config \<Rightarrow> string \<Rightarrow> agent_run \<Rightarrow> err \<times> agent_run" where
  "cancel_handler cfg taskID st =
     (case map_of (ar_active st) taskID of
        Some cancel \<Rightarrow>
          (None, Log cfg (task_event ''task.cancelled'' ''cancel'' ''success'' taskID [])
             (st\<lparr>ar_cancelled := ar_cancelled st @ [cancel]\<rparr>))
      | None \<Rightarrow> (None, st))"

text \<open>The platform's view of the agent: the tasks, and what a hot reload changes.\<close>

record platform_state =
  ps_run :: agent_run
  ps_reloader :: "Reloader ConfigReloader"
  ps_state :: agent_state
  ps_gateway :: TGateway

definition config_update_handler ::
    "Config \<Rightarrow> factories \<Rightarrow> (string \<Rightarrow> Config result) \<Rightarrow> int \<Rightarrow> string \<Rightarrow> platform_state \<Rightarrow> err \<times> platform_state" where
  "config_update_handler cfg reg parse version yaml ps =
     (case cr_Apply (agent_ops reg) parse yaml (ps_reloader ps) (ps_state ps) of
        (e, r', s') \<Rightarrow>
          (let ps1 = ps\<lparr>ps_reloader := r', ps_state := s'\<rparr>; taskID = ''config-update-'' @ itoa version
           in case e of
                Some m \<Rightarrow>
                  (None, ps1\<lparr>ps_run := send (failed_result taskID)
                     (Log cfg \<lparr>ae_EventType = ''config.rejected'', ae_Component = ''agent'', ae_Action = ''hot_reload'',
                        ae_Status = ''failure'', ae_TaskID = [], ae_Error = m\<rparr> (ps_run ps1))\<rparr>)
              | None \<Rightarrow>
                  (None, ps1\<lparr>ps_run := send (SentResult \<lparr>sr_TaskID = taskID, sr_ExitCode = 0, sr_TimedOut = False, sr_Killed = False\<rparr>)
                     (Log cfg \<lparr>ae_EventType = ''config.reloaded'', ae_Component = ''agent'', ae_Action = ''hot_reload'',
                        ae_Status = ''success'', ae_TaskID = [], ae_Error = []\<rparr> (ps_run ps1))\<rparr>)))"

text \<open>What the host answers to one message.\<close>

record msg_env =
  me_process :: process
  me_sys :: sys_outcome
  me_tmp :: "string result"
  me_reg :: factories
  me_parse :: "string \<Rightarrow> Config result"
  me_checker :: err
  me_now :: time
  me_write_err :: err
  me_ssh :: ssh_env
  me_ssh_run :: "ssh_conn \<Rightarrow> string \<Rightarrow> duration \<Rightarrow> ssh_run \<times> string \<times> string"
  me_send_err :: err

definition on_run :: "(agent_run \<Rightarrow> err \<times> agent_run) \<Rightarrow> platform_state \<Rightarrow> err \<times> platform_state" where
  "on_run f ps = (case f (ps_run ps) of (e, st) \<Rightarrow> (e, ps\<lparr>ps_run := st\<rparr>))"

text \<open>The checker executes a health check by itself; of its handler the guards are kept.\<close>

definition health_request_handler :: "Config \<Rightarrow> err \<Rightarrow> string \<Rightarrow> agent_run \<Rightarrow> err \<times> agent_run" where
  "health_request_handler cfg checker requestID st =
     (if ar_shuttingDown st then (Some ''agent is shutting down'', st)
      else if \<not> chk_Enabled (cfg_Checker cfg) then (None, st)
      else
        (let ev = (\<lambda>t. \<lparr>ae_EventType = t, ae_Component = ''checker'', ae_Action = ''health_check'', ae_Status = ''success'',
               ae_TaskID = requestID, ae_Error = []\<rparr>)
         in (checker, Log cfg (ev ''health_check.completed'') (Log cfg (ev ''health_check.started'') st))))"

text \<open>The handlers of a gateway; the error of closing a connection is left out.\<close>

definition gateway_event :: "string \<Rightarrow> string \<Rightarrow> string \<Rightarrow> string \<Rightarrow> AuditEvent" where
  "gateway_event eventType action status i =
     \<lparr>ae_EventType = eventType, ae_Component = ''gateway'', ae_Action = action, ae_Status = status, ae_TaskID = i, ae_Error = []\<rparr>"

definition tunnel_data_handler :: "msg_env \<Rightarrow> string \<Rightarrow> string \<Rightarrow> platform_state \<Rightarrow> err \<times> platform_state" where
  "tunnel_data_handler env tunnelID data ps =
     (case HandleTunnelData (me_now env) (me_write_err env) tunnelID data (ps_gateway ps) of (e, g) \<Rightarrow> (e, ps\<lparr>ps_gateway := g\<rparr>))"

definition tunnel_close_handler :: "Config \<Rightarrow> string \<Rightarrow> string \<Rightarrow> platform_state \<Rightarrow> err \<times> platform_state" where
  "tunnel_close_handler cfg tunnelID reason ps =
     (None, ps\<lparr>ps_run := Log cfg (gateway_event ''gateway.tunnel.close'' ''tunnel_close'' ''success'' tunnelID) (ps_run ps),
                ps_gateway := HandleTunnelClose tunnelID reason (ps_gateway ps)\<rparr>)"

definition proxy_command_handler :: "Config \<Rightarrow> msg_env \<Rightarrow> string \<Rightarrow> string \<Rightarrow> string list \<Rightarrow> int \<Rightarrow> platform_state \<Rightarrow> err \<times> platform_state" where
  "proxy_command_handler cfg env hostID command args timeoutSec ps =
     (case HandleProxyCommand (me_ssh env) (me_ssh_run env) (me_send_err env) hostID command args timeoutSec (ps_gateway ps) of
        (started, e, g) \<Rightarrow>
          (e, ps\<lparr>ps_run := Log cfg (gateway_event ''gateway.proxy.exec'' ''proxy_command'' ''started'' hostID) (ps_run ps), ps_gateway := g\<rparr>))"

definition agent_receiver :: "Config \<Rightarrow> msg_env \<Rightarrow> platform_state Receiver" where
  "agent_receiver cfg env =
     (let gw = gw_Enabled (cfg_Gateway cfg) in
      \<lparr>onCmd = Some (\<lambda>m. on_run (command_handler cfg (me_process env) (me_sys env) m)),
       onScript = Some (\<lambda>m. on_run (script_handler cfg (me_tmp env) (me_sys env) m)),
       onCancel = Some (\<lambda>i. on_run (cancel_handler cfg i)),
       onConfig = Some (config_update_handler cfg (me_reg env) (me_parse env)),
       onHealthCheck = Some (\<lambda>i. on_run (health_request_handler cfg (me_checker env) i)),
       onTunnelData = (if gw then Some (tunnel_data_handler env) else None),
       onTunnelClose = (if gw then Some (tunnel_close_handler cfg) else None),
       onProxyCmd = (if gw then Some (proxy_command_handler cfg env) else None)\<rparr>)"

subsection \<open>What may be started\<close>

definition local_ok :: "Config \<Rightarrow> exec_call \<Rightarrow> bool" where
  "local_ok cfg call \<longleftrightarrow>
     xc_name call \<in> TrimSpace ` set (if elems (exec_AllowedCommands (cfg_Executor cfg)) = [] then DefaultAllowedCommands
                                      else elems (exec_AllowedCommands (cfg_Executor cfg))) - {[]}
     \<and> list_all (\<lambda>a. CHR 0x00 \<notin> set a \<and> length a \<le> 4096) (xc_args call)"

definition jail_ok :: "SbxConfig \<Rightarrow> invocation \<Rightarrow> bool" where
  "jail_ok sbx iv \<longleftrightarrow> iv_path iv = sc_NsjailPath sbx
     \<and> (\<exists>req. ValidateCommand (sc_Policy sbx) (rq_Command req) (rq_Args req) = None
          \<and> iv_args iv = (case CommandArgs (buildNsjailConfig sbx req) (rq_TaskID req) (rq_Command req) (rq_Args req) of
               None \<Rightarrow> [] | Some a \<Rightarrow> a)
        \<or> ValidateScript (sc_Policy sbx) (rq_Interpreter req) (rq_Script req) = None
          \<and> (\<exists>path. ScriptArgs (buildNsjailConfig sbx req) (rq_TaskID req) (rq_Interpreter req) path = Inr (iv_args iv)))"

fun launch_ok :: "Config \<Rightarrow> launched \<Rightarrow> bool" where
  "launch_ok cfg (LocalRun call) = local_ok cfg call"
| "launch_ok cfg (JailRun iv) = (\<exists>sbx. agent_sandbox cfg = Some sbx \<and> jail_ok sbx iv)"

lemma Execute_local_ok:
  assumes "Execute (agent_executor cfg) req pr = (Some call, r)"
  shows "local_ok cfg call"
proof -
  let ?cmds = "elems (exec_AllowedCommands (cfg_Executor cfg))"
  have "map_of (ex_allowed (agent_executor cfg)) c \<noteq> None \<longleftrightarrow>
      c \<in> TrimSpace ` set (if ?cmds = [] then DefaultAllowedCommands else ?cmds) - {[]}" for c
    unfolding whitelist_keys [symmetric] by (simp add: agent_executor_def New_executor_def map_of_eq_None_iff)
  then show ?thesis
    using assms validateArgs_None [of "xr_Args req"]
    by (cases "validateArgs (xr_Args req)") (auto simp: Execute_def local_ok_def Let_def maxArgLength_def split: if_splits)
qed

lemma sbx_run_iv: "sbx_run sbx req ns args sys = Inr (iv, out, res) \<Longrightarrow> iv_path iv = sc_NsjailPath sbx \<and> iv_args iv = args \<and> er_TaskID res = rq_TaskID req"
  by (auto simp: sbx_run_def Let_def split: option.splits if_splits)

lemma ExecuteCommand_jail_ok: "ExecuteCommand sbx req sys = Inr (iv, out, res) \<Longrightarrow> jail_ok sbx iv"
  by (auto simp: ExecuteCommand_def jail_ok_def Let_def dest!: sbx_run_iv split: option.splits)

lemma ExecuteScript_jail_ok: "ExecuteScript sbx req tmp sys = Inr (iv, out, res) \<Longrightarrow> jail_ok sbx iv"
  by (auto simp: ExecuteScript_def jail_ok_def Let_def dest!: sbx_run_iv split: option.splits sum.splits)

text \<open>How one step extends the list of what was started.\<close>

definition extends :: "(launched \<Rightarrow> bool) \<Rightarrow> agent_run \<Rightarrow> agent_run \<Rightarrow> bool" where
  "extends P st st' \<longleftrightarrow> ar_shuttingDown st' = ar_shuttingDown st
     \<and> (\<exists>ls. ar_launched st' = ar_launched st @ ls \<and> list_all P ls \<and> (ar_shuttingDown st \<longrightarrow> ls = []))"

lemma extends_refl [simp]: "ar_launched st' = ar_launched st \<Longrightarrow> ar_shuttingDown st' = ar_shuttingDown st \<Longrightarrow> extends P st st'"
  by (simp add: extends_def)

lemma extends_trans: "extends P a b \<Longrightarrow> extends P b c \<Longrightarrow> extends P a c"
  by (fastforce simp: extends_def)

lemma Log_sel [simp]:
  "ar_launched (Log cfg ev st) = ar_launched st" "ar_shuttingDown (Log cfg ev st) = ar_shuttingDown st"
  "ar_active (Log cfg ev st) = ar_active st" "ar_next (Log cfg ev st) = ar_next st" "ar_sent (Log cfg ev st) = ar_sent st"
  "ar_TasksRunning (Log cfg ev st) = ar_TasksRunning st"
  by (simp_all add: Log_def)

lemma send_sel [simp]:
  "ar_launched (send m st) = ar_launched st" "ar_shuttingDown (send m st) = ar_shuttingDown st" "ar_sent (send m st) = ar_sent st @ [m]"
  "ar_active (send m st) = ar_active st"
  by (simp_all add: send_def)

lemma fold_send_sel [simp]:
  "ar_launched (fold (\<lambda>d. send (f d)) ds st) = ar_launched st" "ar_shuttingDown (fold (\<lambda>d. send (f d)) ds st) = ar_shuttingDown st"
  "ar_sent (fold (\<lambda>d. send (f d)) ds st) = ar_sent st @ map f ds"
  by (induction ds arbitrary: st) simp_all

lemma run_local_extends:
  assumes "\<not> ar_shuttingDown st" "\<And>call. local_ok cfg call \<Longrightarrow> P (LocalRun call)"
  shows "extends P st (snd (run_local cfg req pr st))"
  using assms Execute_local_ok [of cfg req pr] by (auto simp: run_local_def extends_def split: option.splits prod.splits)

lemma run_jailed_extends:
  assumes "\<not> ar_shuttingDown st" "\<And>iv out res. outcome = Inr (iv, out, res) \<Longrightarrow> P (JailRun iv)"
  shows "extends P st (snd (run_jailed outcome st))"
  using assms by (auto simp: run_jailed_def extends_def split: sum.splits)

lemma while_active_extends:
  assumes "\<And>st1. \<not> ar_shuttingDown st1 \<Longrightarrow> extends P st1 (snd (body st1))"
  shows "extends P st (snd (while_active taskID body st))"
proof (cases "ar_shuttingDown st")
  case False
  let ?st = "st\<lparr>ar_active := map_put taskID (ar_next st) (ar_active st), ar_next := ar_next st + 1\<rparr>"
  have "extends P ?st (snd (body ?st))" using assms [of ?st] False by simp
  with False show ?thesis by (simp add: while_active_def Let_def case_prod_beta extends_def)
qed (simp add: while_active_def)

lemma middleware_extends:
  assumes "\<And>st1. \<not> ar_shuttingDown st1 \<Longrightarrow> extends P st1 (snd (handler t st1))"
  shows "extends P st (snd (withTaskMiddleware cfg tt handler t st))"
proof (cases "ar_shuttingDown st")
  case False
  let ?st1 = "Log cfg (task_event ''task.started'' tt ''success'' (at_TaskID t) []) st"
  let ?st = "?st1\<lparr>ar_TasksRunning := ar_TasksRunning ?st1 + 1\<rparr>"
  have "extends P ?st (snd (handler t ?st))" using assms [of ?st] False by simp
  with False show ?thesis
    by (cases "handler t ?st") (auto simp: withTaskMiddleware_def Let_def extends_def split: sum.splits)
qed (simp add: withTaskMiddleware_def)

lemma run_task_extends: "extends (launch_ok cfg) st (snd (run_task cfg calls env t st))"
proof -
  have exec: "extends (launch_ok cfg) st (snd (exec_command_handler cfg (te_process env) t st))" for st
    unfolding exec_command_handler_def
    by (rule while_active_extends) (auto simp: run_local_extends case_prod_beta split: sum.splits)
  have sbx: "extends (launch_ok cfg) st (snd (sandbox_exec_handler cfg (te_sys env) t st))" for st
  proof (cases "agent_sandbox cfg")
    case (Some s)
    have "extends (launch_ok cfg) st1 (snd (run_jailed (ExecuteCommand s req (te_sys env)) st1))" if "\<not> ar_shuttingDown st1" for st1 req
      using that ExecuteCommand_jail_ok Some by (intro run_jailed_extends) auto
    with Some show ?thesis
      by (auto simp: sandbox_exec_handler_def case_prod_beta split: sum.splits intro!: while_active_extends)
  qed (simp add: sandbox_exec_handler_def)
  have "extends (launch_ok cfg) st (snd (run_handler cfg env h t st))" for h
    by (cases h) (auto simp: exec sbx health_check_handler_def executePluginTask_def executeGatewayTask_def Let_def
        split: option.splits intro!: middleware_extends)
  then show ?thesis by (auto simp: run_task_def split: sum.splits)
qed

lemma command_handler_extends:
  "extends (\<lambda>l. launch_ok cfg l \<and> (case l of LocalRun c \<Rightarrow> agent_sandbox cfg = None \<and> sbx_AllowUnsandboxedFallback (cfg_Sandbox cfg) | JailRun iv \<Rightarrow> True))
     st (snd (command_handler cfg pr sys cmd st))" (is "extends ?P _ _")
proof -
  consider "ar_shuttingDown st" | sbx where "\<not> ar_shuttingDown st" "agent_sandbox cfg = Some sbx"
    | "\<not> ar_shuttingDown st" "agent_sandbox cfg = None" "\<not> sbx_AllowUnsandboxedFallback (cfg_Sandbox cfg)"
    | "\<not> ar_shuttingDown st" "agent_sandbox cfg = None" "sbx_AllowUnsandboxedFallback (cfg_Sandbox cfg)"
    by (cases "agent_sandbox cfg") auto
  then show ?thesis
  proof cases
    case 2
    have "extends ?P st (snd (run_jailed (ExecuteCommand sbx (command_request cmd) sys) st))"
      using 2 ExecuteCommand_jail_ok by (intro run_jailed_extends) auto
    with 2 show ?thesis
      by (cases "run_jailed (ExecuteCommand sbx (command_request cmd) sys) st")
         (auto simp: command_handler_def extends_def split: sum.splits)
  next
    case 4
    have "extends ?P st (snd (run_local cfg req pr st))" for req
      using 4 by (intro run_local_extends) auto
    then show ?thesis using 4
      by (auto simp: command_handler_def extends_def Let_def split: sum.splits prod.splits)
         (metis snd_conv)+
  qed (simp_all add: command_handler_def)
qed

lemma script_handler_extends:
  assumes "\<And>iv. launch_ok cfg (JailRun iv) \<Longrightarrow> P (JailRun iv)"
  shows "extends P st (snd (script_handler cfg tmp sys script st))"
proof (cases "ar_shuttingDown st \<or> agent_sandbox cfg = None")
  case False
  then obtain sbx where sbx: "agent_sandbox cfg = Some sbx" by blast
  have "extends P st (snd (run_jailed (ExecuteScript sbx (script_request script) tmp sys) st))"
    using False sbx ExecuteScript_jail_ok assms by (intro run_jailed_extends) auto
  with False sbx show ?thesis
    by (cases "run_jailed (ExecuteScript sbx (script_request script) tmp sys) st")
       (auto simp: script_handler_def extends_def split: sum.splits)
qed (auto simp: script_handler_def)

text \<open>What a platform message may start: only with the sandbox off and the fallback on a local process.\<close>

definition platform_ok :: "Config \<Rightarrow> launched \<Rightarrow> bool" where
  "platform_ok cfg l \<longleftrightarrow> launch_ok cfg l
     \<and> (case l of
          LocalRun c \<Rightarrow> \<not> sbx_Enabled (cfg_Sandbox cfg) \<and> sbx_AllowUnsandboxedFallback (cfg_Sandbox cfg)
        | JailRun iv \<Rightarrow> True)"

lemma agent_sandbox_None: "agent_sandbox cfg = None \<longleftrightarrow> \<not> sbx_Enabled (cfg_Sandbox cfg)"
  by (simp add: agent_sandbox_def Let_def)

lemma extends_mono: "extends P st st' \<Longrightarrow> (\<And>l. P l \<Longrightarrow> Q l) \<Longrightarrow> extends Q st st'"
  unfolding extends_def by (metis list.pred_mono_strong)

lemma Handle_extends: "extends (platform_ok cfg) (ps_run ps) (ps_run (snd (Handle (agent_receiver cfg env) msg ps)))"
proof -
  have cmd: "extends (platform_ok cfg) st (snd (command_handler cfg pr sys cmd st))" for pr sys cmd st
    by (rule extends_mono [OF command_handler_extends]) (auto simp: platform_ok_def agent_sandbox_None split: launched.splits)
  have script: "extends (platform_ok cfg) st (snd (script_handler cfg tmp sys m st))" for tmp sys m st
    by (rule script_handler_extends) (simp add: platform_ok_def)
  have "extends (platform_ok cfg) st (snd (cancel_handler cfg i st))" for i st
    by (simp add: cancel_handler_def split: option.splits)
  moreover have "extends (platform_ok cfg) st (snd (health_request_handler cfg e i st))" for e i st
    by (simp add: health_request_handler_def Let_def)
  moreover have "extends (platform_ok cfg) (ps_run ps) (ps_run (snd (config_update_handler cfg reg parse v y ps)))" for reg parse v y
    by (simp add: config_update_handler_def Let_def split: prod.splits option.splits)
  moreover have "ps_run (snd (tunnel_data_handler env i d ps)) = ps_run ps" for i d
    by (simp add: tunnel_data_handler_def split: prod.splits)
  moreover have "extends (platform_ok cfg) (ps_run ps) (ps_run (snd (tunnel_close_handler cfg i r ps)))" for i r
    by (simp add: tunnel_close_handler_def)
  moreover have "extends (platform_ok cfg) (ps_run ps) (ps_run (snd (proxy_command_handler cfg env h c as n ps)))" for h c as n
    by (simp add: proxy_command_handler_def split: prod.splits)
  ultimately show ?thesis
    by (cases msg; cases "the msg") (simp_all add: Handle_def call_handler_def agent_receiver_def Let_def on_run_def case_prod_beta cmd script)
qed

subsection \<open>The agent as a machine\<close>

datatype agent_event =
    TaskEvent "plugin_call list" task_env AgentTask
  | MessageEvent msg_env "PlatformMessage option"

fun agent_step :: "Config \<Rightarrow> agent_event \<Rightarrow> platform_state \<Rightarrow> platform_state" where
  "agent_step cfg (TaskEvent calls env t) ps = ps\<lparr>ps_run := snd (run_task cfg calls env t (ps_run ps))\<rparr>"
| "agent_step cfg (MessageEvent env msg) ps = snd (Handle (agent_receiver cfg env) msg ps)"

lemma step_extends: "extends (launch_ok cfg) (ps_run ps) (ps_run (agent_step cfg e ps))"
proof (cases e)
  case (MessageEvent env msg)
  then show ?thesis by (auto simp: platform_ok_def intro: extends_mono [OF Handle_extends])
qed (simp add: run_task_extends)



definition stopping :: "launched list \<Rightarrow> platform_state \<Rightarrow> bool" where
  "stopping ls ps \<longleftrightarrow> ar_shuttingDown (ps_run ps) \<and> ar_launched (ps_run ps) = ls"


interpretation stopping: invariant_machine "agent_step cfg" "stopping ls" for cfg ls
proof
  fix s e assume "stopping ls s"
  then show "stopping ls (agent_step cfg e s)" using step_extends [of cfg s e] by (auto simp: stopping_def extends_def)
qed



definition idle_run :: agent_run where
  "idle_run = \<lparr>ar_shuttingDown = False, ar_active = [], ar_next = 0, ar_cancelled = [], ar_launched = [], ar_sent = [],
     ar_audit = [], ar_TasksRunning = 0, ar_TasksCompleted = 0, ar_TasksFailed = 0\<rparr>"

subsection \<open>What the agent promises\<close>



text \<open>once the agent shuts down it starts nothing more: no task and no platform message that comes after the
  flag is set starts a process.\<close>

theorem shutdown_starts_nothing:
  assumes "ar_shuttingDown (ps_run ps)"
  shows "ar_launched (ps_run (fold (agent_step cfg) es ps)) = ar_launched (ps_run ps)"
proof -
  have "stopping (ar_launched (ps_run ps)) ps" using assms by (simp add: stopping_def)
  from stopping.run_inv [OF this] show ?thesis by (simp add: stopping_def)
qed

definition answered :: "string \<Rightarrow> agent_run \<Rightarrow> err \<times> agent_run \<Rightarrow> string list \<Rightarrow> bool" where
  "answered taskID st res chunks \<longleftrightarrow> fst res = None
     \<and> (\<exists>r. ar_sent (snd res) = ar_sent st @ map (SentOutput taskID ''stdout'') chunks @ [SentResult r] \<and> sr_TaskID r = taskID)"

lemma answered_failed: "answered i st (None, send (failed_result i) st) []"
  by (simp add: answered_def failed_result_def)

lemma ExecuteCommand_TaskID:
  "ExecuteCommand sbx req sys = Inr (iv, out, res) \<Longrightarrow> er_TaskID res = rq_TaskID req"
  by (auto simp: ExecuteCommand_def Let_def dest!: sbx_run_iv split: option.splits)

lemma ExecuteScript_TaskID:
  "ExecuteScript sbx req tmp sys = Inr (iv, out, res) \<Longrightarrow> er_TaskID res = rq_TaskID req"
  by (auto simp: ExecuteScript_def Let_def dest!: sbx_run_iv split: option.splits sum.splits)

lemma command_answered:
  assumes "\<not> ar_shuttingDown st"
  shows "answered (xm_TaskId cmd) st (command_handler cfg pr sys cmd st) []"
proof (cases "agent_sandbox cfg")
  case None
  with assms show ?thesis
    by (auto simp: command_handler_def run_local_def answered_def failed_result_def Let_def split: prod.splits sum.splits option.splits)
next
  case (Some sbx)
  with assms ExecuteCommand_TaskID [of sbx "command_request cmd" sys] show ?thesis
    by (cases "ExecuteCommand sbx (command_request cmd) sys")
       (auto simp: command_handler_def run_jailed_def answered_def failed_result_def jailed_result_def command_request_def)
qed

lemma script_answered:
  assumes "\<not> ar_shuttingDown st"
  shows "\<exists>chunks. answered (sm_TaskId script) st (script_handler cfg tmp sys script st) chunks"
proof (cases "agent_sandbox cfg")
  case None
  with assms answered_failed show ?thesis by (auto simp: script_handler_def)
next
  case (Some sbx)
  show ?thesis
  proof (cases "ExecuteScript sbx (script_request script) tmp sys")
    case (Inl e)
    with Some assms answered_failed show ?thesis by (auto simp: script_handler_def run_jailed_def)
  next
    case (Inr x)
    obtain iv out res where x: "x = (iv, out, res)" by (cases x)
    with Inr ExecuteScript_TaskID [of sbx "script_request script"] have "er_TaskID res = sm_TaskId script" by (simp add: script_request_def)
    with Inr Some assms x show ?thesis
      by (intro exI [of _ out]) (simp add: script_handler_def run_jailed_def jailed_result_def answered_def)
  qed
qed

text \<open>Every command and every script of the platform is answered exactly once: while the agent is not shutting
  down, the handler sends for a command one result with its task ID and nothing else, and for a script its
  output followed by one such result.\<close>

theorem platform_work_answered:
  assumes "\<not> ar_shuttingDown st"
  shows "(\<exists>r. fst (command_handler cfg pr sys cmd st) = None
      \<and> ar_sent (snd (command_handler cfg pr sys cmd st)) = ar_sent st @ [SentResult r] \<and> sr_TaskID r = xm_TaskId cmd)
    \<and> (\<exists>r chunks. fst (script_handler cfg tmp sys script st) = None
      \<and> ar_sent (snd (script_handler cfg tmp sys script st)) =
          ar_sent st @ map (SentOutput (sm_TaskId script) ''stdout'') chunks @ [SentResult r] \<and> sr_TaskID r = sm_TaskId script)"
  using command_answered [OF assms, of cmd cfg pr sys] script_answered [OF assms, of script cfg tmp sys]
  unfolding answered_def by auto

subsection \<open>The dispatcher follows the plugins\<close>







subsection \<open>Widths\<close>


















subsection \<open>Examples\<close>

theorem agent_tunnels_unauthenticated_witness:
  "map_of (tg_tunnels (handleIncoming (lab_peer 7) (New_tgateway (tunnel_config (cfg_Gateway example_config))))) (''tunnel-'' @ hex_encode [7]) = Some 0"
proof -
  let ?g = "New_tgateway (tunnel_config (cfg_Gateway example_config))"
  have "tg_cfg ?g = tunnel_config (cfg_Gateway example_config)" "in_rand (lab_peer 7) = Inr [7]" "in_open_err (lab_peer 7) = None"
      "int (ActiveCount ?g) < tg_maxCount ?g"
    by (simp_all add: New_tgateway_def lab_peer_def ActiveCount_def tunnel_config_def example_config_def)
  from agent_tunnels_unauthenticated [OF this] show ?thesis by (simp add: New_tgateway_def)
qed

definition jail_config :: Config where
  "jail_config = example_config\<lparr>cfg_Sandbox := (cfg_Sandbox example_config)\<lparr>sbx_Enabled := True, sbx_NsjailPath := ''/usr/bin/nsjail''\<rparr>\<rparr>"

definition quiet_env :: msg_env where
  "quiet_env =
     \<lparr>me_process = \<lparr>pr_stdout = [], pr_stderr = [], pr_result = RunOK, pr_deadline = False, pr_millis = 0\<rparr>,
      me_sys = \<lparr>sys_ctx_err = None, sys_cgroup_err = None, sys_limits_err = None, sys_stdout = [], sys_stderr = [],
        sys_exit = ExitOK, sys_deadline = False\<rparr>,
      me_tmp = Inr ''/tmp/s'', me_reg = no_factories, me_parse = \<lambda>_. Inl ''bad'', me_checker = None, me_now = 0, me_write_err = None,
      me_ssh = lab_ssh, me_ssh_run = \<lambda>conn line t. (SshOK, [], []), me_send_err = None\<rparr>"

definition idle_agent :: platform_state where
  "idle_agent = \<lparr>ps_run = idle_run, ps_reloader = agent_reloader example_config, ps_state = example_state,
     ps_gateway = New_tgateway lab_config\<rparr>"

abbreviation uptime_msg :: ExecuteCommandMsg where
  "uptime_msg \<equiv> \<lparr>xm_TaskId = ''t1'', xm_Command = ''uptime'', xm_Args = [], xm_TimeoutSeconds = 0\<rparr>"


theorem shutdown_starts_nothing_witness:
  "ar_launched (ps_run (agent_step jail_config (MessageEvent quiet_env (Some (MsgExecCommand uptime_msg)))
     (idle_agent\<lparr>ps_run := idle_run\<lparr>ar_shuttingDown := True\<rparr>\<rparr>))) = []"
  using shutdown_starts_nothing [of "idle_agent\<lparr>ps_run := idle_run\<lparr>ar_shuttingDown := True\<rparr>\<rparr>" jail_config
      "[MessageEvent quiet_env (Some (MsgExecCommand uptime_msg))]"]
  by (simp add: idle_run_def)

theorem platform_work_answered_witness:
  "\<exists>r. ar_sent (snd (command_handler jail_config (me_process quiet_env) (me_sys quiet_env) uptime_msg idle_run)) = [SentResult r]
     \<and> sr_TaskID r = ''t1''"
  using platform_work_answered [of idle_run jail_config "me_process quiet_env" "me_sys quiet_env" uptime_msg
      "Inr ''/tmp/s''" "\<lparr>sm_TaskId = ''t2'', sm_Interpreter = ''bash'', sm_Script = ''echo hi''\<rparr>"]
  by (simp add: idle_run_def)


end
