(* ===== verification/Agent_Run.thy ===== *)
theory Agent_Run
imports Agent_Tasks Alerting Grpc_Client "HOL-Library.Multiset"
begin

text \<open>
  The run of the agent (\<open>internal/app/agent.go\<close>): the order in which its parts are started and stopped, the event
  loop that feeds the collected metrics to the alert rules and the platform, and the orderly shutdown as a
  machine of steps that run beside the tasks.
\<close>

subsection \<open>agent.go: the parts and their order\<close>

datatype part = RuntimePart | PluginsPart | PipelinePart | PlatformPart | TunnelsPart | DiscoveryPart | HubPart | LeafPart | ServerPart

record agent_parts =
  has_pluginGateway :: bool
  has_scheduler :: bool
  has_gateway :: bool
  has_discovery :: bool
  has_hub :: bool
  has_leaf :: bool

datatype life_event = Began part | Ended part | Audited string string string string

text \<open>What is started, in order, and the error that ends it; \<open>fails\<close> says which part cannot be started.\<close>

definition startSubsystems :: "agent_parts \<Rightarrow> (part \<Rightarrow> err) \<Rightarrow> life_event list \<times> err" where
  "startSubsystems ap fails =
     (case fails RuntimePart of
        Some e \<Rightarrow> ([], Some ''start plugin runtime: %w'')
      | None \<Rightarrow>
         (let ev1 = [Began RuntimePart, Audited ''plugin.started'' ''pluginruntime'' ''start'' ''success'']
          in case (if has_pluginGateway ap then fails PluginsPart else None) of
               Some e \<Rightarrow> (ev1, Some ''start plugin gateway: %w'')
             | None \<Rightarrow>
                (let ev2 = ev1 @ (if has_pluginGateway ap then [Began PluginsPart] else []) @ (if has_scheduler ap then [Began PipelinePart] else [])
                 in case fails PlatformPart of
                      Some e \<Rightarrow> (ev2, Some ''start grpc client: %w'')
                    | None \<Rightarrow>
                       (let ev3 = ev2 @ [Began PlatformPart]
                        in case (if has_gateway ap then fails TunnelsPart else None) of
                             Some e \<Rightarrow> (ev3, Some ''start gateway: %w'')
                           | None \<Rightarrow>
                               (ev3 @ (if has_gateway ap then [Began TunnelsPart, Audited ''gateway.started'' ''gateway'' ''start'' ''success''] else [])
                                  @ (if has_discovery ap then [Began DiscoveryPart] else [])
                                  @ (if has_hub ap then [Began HubPart] else [])
                                  @ (if has_leaf ap then [Began LeafPart] else [])
                                  @ [Began ServerPart], None)))))"

text \<open>\<open>shutdown\<close> after the wait for the tasks; an error of a part is only logged.\<close>

definition shutdown :: "agent_parts \<Rightarrow> life_event list" where
  "shutdown ap =
     [Audited ''agent.shutting_down'' ''agent'' ''shutdown'' ''success'']
     @ (if has_scheduler ap then [Ended PipelinePart] else [])
     @ [Ended PlatformPart, Ended RuntimePart, Audited ''plugin.stopped'' ''pluginruntime'' ''stop'' ''success'']
     @ (if has_pluginGateway ap then [Ended PluginsPart] else [])
     @ (if has_gateway ap then [Ended TunnelsPart] else [])
     @ (if has_hub ap then [Ended HubPart] else [])
     @ (if has_leaf ap then [Ended LeafPart] else [])
     @ [Ended ServerPart, Audited ''agent.stopped'' ''agent'' ''stop'' ''success'']"

definition shutdown_timeout_of :: "Config \<Rightarrow> duration" where
  "shutdown_timeout_of cfg =
     (let timeout = wrap64 (agent_ShutdownTimeoutSeconds (cfg_Agent cfg) * Second) in if timeout \<le> 0 then 30 * Second else timeout)"

definition Run_agent :: "agent_parts \<Rightarrow> (part \<Rightarrow> err) \<Rightarrow> life_event list \<times> err" where
  "Run_agent ap fails =
     (case startSubsystems ap fails of
        (ev, Some e) \<Rightarrow> (ev, Some e)
      | (ev, None) \<Rightarrow> (ev @ [Audited ''agent.started'' ''agent'' ''start'' ''success''] @ shutdown ap, None))"

lemma started_parts:
  assumes "startSubsystems ap fails = (a, None)"
  shows "a = [Began RuntimePart, Audited ''plugin.started'' ''pluginruntime'' ''start'' ''success'']
    @ (if has_pluginGateway ap then [Began PluginsPart] else []) @ (if has_scheduler ap then [Began PipelinePart] else []) @ [Began PlatformPart]
    @ (if has_gateway ap then [Began TunnelsPart, Audited ''gateway.started'' ''gateway'' ''start'' ''success''] else [])
    @ (if has_discovery ap then [Began DiscoveryPart] else []) @ (if has_hub ap then [Began HubPart] else [])
    @ (if has_leaf ap then [Began LeafPart] else []) @ [Began ServerPart]"
  using assms
  by (cases "fails RuntimePart"; cases "if has_pluginGateway ap then fails PluginsPart else None"; cases "fails PlatformPart";
      cases "if has_gateway ap then fails TunnelsPart else None") (simp_all add: startSubsystems_def Let_def)

text \<open>An agent that has run stops what it started: when \<open>Run\<close> returns without an error, every part that was
  started, the discovery apart, was stopped after it, exactly once and with nothing else.\<close>

theorem run_stops_parts:
  assumes "Run_agent ap fails = (ev, None)"
  shows "\<exists>a b. ev = a @ b \<and> (\<forall>p. Ended p \<notin> set a \<and> Began p \<notin> set b \<and> count_list a (Began p) \<le> 1
    \<and> count_list b (Ended p) = (if p = DiscoveryPart then 0 else count_list a (Began p)))"
proof -
  obtain a where a: "startSubsystems ap fails = (a, None)" using assms by (auto simp: Run_agent_def split: prod.splits option.splits)
  let ?b = "Audited ''agent.started'' ''agent'' ''start'' ''success'' # shutdown ap"
  have "ev = a @ ?b" using assms a by (simp add: Run_agent_def)
  moreover have "Ended p \<notin> set a \<and> Began p \<notin> set ?b \<and> count_list a (Began p) \<le> 1
      \<and> count_list ?b (Ended p) = (if p = DiscoveryPart then 0 else count_list a (Began p))" for p
    unfolding started_parts [OF a] shutdown_def by (cases p) simp_all
  ultimately show ?thesis by blast
qed

text \<open>A start that fails leaves the earlier parts running: \<open>Run\<close> then returns the error and stops nothing, and
  unless the plugin runtime itself failed, that one was started.\<close>

theorem failed_start_stops_nothing:
  assumes "Run_agent ap fails = (ev, Some e)"
  shows "(\<forall>p. Ended p \<notin> set ev) \<and> (Began RuntimePart \<in> set ev \<or> fails RuntimePart \<noteq> None)"
  using assms by (auto simp: Run_agent_def startSubsystems_def Let_def split: option.splits if_splits prod.splits)

subsection \<open>agent.go: the event loop\<close>






definition held :: "Client \<Rightarrow> Metric multiset" where
  "held c = mset (concat (cl_sent c)) + mset (mc_contents (cl_cache c))"




lemma lost_held [simp]: "cl_cache (messageLoop_end c) = cl_cache c" "held (messageLoop_end c) = held c"
  by (simp_all add: messageLoop_end_def closeConn_def held_def split: option.splits)




subsection \<open>Shutdown and the tasks that run beside it\<close>

text \<open>
  A task handler checks the flag and registers itself while it holds \<open>taskMu\<close>, runs, and removes the entry of its
  task ID; the shutdown sets the flag, without that mutex, and then waits until a tick finds no entry, or its
  time is over. An invocation of a handler is a number; the entry of a task ID is the invocation that stored it.
\<close>

datatype task_pc = Checked | Running | Finished

datatype waiter = NotStarted | Waiting | Drained | TimedOut

record task_machine =
  tm_shuttingDown :: bool
  tm_active :: "string \<rightharpoonup> nat"
  tm_task :: "nat \<rightharpoonup> string \<times> task_pc"
  tm_cancelled :: "nat set"
  tm_waiter :: waiter

definition tm_init :: task_machine where
  "tm_init = \<lparr>tm_shuttingDown = False, tm_active = Map.empty, tm_task = Map.empty, tm_cancelled = {}, tm_waiter = NotStarted\<rparr>"

inductive tm_step :: "task_machine \<Rightarrow> task_machine \<Rightarrow> bool" where
  task_check: "\<not> tm_shuttingDown s \<Longrightarrow> tm_task s n = None \<Longrightarrow> (\<forall>m i. tm_task s m \<noteq> Some (i, Checked)) \<Longrightarrow>
     tm_step s (s\<lparr>tm_task := (tm_task s)(n \<mapsto> (taskID, Checked))\<rparr>)"
| task_store: "tm_task s n = Some (taskID, Checked) \<Longrightarrow>
     tm_step s (s\<lparr>tm_active := (tm_active s)(taskID \<mapsto> n), tm_task := (tm_task s)(n \<mapsto> (taskID, Running))\<rparr>)"
| task_end: "tm_task s n = Some (taskID, Running) \<Longrightarrow>
     tm_step s (s\<lparr>tm_active := (tm_active s)(taskID := None), tm_task := (tm_task s)(n \<mapsto> (taskID, Finished))\<rparr>)"
| task_cancel: "tm_active s taskID = Some n \<Longrightarrow> tm_step s (s\<lparr>tm_cancelled := insert n (tm_cancelled s)\<rparr>)"
| shutdown_begin: "tm_waiter s = NotStarted \<Longrightarrow> tm_step s (s\<lparr>tm_shuttingDown := True, tm_waiter := Waiting\<rparr>)"
| shutdown_tick: "tm_waiter s = Waiting \<Longrightarrow> tm_active s = Map.empty \<Longrightarrow> tm_step s (s\<lparr>tm_waiter := Drained\<rparr>)"
| shutdown_timeout: "tm_waiter s = Waiting \<Longrightarrow>
     tm_step s (s\<lparr>tm_cancelled := tm_cancelled s \<union> ran (tm_active s), tm_waiter := TimedOut\<rparr>)"

inductive_cases tm_stepE: "tm_step s s'"

inductive tm_reachable :: "task_machine \<Rightarrow> bool" where
  tm_start: "tm_reachable tm_init"
| tm_next: "tm_reachable s \<Longrightarrow> tm_step s s' \<Longrightarrow> tm_reachable s'"

definition distinct_ids :: "task_machine \<Rightarrow> bool" where
  "distinct_ids s \<longleftrightarrow> (\<forall>n m i p q. tm_task s n = Some (i, p) \<longrightarrow> tm_task s m = Some (i, q) \<longrightarrow> n = m)"

definition tracked :: "task_machine \<Rightarrow> bool" where
  "tracked s \<longleftrightarrow> (\<forall>n i. tm_task s n = Some (i, Running) \<longrightarrow> tm_active s i = Some n)"

lemma task_id_kept: "tm_step s s' \<Longrightarrow> tm_task s n = Some (i, p) \<Longrightarrow> \<exists>q. tm_task s' n = Some (i, q)"
  by (erule tm_stepE) auto

lemma distinct_ids_back:
  assumes "tm_step s s'" "distinct_ids s'"
  shows "distinct_ids s"
  unfolding distinct_ids_def
proof (intro allI impI)
  fix n m i p q assume "tm_task s n = Some (i, p)" "tm_task s m = Some (i, q)"
  then obtain p' q' where "tm_task s' n = Some (i, p')" "tm_task s' m = Some (i, q')"
    using task_id_kept [OF assms(1)] by blast
  with assms(2) show "n = m" unfolding distinct_ids_def by blast
qed

lemma tracked_step:
  assumes "tm_step s s'" "distinct_ids s" "tracked s"
  shows "tracked s'"
proof -
  have tr: "tm_active s i = Some n" if "tm_task s n = Some (i, Running)" for n i
    using assms(3) that unfolding tracked_def by blast
  have same: "m = n" if "tm_task s n = Some (i, p)" "tm_task s m = Some (i, q)" for n m i p q
    using assms(2) that unfolding distinct_ids_def by blast
  have "tm_active s' i = Some n" if "tm_task s' n = Some (i, Running)" for n i
    using assms(1)
  proof cases
    case (task_store m taskID)
    then show ?thesis using that tr [of n i] same [of m taskID Checked n Running] by (cases "n = m") auto
  next
    case (task_end m taskID)
    then show ?thesis using that tr [of n i] same [of m taskID Running n Running] by (cases "n = m") auto
  qed (use that tr [of n i] in \<open>auto split: if_splits\<close>)
  then show ?thesis unfolding tracked_def by blast
qed

lemma reachable_tracked: "tm_reachable s \<Longrightarrow> distinct_ids s \<Longrightarrow> tracked s"
proof (induction rule: tm_reachable.induct)
  case (tm_next s s')
  then show ?case using distinct_ids_back tracked_step by blast
qed (simp add: tracked_def tm_init_def)

text \<open>C15: with different task IDs the shutdown waits: when a tick ends the wait, no task that was registered
  is still running, and when the time is over instead, every running task is cancelled.\<close>

theorem shutdown_waits_for_tasks:
  assumes "tm_reachable s" "tm_step s s'" "distinct_ids s" "tm_waiter s = Waiting"
    and "tm_task s n = Some (taskID, Running)"
  shows "tm_waiter s' \<noteq> Drained \<and> (tm_waiter s' = TimedOut \<longrightarrow> n \<in> tm_cancelled s')"
proof -
  have a: "tm_active s taskID = Some n"
    using reachable_tracked [OF assms(1,3)] assms(5) by (simp add: tracked_def)
  from assms(2) show ?thesis by cases (use a assms(4) in \<open>auto simp: ran_def\<close>)
qed

text \<open>With the same task ID twice the shutdown does not wait: there is a run in which two tasks share a
  task ID (as all tasks without one do), the first to end removes the entry of the other, and the
  wait ends while the other runs, which a cancel message can no longer reach either.\<close>

theorem duplicate_task_ids_escape:
  "\<exists>s n. tm_reachable s \<and> tm_waiter s = Drained \<and> tm_task s n = Some ([], Running) \<and> n \<notin> tm_cancelled s
     \<and> tm_active s [] = None"
proof -
  let ?m = "\<lambda>sd act ts w. \<lparr>tm_shuttingDown = sd, tm_active = act, tm_task = ts, tm_cancelled = {}, tm_waiter = w\<rparr>"
  let ?two = "\<lambda>p q. [0 \<mapsto> ([], p), 1 \<mapsto> ([], q)] :: nat \<rightharpoonup> string \<times> task_pc"
  have "tm_reachable (?m False Map.empty [0 \<mapsto> ([], Checked)] NotStarted)"
    using tm_next [OF tm_start task_check [of tm_init 0 "[]"]] by (simp add: tm_init_def)
  from tm_next [OF this task_store [of _ 0 "[]"]]
  have "tm_reachable (?m False [[] \<mapsto> 0] [0 \<mapsto> ([], Running)] NotStarted)" by simp
  from tm_next [OF this task_check [of _ 1 "[]"]]
  have "tm_reachable (?m False [[] \<mapsto> 0] (?two Running Checked) NotStarted)" by simp
  from tm_next [OF this task_store [of _ 1 "[]"]]
  have "tm_reachable (?m False [[] \<mapsto> 1] (?two Running Running) NotStarted)" by simp
  from tm_next [OF this task_end [of _ 0 "[]"]]
  have "tm_reachable (?m False Map.empty (?two Finished Running) NotStarted)" by (simp add: fun_upd_twist)
  from tm_next [OF this shutdown_begin]
  have "tm_reachable (?m True Map.empty (?two Finished Running) Waiting)" by simp
  from tm_next [OF this shutdown_tick]
  have "tm_reachable (?m True Map.empty (?two Finished Running) Drained)" by simp
  then show ?thesis by (intro exI [of _ "?m True Map.empty (?two Finished Running) Drained"] exI [of _ 1]) simp
qed

subsection \<open>Examples\<close>

definition all_parts :: agent_parts where
  "all_parts = \<lparr>has_pluginGateway = True, has_scheduler = True, has_gateway = True, has_discovery = True, has_hub = True, has_leaf = True\<rparr>"

theorem run_stops_parts_witness:
  "\<exists>ev a b. Run_agent all_parts (\<lambda>_. None) = (ev, None) \<and> ev = a @ b \<and> count_list a (Began HubPart) = 1 \<and> count_list b (Ended HubPart) = 1"
proof -
  obtain ev where ev: "Run_agent all_parts (\<lambda>_. None) = (ev, None)" by (simp add: Run_agent_def startSubsystems_def Let_def)
  have "Began HubPart \<in> set ev" using ev by (auto simp: Run_agent_def startSubsystems_def all_parts_def Let_def)
  from run_stops_parts [OF ev] obtain a b where ab: "ev = a @ b" "Began HubPart \<notin> set b" "count_list a (Began HubPart) \<le> 1"
      "count_list b (Ended HubPart) = count_list a (Began HubPart)"
    by (elim exE conjE) (drule spec [of _ HubPart], auto)
  have "Began HubPart \<in> set a" using \<open>Began HubPart \<in> set ev\<close> ab by simp
  then have "count_list a (Began HubPart) = 1" using ab(3) count_list_0_iff [of a "Began HubPart"] by linarith
  with ab ev show ?thesis by auto
qed

theorem failed_start_stops_nothing_witness:
  "\<exists>ev e. Run_agent all_parts ((\<lambda>_. None)(TunnelsPart := Some ''in use'')) = (ev, Some e) \<and> Began RuntimePart \<in> set ev \<and> Ended RuntimePart \<notin> set ev"
proof -
  obtain ev e where ev: "Run_agent all_parts ((\<lambda>_. None)(TunnelsPart := Some ''in use'')) = (ev, Some e)"
    by (simp add: Run_agent_def startSubsystems_def all_parts_def Let_def)
  from failed_start_stops_nothing [OF this] ev show ?thesis by auto
qed


theorem shutdown_waits_for_tasks_witness:
  "\<exists>s s'. tm_reachable s \<and> tm_step s s' \<and> tm_task s 0 = Some (''t'', Running) \<and> tm_waiter s' = TimedOut \<and> 0 \<in> tm_cancelled s'"
proof -
  let ?m = "\<lambda>sd act ts c w. \<lparr>tm_shuttingDown = sd, tm_active = act, tm_task = ts, tm_cancelled = c, tm_waiter = w\<rparr>"
  have "tm_reachable (?m False Map.empty [0 \<mapsto> (''t'', Checked)] {} NotStarted)"
    using tm_next [OF tm_start task_check [of tm_init 0 "''t''"]] by (simp add: tm_init_def)
  from tm_next [OF this task_store [of _ 0 "''t''"]]
  have "tm_reachable (?m False [''t'' \<mapsto> 0] [0 \<mapsto> (''t'', Running)] {} NotStarted)" by simp
  from tm_next [OF this shutdown_begin]
  have r: "tm_reachable (?m True [''t'' \<mapsto> 0] [0 \<mapsto> (''t'', Running)] {} Waiting)" (is "tm_reachable ?s") by simp
  have st: "tm_step ?s (?m True [''t'' \<mapsto> 0] [0 \<mapsto> (''t'', Running)] {0} TimedOut)" (is "tm_step _ ?s'")
    using shutdown_timeout [of ?s] by simp
  have "distinct_ids ?s" by (simp add: distinct_ids_def)
  from shutdown_waits_for_tasks [OF r st this, of 0 "''t''"] r st show ?thesis
    by (intro exI [of _ ?s] exI [of _ ?s']) simp
qed

end
