(* ===== verification/Go_Text.thy ===== *)
theory Go_Text
imports Go_Values Go_Strconv
begin

text \<open>
  Text as the components read it: \<open>strings.Cut\<close>, \<open>Fields\<close>, \<open>ToUpper\<close> and \<open>Trim\<close>, the lines of a
  \<open>bufio.Scanner\<close>, \<open>strconv.Quote\<close>, octal and hexadecimal numbers of \<open>fmt\<close>, and \<open>encoding/json\<close>:
  the syntax of JSON texts, decoding into structs of a few fields and into \<open>any\<close>.
\<close>

subsection \<open>Strings\<close>

text \<open>\<open>strings.Cut\<close>; also \<open>strings.SplitN\<close> with a limit of two, which gives one part where this is None.\<close>

fun Cut :: "string \<Rightarrow> string \<Rightarrow> (string \<times> string) option" where
  "Cut [] sep = (if sep = [] then Some ([], []) else None)"
| "Cut (c # s) sep = (if HasPrefix (c # s) sep then Some ([], drop (length sep) (c # s))
                      else case Cut s sep of None \<Rightarrow> None | Some (a, b) \<Rightarrow> Some (c # a, b))"

text \<open>\<open>strings.Trim\<close> with a cutset of one byte.\<close>

definition Trim_char :: "char \<Rightarrow> string \<Rightarrow> string" where
  "Trim_char c s = rev (dropWhile (\<lambda>x. x = c) (rev (dropWhile (\<lambda>x. x = c) s)))"

definition to_upper_char :: "char \<Rightarrow> char" where
  "to_upper_char c = (let n = of_char c :: nat in if 97 \<le> n \<and> n \<le> 122 then char_of (n - 32) else c)"

text \<open>
  \<open>strings.ToUpper\<close> as far as it gives ASCII letters: the dotless i and the long s become I and S, the
  other runes outside ASCII are left alone.
\<close>

fun ToUpper :: "string \<Rightarrow> string" where
  "ToUpper (a # b # s) =
     (if a = CHR 0xC4 \<and> b = CHR 0xB1 then CHR ''I'' # ToUpper s
      else if a = CHR 0xC5 \<and> b = CHR 0xBF then CHR ''S'' # ToUpper s
      else to_upper_char a # ToUpper (b # s))"
| "ToUpper s = map to_upper_char s"

fun cut_space :: "string \<Rightarrow> string \<times> string" where
  "cut_space [] = ([], [])"
| "cut_space (c # s) = (if list_ex (HasPrefix (c # s)) space_runes then ([], c # s)
                        else case cut_space s of (w, r) \<Rightarrow> (c # w, r))"

lemma strip_length: "length (strip ps s) \<le> length s"
proof (induction ps s rule: strip.induct)
  case (1 ps s)
  show ?case
  proof (cases "List.find (\<lambda>p. p \<noteq> [] \<and> HasPrefix s p) ps")
    case (Some p)
    then show ?thesis using 1 [OF Some] by (simp add: strip.simps [of ps s])
  qed (simp add: strip.simps [of ps s])
qed

lemma cut_space_length: "length (snd (cut_space s)) \<le> length s"
  by (induction s) (auto split: prod.splits)

lemma fields_shrink: "TrimLeftSpace s = c # t \<Longrightarrow> cut_space t = (w, r) \<Longrightarrow> length r < length s"
  using strip_length [of space_runes s] cut_space_length [of t] by (simp add: TrimLeftSpace_def)

function strings_Fields :: "string \<Rightarrow> string list" where
  "strings_Fields s = (case TrimLeftSpace s of [] \<Rightarrow> [] | c # t \<Rightarrow> (case cut_space t of (w, r) \<Rightarrow> (c # w) # strings_Fields r))"
  by pat_completeness auto
termination by (relation "measure length") (auto intro: fields_shrink dest: sym)

declare strings_Fields.simps [simp del]

text \<open>
  The lines a \<open>bufio.Scanner\<close> delivers of a file with the given contents, and its error at the end:
  a line of the given size or more, 64 KiB if none is set, stops it, a line end may have a carriage return, and what was read before
  an error of the file is delivered first.
\<close>

definition drop_cr :: "string \<Rightarrow> string" where
  "drop_cr l = TrimSuffix l [CHR 0x0D]"

definition text_lines :: "string \<Rightarrow> string list" where
  "text_lines s = (let ls = split_on (CHR 0x0A) s in if last ls = [] then butlast ls else ls)"

definition Scan_max :: "nat \<Rightarrow> string \<times> err \<Rightarrow> string list \<times> err" where
  "Scan_max m f =
     (let ls = text_lines (fst f); ok = takeWhile (\<lambda>l. length l < m) ls
      in (map drop_cr ok, if length ok < length ls then Some ''bufio.Scanner: token too long'' else snd f))"

definition Scan :: "string \<times> err \<Rightarrow> string list \<times> err" where
  "Scan = Scan_max 65536"

subsection \<open>Formatting\<close>

definition hex_upper :: "nat \<Rightarrow> char" where
  "hex_upper n = (if n < 10 then char_of (48 + n) else char_of (55 + n))"

definition hex_lower :: "nat \<Rightarrow> char" where
  "hex_lower n = (if n < 10 then char_of (48 + n) else char_of (87 + n))"

text \<open>\<open>%04X\<close> for numbers below 65536.\<close>

definition fmt_04X :: "nat \<Rightarrow> string" where
  "fmt_04X n = map (\<lambda>k. hex_upper (n div 16 ^ k mod 16)) [3, 2, 1, 0]"

text \<open>\<open>%04o\<close> for numbers below 4096.\<close>

definition fmt_04o :: "nat \<Rightarrow> string" where
  "fmt_04o n = map (\<lambda>k. digit (n div 8 ^ k mod 8)) [3, 2, 1, 0]"

text \<open>\<open>strconv.Quote\<close>, the verb \<open>%q\<close>; bytes outside ASCII are left alone.\<close>

definition quote_char :: "char \<Rightarrow> string" where
  "quote_char c =
     (let n = of_char c :: nat; bs = [CHR 0x5C]
      in if c = CHR 0x22 \<or> c = CHR 0x5C then bs @ [c]
         else if 7 \<le> n \<and> n \<le> 13 then bs @ [''abtnvfr'' ! (n - 7)]
         else if n < 32 \<or> n = 127 then bs @ ''x'' @ [hex_lower (n div 16), hex_lower (n mod 16)]
         else [c])"

definition Quote :: "string \<Rightarrow> string" where
  "Quote s = [CHR 0x22] @ concat (map quote_char s) @ [CHR 0x22]"

subsection \<open>JSON texts\<close>

datatype json = JNull | JBool bool | JNum string | JStr string | JArr "json list" | JObj "(string \<times> json) list"

definition skip_ws :: "string \<Rightarrow> string" where
  "skip_ws s = dropWhile (\<lambda>c. c \<in> set [CHR 0x20, CHR 0x09, CHR 0x0A, CHR 0x0D]) s"

definition byte_in :: "nat \<Rightarrow> nat \<Rightarrow> char \<Rightarrow> bool" where
  "byte_in lo hi c = (lo \<le> of_char c \<and> of_char c \<le> hi)"

text \<open>The number of bytes of the rune a string starts with, 0 if its encoding is not valid UTF-8.\<close>

definition rune_len :: "string \<Rightarrow> nat" where
  "rune_len s =
     (let tails = (\<lambda>lo hi n. length s > n \<and> byte_in lo hi (s ! 1) \<and> list_all (byte_in 0x80 0xBF) (take (n - 1) (drop 2 s)));
          c = hd s
      in if s = [] then 0
         else if byte_in 0 0x7F c then 1
         else if byte_in 0xC2 0xDF c then (if tails 0x80 0xBF 1 then 2 else 0)
         else if byte_in 0xE0 0xEF c then
           (if tails (if c = CHR 0xE0 then 0xA0 else 0x80) (if c = CHR 0xED then 0x9F else 0xBF) 2 then 3 else 0)
         else if byte_in 0xF0 0xF4 c then
           (if tails (if c = CHR 0xF0 then 0x90 else 0x80) (if c = CHR 0xF4 then 0x8F else 0xBF) 3 then 4 else 0)
         else 0)"

definition utf8_encode :: "nat \<Rightarrow> string" where
  "utf8_encode n =
     (let cont = (\<lambda>k. char_of (0x80 + n div 64 ^ k mod 64))
      in if n < 0x80 then [char_of n]
         else if n < 0x800 then [char_of (0xC0 + n div 64), cont 0]
         else if n < 0x10000 then [char_of (0xE0 + n div 4096), cont 1, cont 0]
         else [char_of (0xF0 + n div 262144), cont 2, cont 1, cont 0])"

definition RuneError :: nat where "RuneError = 0xFFFD"

definition hex_val :: "char \<Rightarrow> nat option" where
  "hex_val c = (if byte_in 48 57 c then Some (of_char c - 48)
                else if byte_in 65 70 c then Some (of_char c - 55)
                else if byte_in 97 102 c then Some (of_char c - 87) else None)"

definition hex4 :: "string \<Rightarrow> nat option" where
  "hex4 s = (if length s < 4 \<or> list_ex (\<lambda>c. hex_val c = None) (take 4 s) then None
             else Some (fold (\<lambda>c n. n * 16 + the (hex_val c)) (take 4 s) 0))"

text \<open>
  The code point of an escape that follows \<open>\\u\<close>, and the bytes it takes: two escapes may form a
  surrogate pair, half a pair is the replacement rune.
\<close>

definition u_escape :: "string \<Rightarrow> (nat \<times> nat) option" where
  "u_escape s =
     (case hex4 s of
        None \<Rightarrow> None
      | Some n \<Rightarrow>
          if n < 0xD800 \<or> n \<ge> 0xE000 then Some (n, 4)
          else if n < 0xDC00 \<and> HasPrefix (drop 4 s) [CHR 0x5C, CHR ''u''] then
            (case hex4 (drop 6 s) of
               None \<Rightarrow> Some (RuneError, 4)
             | Some m \<Rightarrow> if 0xDC00 \<le> m \<and> m < 0xE000
                         then Some (0x10000 + (n - 0xD800) * 0x400 + (m - 0xDC00), 10) else Some (RuneError, 4))
          else Some (RuneError, 4))"

definition escapes :: "(char \<times> char) list" where
  "escapes = [(CHR 0x22, CHR 0x22), (CHR 0x5C, CHR 0x5C), (CHR ''/'', CHR ''/''), (CHR ''b'', CHR 0x08),
              (CHR ''f'', CHR 0x0C), (CHR ''n'', CHR 0x0A), (CHR ''r'', CHR 0x0D), (CHR ''t'', CHR 0x09)]"

definition before :: "'a list \<Rightarrow> ('a list \<times> string) option \<Rightarrow> ('a list \<times> string) option" where
  "before xs r = (case r of None \<Rightarrow> None | Some (ys, t) \<Rightarrow> Some (xs @ ys, t))"

text \<open>The rest of a string literal after its opening quote: its value and what follows it.\<close>

fun str_body :: "string \<Rightarrow> (string \<times> string) option" where
  "str_body [] = None"
| "str_body (c # s) =
     (if c = CHR 0x22 then Some ([], s)
      else if c = CHR 0x5C then
        (case s of
           [] \<Rightarrow> None
         | e # t \<Rightarrow>
             if e = CHR ''u'' then
               (case u_escape t of None \<Rightarrow> None | Some (n, k) \<Rightarrow> before (utf8_encode n) (str_body (drop k t)))
             else (case map_of escapes e of None \<Rightarrow> None | Some d \<Rightarrow> before [d] (str_body t)))
      else if byte_in 0 0x1F c then None
      else (let n = rune_len (c # s)
            in if n = 0 then before (utf8_encode RuneError) (str_body s)
               else before (take n (c # s)) (str_body (drop (n - 1) s))))"

definition num_part :: "string \<Rightarrow> (string \<times> string) option" where
  "num_part s = (let d = takeWhile is_digit s in if d = [] then None else Some (d, dropWhile is_digit s))"

definition num_frac :: "string \<Rightarrow> (string \<times> string) option" where
  "num_frac s = (if HasPrefix s ''.'' then before ''.'' (num_part (tl s)) else Some ([], s))"

definition num_exp :: "string \<Rightarrow> (string \<times> string) option" where
  "num_exp s =
     (if s \<noteq> [] \<and> hd s \<in> set ''eE'' then
        (let sign = take 1 (filter (\<lambda>c. c \<in> set ''+-'') (take 1 (tl s)))
         in before (hd s # sign) (num_part (drop (length sign) (tl s))))
      else Some ([], s))"

definition num_int :: "string \<Rightarrow> (string \<times> string) option" where
  "num_int s = (if HasPrefix s ''0'' then Some (''0'', tl s) else num_part s)"

text \<open>A number literal, kept as text.\<close>

definition num_literal :: "string \<Rightarrow> (string \<times> string) option" where
  "num_literal s =
     (let sign = (if HasPrefix s ''-'' then ''-'' else []); t = drop (length sign) s
      in case num_int t of
           None \<Rightarrow> None
         | Some (i, r) \<Rightarrow> (case num_frac r of None \<Rightarrow> None
                          | Some (f, r2) \<Rightarrow> before (sign @ i @ f) (num_exp r2)))"

text \<open>
  Values, the elements of an array and the members of an object; None is a syntax error. Arrays and
  objects nest at most 10000 deep. A value of a text of n bytes takes at most 2 n + 1 steps of fuel:
  each array or object takes a byte before its elements do, each further element a comma.
\<close>

definition jkeyword :: "string \<Rightarrow> (json \<times> string) option" where
  "jkeyword s = (if HasPrefix s ''null'' then Some (JNull, drop 4 s)
                 else if HasPrefix s ''true'' then Some (JBool True, drop 4 s)
                 else if HasPrefix s ''false'' then Some (JBool False, drop 5 s) else None)"

definition hd_is :: "char \<Rightarrow> string \<Rightarrow> bool" where
  "hd_is c s = (s \<noteq> [] \<and> hd s = c)"

fun jvalue :: "nat \<Rightarrow> nat \<Rightarrow> string \<Rightarrow> (json \<times> string) option"
  and jelems :: "nat \<Rightarrow> nat \<Rightarrow> string \<Rightarrow> (json list \<times> string) option"
  and jmembers :: "nat \<Rightarrow> nat \<Rightarrow> string \<Rightarrow> ((string \<times> json) list \<times> string) option" where
  "jvalue 0 d s = None"
| "jvalue (Suc f) d s =
     (let t = skip_ws s
      in if hd_is (CHR 0x22) t then (case str_body (tl t) of None \<Rightarrow> None | Some (a, r) \<Rightarrow> Some (JStr a, r))
         else if hd_is (CHR ''['') t then
           (if d \<ge> 10000 then None
            else if hd_is (CHR '']'') (skip_ws (tl t)) then Some (JArr [], tl (skip_ws (tl t)))
            else case jelems f (Suc d) (tl t) of None \<Rightarrow> None | Some (xs, r) \<Rightarrow> Some (JArr xs, r))
         else if hd_is (CHR ''{'') t then
           (if d \<ge> 10000 then None
            else if hd_is (CHR ''}'') (skip_ws (tl t)) then Some (JObj [], tl (skip_ws (tl t)))
            else case jmembers f (Suc d) (tl t) of None \<Rightarrow> None | Some (ms, r) \<Rightarrow> Some (JObj ms, r))
         else (case num_literal t of Some (l, r) \<Rightarrow> Some (JNum l, r) | None \<Rightarrow> jkeyword t))"
| "jelems 0 d s = None"
| "jelems (Suc f) d s =
     (case jvalue f d s of
        None \<Rightarrow> None
      | Some (v, r) \<Rightarrow>
          (let t = skip_ws r
           in if hd_is (CHR '']'') t then Some ([v], tl t)
              else if hd_is (CHR '','') t then before [v] (jelems f d (tl t)) else None))"
| "jmembers 0 d s = None"
| "jmembers (Suc f) d s =
     (let t = skip_ws s
      in if \<not> hd_is (CHR 0x22) t then None
         else case str_body (tl t) of
           None \<Rightarrow> None
         | Some (k, r) \<Rightarrow>
             if \<not> hd_is (CHR '':'') (skip_ws r) then None
             else (case jvalue f d (tl (skip_ws r)) of
               None \<Rightarrow> None
             | Some (v, r2) \<Rightarrow>
                 (let u = skip_ws r2
                  in if hd_is (CHR ''}'') u then Some ([(k, v)], tl u)
                     else if hd_is (CHR '','') u then before [(k, v)] (jmembers f d (tl u)) else None)))"

definition parse_json :: "string \<Rightarrow> json option" where
  "parse_json s = (case jvalue (2 * length s + 2) 0 s of
                     None \<Rightarrow> None | Some (v, r) \<Rightarrow> if skip_ws r = [] then Some v else None)"

subsection \<open>Decoding JSON\<close>

text \<open>The fields of a struct with their values: strings, integers and pointers to booleans.\<close>

datatype fval = FStr string | FInt int | FBoolPtr "bool option"

type_synonym struct = "(string \<times> fval) list"

fun set_fval :: "fval \<Rightarrow> json \<Rightarrow> fval option" where
  "set_fval (FBoolPtr b) JNull = Some (FBoolPtr None)"
| "set_fval f JNull = Some f"
| "set_fval (FStr _) (JStr s) = Some (FStr s)"
| "set_fval (FInt _) (JNum l) = map_option FInt (Atoi l)"
| "set_fval (FBoolPtr _) (JBool b) = Some (FBoolPtr (Some b))"
| "set_fval f j = None"

text \<open>Names of fields match without regard to case; the long s and the Kelvin sign fold to S and K.\<close>

fun fold_name :: "string \<Rightarrow> string" where
  "fold_name [] = []"
| "fold_name (a # s) =
     (if a = CHR 0xC5 \<and> HasPrefix s [CHR 0xBF] then CHR ''S'' # fold_name (drop 1 s)
      else if a = CHR 0xE2 \<and> HasPrefix s [CHR 0x84, CHR 0xAA] then CHR ''K'' # fold_name (drop 2 s)
      else to_upper_char a # fold_name s)"

definition find_field :: "struct \<Rightarrow> string \<Rightarrow> string option" where
  "find_field st k = (if k \<in> fst ` set st then Some k
                      else map_option fst (List.find (\<lambda>p. fold_name (fst p) = fold_name k) st))"

text \<open>One member of the object: an unknown name is ignored, a wrong type is an error and the rest is still decoded.\<close>

definition set_member :: "string \<times> json \<Rightarrow> bool \<times> struct \<Rightarrow> bool \<times> struct" where
  "set_member m acc =
     (case find_field (snd acc) (fst m) of
        None \<Rightarrow> acc
      | Some k \<Rightarrow> (case set_fval (the (map_of (snd acc) k)) (snd m) of
                     None \<Rightarrow> (False, snd acc)
                   | Some v \<Rightarrow> (fst acc, map (\<lambda>p. if fst p = k then (k, v) else p) (snd acc))))"

definition Unmarshal :: "struct \<Rightarrow> string \<Rightarrow> struct option" where
  "Unmarshal zero raw =
     (case parse_json raw of
        Some JNull \<Rightarrow> Some zero
      | Some (JObj ms) \<Rightarrow> (case fold set_member ms (True, zero) of (ok, st) \<Rightarrow> if ok then Some st else None)
      | _ \<Rightarrow> None)"

definition str_of :: "struct \<Rightarrow> string \<Rightarrow> string" where
  "str_of st k = (case map_of st k of Some (FStr s) \<Rightarrow> s | _ \<Rightarrow> [])"

definition int_of :: "struct \<Rightarrow> string \<Rightarrow> int" where
  "int_of st k = (case map_of st k of Some (FInt i) \<Rightarrow> i | _ \<Rightarrow> 0)"

definition bool_ptr_of :: "struct \<Rightarrow> string \<Rightarrow> bool option" where
  "bool_ptr_of st k = (case map_of st k of Some (FBoolPtr b) \<Rightarrow> b | _ \<Rightarrow> None)"

text \<open>Decoding into \<open>any\<close>: numbers become float64 values, None is a number out of range.\<close>

fun json_any :: "json \<Rightarrow> goval option" where
  "json_any JNull = Some GNil"
| "json_any (JBool b) = Some (GBool b)"
| "json_any (JNum l) = map_option GFloat64 (ParseFloat l)"
| "json_any (JStr s) = Some (GString s)"
| "json_any (JArr js) =
     (let vs = map json_any js in if None \<in> set vs then None else Some (GList (map the vs)))"
| "json_any (JObj ms) =
     (let vs = map (\<lambda>p. (fst p, json_any (snd p))) ms
      in if None \<in> snd ` set vs then None else Some (GMap (map_copy [] (map (\<lambda>p. (fst p, the (snd p))) vs))))"

text \<open>The verb \<open>%v\<close> on such a value; \<open>g\<close> formats a float64.\<close>

fun fmt_v :: "(float64 \<Rightarrow> string) \<Rightarrow> goval \<Rightarrow> string" where
  "fmt_v g (GString s) = s"
| "fmt_v g (GBool b) = (if b then ''true'' else ''false'')"
| "fmt_v g (GFloat64 x) = g x"
| "fmt_v g (GList vs) = ''['' @ join_with '' '' (map (fmt_v g) vs) @ '']''"
| "fmt_v g (GMap m) = ''map['' @ join_with '' '' (map (\<lambda>p. fst p @ '':'' @ fmt_v g (snd p)) m) @ '']''"
| "fmt_v g v = ''<nil>''"

subsection \<open>The fuel of the JSON reader\<close>

lemma skip_ws_length: "length (skip_ws s) \<le> length s"
  by (simp add: skip_ws_def length_dropWhile_le)

lemma before_Some: "before xs r = Some (ys, t) \<Longrightarrow> \<exists>zs. r = Some (zs, t)"
  by (auto simp: before_def split: option.splits)

lemma str_body_length: "str_body s = Some (a, r) \<Longrightarrow> length r < length s"
proof (induction s arbitrary: a rule: str_body.induct)
  case (2 c s)
  show ?case
  proof (cases "c = CHR 0x22 \<or> c = CHR 0x5C")
    case True
    with 2 show ?thesis
      by (auto split: if_splits list.splits option.splits dest!: before_Some) fastforce+
  next
    case False
    with 2 show ?thesis by (auto simp: Let_def split: if_splits dest!: before_Some) fastforce+
  qed
qed simp

lemma num_part_length: "num_part s = Some (a, r) \<Longrightarrow> length r < length s"
proof -
  assume "num_part s = Some (a, r)"
  then have "takeWhile is_digit s \<noteq> []" "r = dropWhile is_digit s" by (auto simp: num_part_def Let_def split: if_splits)
  then show ?thesis by (cases s) (auto simp: length_dropWhile_le le_imp_less_Suc split: if_splits)
qed

lemma num_frac_length: "num_frac s = Some (a, r) \<Longrightarrow> length r \<le> length s"
  by (cases s) (auto simp: num_frac_def HasPrefix_def split: if_splits dest!: before_Some num_part_length)

lemma num_exp_length: "num_exp s = Some (a, r) \<Longrightarrow> length r \<le> length s"
  by (cases s) (auto simp: num_exp_def Let_def split: if_splits dest!: before_Some num_part_length)

lemma num_int_length: "num_int s = Some (a, r) \<Longrightarrow> length r < length s"
  by (cases s) (auto simp: num_int_def HasPrefix_def split: if_splits dest: num_part_length)

lemma num_literal_length:
  assumes "num_literal s = Some (l, r)"
  shows "length r < length s"
proof -
  define t where "t = drop (length (if HasPrefix s ''-'' then ''-'' else [])) s"
  obtain i r1 f r2 zs where r: "num_int t = Some (i, r1)" "num_frac r1 = Some (f, r2)" "num_exp r2 = Some (zs, r)"
    using assms unfolding num_literal_def Let_def t_def [symmetric] by (auto split: option.splits dest!: before_Some)
  have "length t \<le> length s" by (simp add: t_def)
  with num_int_length [OF r(1)] num_frac_length [OF r(2)] num_exp_length [OF r(3)] show ?thesis by linarith
qed

lemma jkeyword_length: "jkeyword s = Some (v, r) \<Longrightarrow> length r < length s"
  by (auto simp: jkeyword_def HasPrefix_iff split: if_splits)

lemma hd_is_length: "hd_is c s \<Longrightarrow> length (tl s) < length s"
  by (cases s) (auto simp: hd_is_def)

lemma hd_is_skip: "hd_is c (skip_ws s) \<Longrightarrow> length (tl (skip_ws s)) < length s"
  using hd_is_length [of c "skip_ws s"] skip_ws_length [of s] by linarith

text \<open>Every value and every list of elements or members takes at least a byte.\<close>

definition shrinks :: "(string \<Rightarrow> ('a \<times> string) option) \<Rightarrow> bool" where
  "shrinks p = (\<forall>s v r. p s = Some (v, r) \<longrightarrow> length r < length s)"

lemma shrinksD: "shrinks p \<Longrightarrow> p s = Some (v, r) \<Longrightarrow> length r < length s"
  by (auto simp: shrinks_def)

lemma jvalue_shrinks:
  assumes "\<And>d. shrinks (jelems f d)" "\<And>d. shrinks (jmembers f d)"
  shows "shrinks (jvalue (Suc f) d)"
  unfolding shrinks_def
proof (intro allI impI)
  fix s v r assume *: "jvalue (Suc f) d s = Some (v, r)"
  let ?t = "skip_ws s"
  have t: "length (tl ?t) < length s" if "hd_is c ?t" for c using that by (rule hd_is_skip)
  show "length r < length s"
  proof (cases "hd_is (CHR 0x22) ?t \<or> hd_is (CHR ''['') ?t \<or> hd_is (CHR ''{'') ?t")
    case True
    then have "length r \<le> length (tl ?t)"
      using * by (auto simp: Let_def split: if_splits option.splits
          dest!: str_body_length shrinksD [OF assms(1)] shrinksD [OF assms(2)] hd_is_skip)
    with True t show ?thesis by fastforce
  next
    case False
    then have "length r < length ?t"
      using * by (auto simp: Let_def split: if_splits option.splits dest: num_literal_length jkeyword_length)
    with skip_ws_length [of s] show ?thesis by linarith
  qed
qed

lemma jelems_shrinks:
  assumes "\<And>d. shrinks (jvalue f d)" "\<And>d. shrinks (jelems f d)"
  shows "shrinks (jelems (Suc f) d)"
  unfolding shrinks_def
proof (intro allI impI)
  fix s vs r assume *: "jelems (Suc f) d s = Some (vs, r)"
  then obtain v r1 where v: "jvalue f d s = Some (v, r1)" by (auto split: option.splits)
  with * have "length r \<le> length r1"
    by (auto simp: Let_def split: if_splits dest!: before_Some shrinksD [OF assms(2)] hd_is_skip)
  with shrinksD [OF assms(1) v] show "length r < length s" by linarith
qed

lemma jmembers_shrinks:
  assumes "\<And>d. shrinks (jvalue f d)" "\<And>d. shrinks (jmembers f d)"
  shows "shrinks (jmembers (Suc f) d)"
  unfolding shrinks_def
proof (intro allI impI)
  fix s ms r assume *: "jmembers (Suc f) d s = Some (ms, r)"
  then obtain k r1 v r2 where k: "hd_is (CHR 0x22) (skip_ws s)" "str_body (tl (skip_ws s)) = Some (k, r1)"
    "hd_is (CHR '':'') (skip_ws r1)" "jvalue f d (tl (skip_ws r1)) = Some (v, r2)"
    by (auto simp: Let_def split: if_splits option.splits)
  with * have "length r \<le> length r2"
    by (auto simp: Let_def split: if_splits dest!: before_Some shrinksD [OF assms(2)] hd_is_skip)
  with k shrinksD [OF assms(1) k(4)] str_body_length [OF k(2)] hd_is_skip [OF k(1)] hd_is_skip [OF k(3)]
  show "length r < length s" by linarith
qed

lemma json_shrinks: "shrinks (jvalue f d) \<and> shrinks (jelems f d) \<and> shrinks (jmembers f d)"
proof (induction f arbitrary: d)
  case 0
  then show ?case by (simp add: shrinks_def)
next
  case (Suc f)
  then show ?case by (blast intro: jvalue_shrinks jelems_shrinks jmembers_shrinks)
qed

text \<open>More fuel than the length asks for changes nothing.\<close>

lemma jvalue_fuel:
  assumes e: "\<And>d s. 2 * length s + 2 \<le> f \<Longrightarrow> jelems (Suc f) d s = jelems f d s"
    and m: "\<And>d s. 2 * length s + 2 \<le> f \<Longrightarrow> jmembers (Suc f) d s = jmembers f d s"
    and le: "2 * length s + 1 \<le> Suc f"
  shows "jvalue (Suc (Suc f)) d s = jvalue (Suc f) d s"
proof -
  have t: "2 * length (tl (skip_ws s)) + 2 \<le> f" if "hd_is c (skip_ws s)" for c
    using hd_is_skip [OF that] le by linarith
  show ?thesis
    unfolding jvalue.simps(2) [of "Suc f"] jvalue.simps(2) [of f] Let_def using e [OF t] m [OF t]
    by (simp del: jelems.simps jmembers.simps)
qed

lemma jelems_fuel:
  assumes v: "\<And>d s. 2 * length s + 1 \<le> f \<Longrightarrow> jvalue (Suc f) d s = jvalue f d s"
    and e: "\<And>d s. 2 * length s + 2 \<le> f \<Longrightarrow> jelems (Suc f) d s = jelems f d s"
    and le: "2 * length s + 2 \<le> Suc f"
  shows "jelems (Suc (Suc f)) d s = jelems (Suc f) d s"
proof (cases "jvalue f d s")
  case None
  then show ?thesis using v [of s d] le by (simp del: jvalue.simps)
next
  case (Some p)
  then obtain x r where p: "jvalue f d s = Some (x, r)" by (cases p) simp
  have "length r < length s" using json_shrinks [of f d] p by (blast dest: shrinksD)
  then have "jelems (Suc f) d (tl (skip_ws r)) = jelems f d (tl (skip_ws r))" if "hd_is (CHR '','') (skip_ws r)"
    using hd_is_skip [OF that] le by (intro e) linarith
  with p v [of s d] le show ?thesis
    by (simp add: jelems.simps(2) [of "Suc f" d s] jelems.simps(2) [of f d s] Let_def del: jvalue.simps jelems.simps)
qed

lemma jmembers_fuel:
  assumes v: "\<And>d s. 2 * length s + 1 \<le> f \<Longrightarrow> jvalue (Suc f) d s = jvalue f d s"
    and m: "\<And>d s. 2 * length s + 2 \<le> f \<Longrightarrow> jmembers (Suc f) d s = jmembers f d s"
    and le: "2 * length s + 2 \<le> Suc f"
  shows "jmembers (Suc (Suc f)) d s = jmembers (Suc f) d s"
proof (cases "hd_is (CHR 0x22) (skip_ws s) \<and> str_body (tl (skip_ws s)) \<noteq> None")
  case False
  then show ?thesis by (cases "str_body (tl (skip_ws s))") (auto simp: Let_def simp del: jvalue.simps)
next
  case True
  then obtain k r where k: "hd_is (CHR 0x22) (skip_ws s)" "str_body (tl (skip_ws s)) = Some (k, r)" by auto
  note step = jmembers.simps(2) [of "Suc f" d s] jmembers.simps(2) [of f d s]
  have r: "2 * length r + 2 \<le> f" using hd_is_skip [OF k(1)] str_body_length [OF k(2)] le by linarith
  show ?thesis
  proof (cases "hd_is (CHR '':'') (skip_ws r)")
    case True
    let ?w = "tl (skip_ws r)"
    have w: "length ?w < length r" using True by (rule hd_is_skip)
    then have v': "jvalue (Suc f) d ?w = jvalue f d ?w" using r by (intro v) linarith
    have m': "jmembers (Suc f) d (tl (skip_ws u)) = jmembers f d (tl (skip_ws u))"
      if "jvalue f d ?w = Some (x, u)" "hd_is (CHR '','') (skip_ws u)" for x u
      using shrinksD [of "jvalue f d", OF _ that(1)] json_shrinks [of f d] hd_is_skip [OF that(2)] w r by (intro m) linarith
    show ?thesis
      using k True v' m' by (cases "jvalue f d ?w") (auto simp: step Let_def simp del: jvalue.simps jmembers.simps)
  qed (use k in \<open>simp add: step Let_def del: jvalue.simps jmembers.simps\<close>)
qed

lemma json_fuel:
  "(2 * length s + 1 \<le> f \<longrightarrow> jvalue (Suc f) d s = jvalue f d s) \<and>
   (2 * length s + 2 \<le> f \<longrightarrow> jelems (Suc f) d s = jelems f d s) \<and>
   (2 * length s + 2 \<le> f \<longrightarrow> jmembers (Suc f) d s = jmembers f d s)"
proof (induction f arbitrary: d s)
  case (Suc f)
  then show ?case by (intro conjI impI jvalue_fuel jelems_fuel jmembers_fuel) blast+
qed simp

lemma parse_json_fuel: "2 * length s + 2 \<le> f \<Longrightarrow> jvalue f d s = jvalue (2 * length s + 2) d s"
proof (induction f rule: dec_induct)
  case (step f)
  then show ?case using json_fuel [of s f d] by simp
qed simp

end
