(* ===== verification/Checks.thy ===== *)
theory Checks
imports Go_Text Plugin_Manifest "HOL-Library.Word"
begin

text \<open>
  The compliance checks of \<open>internal/checker\<close>: the result of a check (\<open>types.go\<close>) and the twenty
  checks of its subpackages \<open>kernel\<close>, \<open>filesystem\<close>, \<open>network\<close>, \<open>service\<close> and \<open>container\<close>. The machine a
  check looks at is a parameter: its files, the results of \<open>stat\<close>, the output of its commands, the
  kernel release and the time a check takes. A check gets its parameters as the JSON text of the
  platform and gives an error or a result.
\<close>

unbundle bit_operations_syntax

subsection \<open>The machine\<close>

datatype ioerr = NotExist string | IoError string

fun io_text :: "ioerr \<Rightarrow> string" where
  "io_text (NotExist t) = t"
| "io_text (IoError t) = t"

fun IsNotExist :: "ioerr \<Rightarrow> bool" where
  "IsNotExist (NotExist t) = True"
| "IsNotExist (IoError t) = False"

text \<open>How a command fails: with an exit code and what it wrote to the standard error, or before it runs.\<close>

datatype cmd_err = ExitError int string string | ExecError string

fun cmd_text :: "cmd_err \<Rightarrow> string" where
  "cmd_text (ExitError code stderr t) = t"
| "cmd_text (ExecError t) = t"

type_synonym FileMode = "32 word"

record machine =
  h_ReadFile :: "string \<Rightarrow> ioerr + string"
  h_Open :: "string \<Rightarrow> ioerr + string \<times> err"
  h_Stat :: "string \<Rightarrow> ioerr + FileMode"
  h_Lstat :: "string \<Rightarrow> ioerr + FileMode"
  h_Output :: "string list \<Rightarrow> string \<times> cmd_err option"
  h_Uname :: "string result"
  h_since :: duration
  h_fmt_float :: "float64 \<Rightarrow> string"

subsection \<open>Results\<close>

datatype CheckStatus = StatusPass | StatusFail | StatusWarn | StatusError | StatusSkip

type_synonym CheckSeverity = int

record CheckResult =
  cr_ItemID :: string
  cr_Type :: string
  cr_Name :: string
  cr_Status :: CheckStatus
  cr_ActualValue :: string
  cr_ExpectedValue :: string
  cr_Message :: string
  cr_Remediation :: string
  cr_Severity :: CheckSeverity
  cr_Duration :: duration

definition SeverityInfo :: CheckSeverity where "SeverityInfo = 0"

definition new_result :: "machine \<Rightarrow> CheckStatus \<Rightarrow> string \<Rightarrow> string \<Rightarrow> string \<Rightarrow> CheckResult" where
  "new_result h status actual expected msg =
     \<lparr>cr_ItemID = [], cr_Type = [], cr_Name = [], cr_Status = status, cr_ActualValue = actual,
      cr_ExpectedValue = expected, cr_Message = msg, cr_Remediation = [], cr_Severity = SeverityInfo,
      cr_Duration = h_since h\<rparr>"

text \<open>A result of the status error, and the comparison most checks end with.\<close>

definition error_result :: "machine \<Rightarrow> string \<Rightarrow> CheckResult" where
  "error_result h msg = new_result h StatusError [] [] msg"

definition compared :: "machine \<Rightarrow> string \<Rightarrow> string \<Rightarrow> string \<Rightarrow> string \<Rightarrow> CheckResult" where
  "compared h actual expected passed failed =
     (if actual = expected then new_result h StatusPass actual expected passed
      else new_result h StatusFail actual expected failed)"

type_synonym check = "machine \<Rightarrow> string \<Rightarrow> CheckResult result"

definition params_of :: "struct \<Rightarrow> string \<Rightarrow> string \<Rightarrow> (struct \<Rightarrow> 'a result) \<Rightarrow> 'a result" where
  "params_of zero raw msg k = (case Unmarshal zero raw of None \<Rightarrow> Inl msg | Some p \<Rightarrow> k p)"

definition checked :: "err list \<Rightarrow> 'a result \<Rightarrow> 'a result" where
  "checked es r = (case first_err es of Some e \<Rightarrow> Inl e | None \<Rightarrow> r)"

subsection \<open>Kernel\<close>

definition parseBootParam :: "string \<Rightarrow> string \<Rightarrow> string" where
  "parseBootParam cmdline param =
     (case List.find (\<lambda>part. HasPrefix part (param @ ''='') \<or> part = param) (strings_Fields cmdline) of
        None \<Rightarrow> []
      | Some part \<Rightarrow> if HasPrefix part (param @ ''='') then drop (length param + 1) part else ''1'')"

definition boot_param_check :: check where
  "boot_param_check h raw =
     params_of [(''param'', FStr []), (''expected'', FStr [])] raw ''boot_param_check: invalid params: %w''
     (\<lambda>p. let param = str_of p ''param''; expected = str_of p ''expected'' in
      checked [fail_if (param = []) ''boot_param_check: param is required'']
       (Inr (case h_ReadFile h ''/proc/cmdline'' of
               Inl e \<Rightarrow> error_result h (''failed to read /proc/cmdline: '' @ io_text e)
             | Inr data \<Rightarrow>
                 (let actual = parseBootParam (TrimSpace data) param
                  in compared h actual expected (''boot param '' @ param @ ''='' @ actual @ '' (expected)'')
                       (''boot param '' @ param @ ''='' @ actual @ '', expected '' @ expected)))))"

text \<open>The loops over a scanner end with the first line that decides; only without one its error counts.\<close>

definition scan_find :: "(string \<Rightarrow> 'a option) \<Rightarrow> string list \<times> err \<Rightarrow> 'a option result" where
  "scan_find f sc = (case List.find (\<lambda>l. f l \<noteq> None) (fst sc) of
                       Some l \<Rightarrow> Inr (f l)
                     | None \<Rightarrow> (case snd sc of Some e \<Rightarrow> Inl e | None \<Rightarrow> Inr None))"

definition isModuleLoaded :: "machine \<Rightarrow> string \<Rightarrow> bool result" where
  "isModuleLoaded h name =
     (case h_Open h ''/proc/modules'' of
        Inl e \<Rightarrow> Inl (io_text e)
      | Inr f \<Rightarrow>
          (case scan_find (\<lambda>l. let fields = strings_Fields l in if fields \<noteq> [] \<and> fields ! 0 = name then Some () else None) (Scan f) of
             Inl e \<Rightarrow> Inl e | Inr r \<Rightarrow> Inr (r \<noteq> None)))"

definition kernel_module_check :: check where
  "kernel_module_check h raw =
     params_of [(''module'', FStr []), (''expected'', FStr [])] raw ''kernel_module_check: invalid params: %w''
     (\<lambda>p. let modName = str_of p ''module''; expected = str_of p ''expected'' in
      checked [fail_if (modName = []) ''kernel_module_check: module is required'']
       (Inr (case isModuleLoaded h modName of
               Inl e \<Rightarrow> error_result h (''failed to read /proc/modules: '' @ e)
             | Inr loaded \<Rightarrow>
                 (let actual = (if loaded then ''loaded'' else ''not_loaded'')
                  in compared h actual expected (''module '' @ modName @ '' is '' @ actual @ '' (expected)'')
                       (''module '' @ modName @ '' is '' @ actual @ '', expected '' @ expected)))))"

definition kernel_version_check :: check where
  "kernel_version_check h raw =
     Inr (case h_Uname h of
            Inl e \<Rightarrow> error_result h (''uname syscall failed: '' @ e)
          | Inr release \<Rightarrow> new_result h StatusPass release [] (''kernel version: '' @ release))"

definition sysctl_check :: check where
  "sysctl_check h raw =
     params_of [(''path'', FStr []), (''expected'', FStr [])] raw ''sysctl_check: invalid params: %w''
     (\<lambda>p. let path = str_of p ''path''; expected = str_of p ''expected'' in
      checked [fail_if (path = []) ''sysctl_check: path is required'',
               fail_if (\<not> HasPrefix path ''/proc/sys/'') ''sysctl_check: path must start with /proc/sys/, got %q'']
       (Inr (case h_ReadFile h path of
               Inl e \<Rightarrow> error_result h (''failed to read '' @ path @ '': '' @ io_text e)
             | Inr data \<Rightarrow>
                 (let actual = TrimSpace data
                  in compared h actual expected (''sysctl '' @ path @ '' = '' @ actual @ '' (expected)'')
                       (''sysctl '' @ path @ '' = '' @ actual @ '', expected '' @ expected)))))"

subsection \<open>File system\<close>

definition ModeDir :: FileMode where "ModeDir = 2147483648"
definition ModeSetuid :: FileMode where "ModeSetuid = 8388608"
definition ModeSetgid :: FileMode where "ModeSetgid = 4194304"
definition ModeSticky :: FileMode where "ModeSticky = 1048576"

definition Perm :: "FileMode \<Rightarrow> 32 word" where "Perm m = m AND 511"

definition formatDirMode :: "FileMode \<Rightarrow> string" where
  "formatDirMode m =
     (let mode = Perm m;
          mode = (if m AND ModeSetuid \<noteq> 0 then mode OR 2048 else mode);
          mode = (if m AND ModeSetgid \<noteq> 0 then mode OR 1024 else mode);
          mode = (if m AND ModeSticky \<noteq> 0 then mode OR 512 else mode)
      in fmt_04o (unat mode))"

definition fmt_bool :: "bool \<Rightarrow> string" where
  "fmt_bool b = (if b then ''true'' else ''false'')"

definition dir_perm_check :: check where
  "dir_perm_check h raw =
     params_of [(''path'', FStr []), (''expected_mode'', FStr []), (''sticky_bit'', FBoolPtr None)] raw
       ''dir_perm_check: invalid params: %w''
     (\<lambda>p. let path = str_of p ''path''; expected = str_of p ''expected_mode''; cleanPath = path_Clean path in
      checked [fail_if (path = []) ''dir_perm_check: path is required'',
               fail_if (cleanPath \<noteq> path) ''dir_perm_check: path must be clean, got %q'']
       (Inr (case h_Stat h cleanPath of
               Inl e \<Rightarrow> error_result h (''failed to stat '' @ cleanPath @ '': '' @ io_text e)
             | Inr mode \<Rightarrow>
                 if mode AND ModeDir = 0 then error_result h (cleanPath @ '' is not a directory'')
                 else
                   (let actual = formatDirMode mode;
                        hasSticky = (mode AND ModeSticky \<noteq> 0);
                        passed = ''directory '' @ cleanPath @ '' mode '' @ actual @ '' (expected)'';
                        failed = ''directory '' @ cleanPath @ '' mode '' @ actual @ '', expected '' @ expected
                    in case bool_ptr_of p ''sticky_bit'' of
                         Some b \<Rightarrow>
                           if b \<noteq> hasSticky then
                             new_result h StatusFail (actual @ '' (sticky='' @ (if hasSticky then ''present'' else ''absent'') @ '')'')
                               (expected @ '' (sticky='' @ fmt_bool b @ '')'') failed
                           else compared h actual expected passed failed
                       | None \<Rightarrow> compared h actual expected passed failed))))"

definition file_exist_check :: check where
  "file_exist_check h raw =
     params_of [(''path'', FStr []), (''expected'', FStr [])] raw ''file_exist_check: invalid params: %w''
     (\<lambda>p. let path = str_of p ''path''; expected = str_of p ''expected''; cleanPath = path_Clean path;
              answer = (\<lambda>actual. compared h actual expected (''file '' @ cleanPath @ '' is '' @ actual @ '' (expected)'')
                                   (''file '' @ cleanPath @ '' is '' @ actual @ '', expected '' @ expected)) in
      checked [fail_if (path = []) ''file_exist_check: path is required'',
               fail_if (cleanPath \<noteq> path) ''file_exist_check: path must be clean, got %q'',
               fail_if (expected \<noteq> ''exists'' \<and> expected \<noteq> ''not_exists'')
                 ''file_exist_check: expected must be 'exists' or 'not_exists', got %q'']
       (Inr (case h_Stat h cleanPath of
               Inr mode \<Rightarrow> answer ''exists''
             | Inl e \<Rightarrow> if IsNotExist e then answer ''not_exists''
                        else error_result h (''failed to stat '' @ cleanPath @ '': '' @ io_text e))))"

definition file_perm_check :: check where
  "file_perm_check h raw =
     params_of [(''path'', FStr []), (''expected_mode'', FStr [])] raw ''file_perm_check: invalid params: %w''
     (\<lambda>p. let path = str_of p ''path''; expected = str_of p ''expected_mode''; cleanPath = path_Clean path in
      checked [fail_if (path = []) ''file_perm_check: path is required'',
               fail_if (cleanPath \<noteq> path) ''file_perm_check: path must be clean, got %q'']
       (Inr (case h_Lstat h cleanPath of
               Inl e \<Rightarrow> error_result h (''failed to stat '' @ cleanPath @ '': '' @ io_text e)
             | Inr mode \<Rightarrow>
                 (let actual = fmt_04o (unat (Perm mode))
                  in compared h actual expected (''file '' @ cleanPath @ '' mode '' @ actual @ '' (expected)'')
                       (''file '' @ cleanPath @ '' mode '' @ actual @ '', expected '' @ expected)))))"

definition findMountOptions :: "machine \<Rightarrow> string \<Rightarrow> string result" where
  "findMountOptions h mountPoint =
     (case h_Open h ''/proc/mounts'' of
        Inl e \<Rightarrow> Inl (io_text e)
      | Inr f \<Rightarrow>
          (case scan_find (\<lambda>l. let fields = strings_Fields l in if length fields \<ge> 4 \<and> fields ! 1 = mountPoint then Some (fields ! 3) else None)
                  (Scan f) of
             Inl e \<Rightarrow> Inl e | Inr (Some options) \<Rightarrow> Inr options | Inr None \<Rightarrow> Inr []))"

definition hasMountOption :: "string \<Rightarrow> string \<Rightarrow> bool" where
  "hasMountOption options option = list_ex (\<lambda>opt. opt = option) (split_on (CHR '','') options)"

definition mount_option_check :: check where
  "mount_option_check h raw =
     params_of [(''mount_point'', FStr []), (''expected_option'', FStr [])] raw ''mount_option_check: invalid params: %w''
     (\<lambda>p. let mountPoint = str_of p ''mount_point''; option = str_of p ''expected_option'' in
      checked [fail_if (mountPoint = []) ''mount_option_check: mount_point is required'',
               fail_if (option = []) ''mount_option_check: expected_option is required'']
       (Inr (case findMountOptions h mountPoint of
               Inl e \<Rightarrow> error_result h (''failed to read /proc/mounts: '' @ e)
             | Inr options \<Rightarrow>
                 if options = [] then error_result h (''mount point '' @ mountPoint @ '' not found in /proc/mounts'')
                 else compared h (if hasMountOption options option then ''present'' else ''absent'') ''present''
                        (''mount '' @ mountPoint @ '' has option '' @ option @ '' (expected)'')
                        (''mount '' @ mountPoint @ '' missing option '' @ option @ '' (have: '' @ options @ '')''))))"

subsection \<open>Network\<close>

definition getIPTablesPolicy :: "machine \<Rightarrow> string \<Rightarrow> string result" where
  "getIPTablesPolicy h chain =
     (case h_Output h [''iptables'', ''-L'', chain, ''-n''] of
        (out, Some (ExitError code stderr t)) \<Rightarrow> Inl (''iptables exited with code '' @ itoa code @ '': '' @ stderr)
      | (out, Some (ExecError t)) \<Rightarrow> Inl (''iptables exec: '' @ t)
      | (out, None) \<Rightarrow>
          (case filter (\<lambda>l. l \<noteq> []) (map TrimSpace (split_on (CHR 0x0A) out)) of
             [] \<Rightarrow> Inl ''iptables returned empty output''
           | firstLine # _ \<Rightarrow>
               (case Cut firstLine ''(policy '' of
                  Some (_, rest) \<Rightarrow> (case Cut rest '')'' of Some (policy, _) \<Rightarrow> Inr policy | None \<Rightarrow> Inr ''no policy (custom chain)'')
                | None \<Rightarrow> Inr ''no policy (custom chain)'')))"

definition iptables_check :: check where
  "iptables_check h raw =
     params_of [(''chain'', FStr []), (''expected_policy'', FStr [])] raw ''iptables_check: invalid params: %w''
     (\<lambda>p. let chain = str_of p ''chain''; expected = str_of p ''expected_policy''; upper = ToUpper chain in
      checked [fail_if (chain = []) ''iptables_check: chain is required'',
               fail_if (upper \<noteq> ''INPUT'' \<and> upper \<noteq> ''OUTPUT'' \<and> upper \<noteq> ''FORWARD'')
                 ''iptables_check: chain must be INPUT, OUTPUT, or FORWARD, got %q'']
       (Inr (case getIPTablesPolicy h upper of
               Inl e \<Rightarrow> error_result h (''failed to get iptables policy for chain '' @ upper @ '': '' @ e)
             | Inr policy \<Rightarrow>
                 compared h policy expected (''iptables chain '' @ upper @ '' policy = '' @ policy @ '' (expected)'')
                   (''iptables chain '' @ upper @ '' policy = '' @ policy @ '', expected '' @ expected))))"

definition sysctlKeyToProcPath :: "string \<Rightarrow> string" where
  "sysctlKeyToProcPath key = ''/proc/sys/'' @ map (\<lambda>c. if c = CHR ''.'' then CHR ''/'' else c) key"

definition network_param_check :: check where
  "network_param_check h raw =
     params_of [(''key'', FStr []), (''expected'', FStr [])] raw ''network_param_check: invalid params: %w''
     (\<lambda>p. let key = str_of p ''key''; expected = str_of p ''expected''; cleanPath = path_Clean (sysctlKeyToProcPath key) in
      checked [fail_if (key = []) ''network_param_check: key is required'',
               fail_if (ContainsAny key [CHR ''/'', CHR 0x5C]) ''network_param_check: key must not contain path separators, got %q'',
               fail_if (list_ex (\<lambda>seg. seg = ''..'' \<or> seg = []) (split_on (CHR ''.'') key))
                 ''network_param_check: key contains invalid segment, got %q'',
               fail_if (\<not> HasPrefix cleanPath ''/proc/sys/'') ''network_param_check: key %q resolves to path outside /proc/sys/'']
       (Inr (case h_ReadFile h cleanPath of
               Inl e \<Rightarrow> error_result h (''failed to read '' @ cleanPath @ '': '' @ io_text e)
             | Inr data \<Rightarrow>
                 (let actual = TrimSpace data
                  in compared h actual expected (''network param '' @ key @ '' = '' @ actual @ '' (expected)'')
                       (''network param '' @ key @ '' = '' @ actual @ '', expected '' @ expected)))))"

definition checkProcNetTCP :: "machine \<Rightarrow> string \<Rightarrow> string \<Rightarrow> ioerr + bool" where
  "checkProcNetTCP h path hexPort =
     (case h_Open h path of
        Inl e \<Rightarrow> Inl e
      | Inr f \<Rightarrow>
          (let sc = Scan f
           in case scan_find (\<lambda>line. let fields = strings_Fields line in
                     if length fields < 4 then None
                     else case Cut (fields ! 1) '':'' of
                            None \<Rightarrow> None
                          | Some (_, port) \<Rightarrow> if port = hexPort \<and> fields ! 3 = ''0A'' then Some () else None)
                   (tl (fst sc), snd sc) of
                Inl e \<Rightarrow> Inl (IoError e) | Inr r \<Rightarrow> Inr (r \<noteq> None)))"

fun listening_in :: "machine \<Rightarrow> string \<Rightarrow> string list \<Rightarrow> bool result" where
  "listening_in h hexPort [] = Inr False"
| "listening_in h hexPort (path # paths) =
     (case checkProcNetTCP h path hexPort of
        Inl e \<Rightarrow> if IsNotExist e then listening_in h hexPort paths else Inl (io_text e)
      | Inr listening \<Rightarrow> if listening then Inr True else listening_in h hexPort paths)"

definition isPortListening :: "machine \<Rightarrow> int \<Rightarrow> bool result" where
  "isPortListening h port = listening_in h (fmt_04X (nat port)) [''/proc/net/tcp'', ''/proc/net/tcp6'']"

definition port_check :: check where
  "port_check h raw =
     params_of [(''port'', FInt 0), (''expected_state'', FStr [])] raw ''port_check: invalid params: %w''
     (\<lambda>p. let port = int_of p ''port''; expected = str_of p ''expected_state'' in
      checked [fail_if (port \<le> 0 \<or> port > 65535) ''port_check: port must be 1-65535, got %d'',
               fail_if (expected \<noteq> ''listening'' \<and> expected \<noteq> ''not_listening'')
                 ''port_check: expected_state must be 'listening' or 'not_listening', got %q'']
       (Inr (case isPortListening h port of
               Inl e \<Rightarrow> error_result h (''failed to check port '' @ itoa port @ '': '' @ e)
             | Inr listening \<Rightarrow>
                 (let actual = (if listening then ''listening'' else ''not_listening'')
                  in compared h actual expected (''port '' @ itoa port @ '' is '' @ actual @ '' (expected)'')
                       (''port '' @ itoa port @ '' is '' @ actual @ '', expected '' @ expected)))))"

definition sshd_line :: "string \<Rightarrow> string \<Rightarrow> string \<Rightarrow> string" where
  "sshd_line lowerKey l val =
     (let line = TrimSpace l
      in if line = [] \<or> HasPrefix line ''#'' then val
         else case Cut line '' '' of
                None \<Rightarrow> val
              | Some (k, v) \<Rightarrow> if ToLower k = lowerKey then TrimSpace v else val)"

definition parseSSHDConfig :: "machine \<Rightarrow> string \<Rightarrow> string \<Rightarrow> string result" where
  "parseSSHDConfig h path key =
     (case h_Open h path of
        Inl e \<Rightarrow> Inl (io_text e)
      | Inr f \<Rightarrow> (let sc = Scan f; val = fold (sshd_line (ToLower key)) (fst sc) []
                  in case snd sc of Some e \<Rightarrow> Inl e | None \<Rightarrow> Inr val))"

definition ssh_config_check :: check where
  "ssh_config_check h raw =
     params_of [(''key'', FStr []), (''expected'', FStr [])] raw ''ssh_config_check: invalid params: %w''
     (\<lambda>p. let key = str_of p ''key''; expected = str_of p ''expected'' in
      checked [fail_if (key = []) ''ssh_config_check: key is required'']
       (Inr (case parseSSHDConfig h ''/etc/ssh/sshd_config'' key of
               Inl e \<Rightarrow> error_result h (''failed to parse sshd_config: '' @ e)
             | Inr actual \<Rightarrow>
                 compared h actual expected (''sshd_config '' @ key @ '' = '' @ actual @ '' (expected)'')
                   (''sshd_config '' @ key @ '' = '' @ actual @ '', expected '' @ expected))))"

subsection \<open>Services\<close>

definition countCronEntries :: "machine \<Rightarrow> string \<Rightarrow> nat result" where
  "countCronEntries h user =
     (let path = ''/var/spool/cron/crontabs/'' @ user
      in case h_Open h path of
           Inl e \<Rightarrow> Inl (''open '' @ path @ '': '' @ io_text e)
         | Inr f \<Rightarrow>
             (let sc = Scan f;
                  count = length (filter (\<lambda>line. line \<noteq> [] \<and> \<not> HasPrefix line ''#'') (map TrimSpace (fst sc)))
              in case snd sc of Some e \<Rightarrow> Inl (''read '' @ path @ '': '' @ e) | None \<Rightarrow> Inr count))"

definition cron_check :: check where
  "cron_check h raw =
     params_of [(''user'', FStr [])] raw ''cron_check: invalid params: %w''
     (\<lambda>p. let user = str_of p ''user'' in
      checked [fail_if (user = []) ''cron_check: user is required'',
               fail_if (ContainsAny user [CHR ''/'', CHR 0x5C] \<or> Contains user ''..'') ''cron_check: invalid user name'']
       (Inr (case countCronEntries h user of
               Inl e \<Rightarrow> error_result h (''failed to read crontab for '' @ user @ '': '' @ e)
             | Inr count \<Rightarrow> new_result h StatusPass (utoa count) [] (''user '' @ user @ '' has '' @ utoa count @ '' cron entries''))))"

definition pamModuleInFile :: "machine \<Rightarrow> string \<Rightarrow> string \<Rightarrow> bool result" where
  "pamModuleInFile h modName file =
     (let cleanFile = path_Clean file; path = ''/etc/pam.d/'' @ cleanFile
      in if Contains cleanFile ''..'' \<or> HasPrefix cleanFile ''/'' then Inl ''pam_check: invalid file name''
         else case h_Open h path of
           Inl e \<Rightarrow> Inl (''open '' @ path @ '': '' @ io_text e)
         | Inr f \<Rightarrow>
             (case scan_find (\<lambda>l. let line = TrimSpace l in
                      if line = [] \<or> HasPrefix line ''#'' then None else if Contains line modName then Some () else None) (Scan f) of
                Inl e \<Rightarrow> Inl (''read '' @ path @ '': '' @ e) | Inr r \<Rightarrow> Inr (r \<noteq> None)))"

definition pam_check :: check where
  "pam_check h raw =
     params_of [(''module'', FStr []), (''file'', FStr [])] raw ''pam_check: invalid params: %w''
     (\<lambda>p. let modName = str_of p ''module''; file = str_of p ''file'' in
      checked [fail_if (modName = []) ''pam_check: module is required'', fail_if (file = []) ''pam_check: file is required'']
       (Inr (case pamModuleInFile h modName file of
               Inl e \<Rightarrow> error_result h (''failed to read PAM config: '' @ e)
             | Inr found \<Rightarrow>
                 compared h (if found then ''present'' else ''absent'') ''present''
                   (''module '' @ modName @ '' found in /etc/pam.d/'' @ file)
                   (''module '' @ modName @ '' not found in /etc/pam.d/'' @ file))))"

definition service_check :: check where
  "service_check h raw =
     params_of [(''name'', FStr []), (''expected_status'', FStr [])] raw ''service_check: invalid params: %w''
     (\<lambda>p. let name = str_of p ''name''; expected = str_of p ''expected_status'' in
      checked [fail_if (name = []) ''service_check: name is required'',
               fail_if (expected = []) ''service_check: expected_status is required'']
       (Inr (case h_Output h [''systemctl'', ''is-active'', name] of
               (out, e) \<Rightarrow>
                 (let actual = TrimSpace out
                  in if e \<noteq> None \<and> actual = [] then error_result h (''failed to check service '' @ name @ '': '' @ cmd_text (the e))
                     else compared h actual expected (''service '' @ name @ '' is '' @ actual @ '' (expected)'')
                            (''service '' @ name @ '' is '' @ actual @ '', expected '' @ expected)))))"

definition userExistsInPasswd :: "machine \<Rightarrow> string \<Rightarrow> bool result" where
  "userExistsInPasswd h username =
     (case h_Open h ''/etc/passwd'' of
        Inl e \<Rightarrow> Inl (''open /etc/passwd: '' @ io_text e)
      | Inr f \<Rightarrow>
          (case scan_find (\<lambda>line. if HasPrefix line ''#'' then None
                    else if hd (split_on (CHR '':'') line) = username then Some () else None) (Scan f) of
             Inl e \<Rightarrow> Inl (''read /etc/passwd: '' @ e) | Inr r \<Rightarrow> Inr (r \<noteq> None)))"

definition userIsLocked :: "machine \<Rightarrow> string \<Rightarrow> bool result" where
  "userIsLocked h username =
     (case h_Open h ''/etc/shadow'' of
        Inl e \<Rightarrow> Inl (''open /etc/shadow: '' @ io_text e)
      | Inr f \<Rightarrow>
          (case scan_find (\<lambda>line. if HasPrefix line ''#'' then None
                    else (let parts = split_on (CHR '':'') line
                          in if length parts \<ge> 2 \<and> parts ! 0 = username
                             then Some (parts ! 1 = ''*'' \<or> HasPrefix (parts ! 1) ''!'') else None)) (Scan f) of
             Inl e \<Rightarrow> Inl (''read /etc/shadow: '' @ e)
           | Inr (Some locked) \<Rightarrow> Inr locked
           | Inr None \<Rightarrow> Inl (''user '' @ username @ '' not found in /etc/shadow'')))"

definition checkExists :: "machine \<Rightarrow> string \<Rightarrow> CheckResult" where
  "checkExists h username =
     (case userExistsInPasswd h username of
        Inl e \<Rightarrow> error_result h (''failed to parse /etc/passwd: '' @ e)
      | Inr exists \<Rightarrow> compared h (if exists then ''exists'' else ''not_exists'') ''exists''
                        (''user '' @ username @ '' exists'') (''user '' @ username @ '' does not exist''))"

definition checkLocked :: "machine \<Rightarrow> string \<Rightarrow> CheckResult" where
  "checkLocked h username =
     (case userIsLocked h username of
        Inl e \<Rightarrow> error_result h (''failed to check lock status: '' @ e)
      | Inr locked \<Rightarrow> compared h (if locked then ''locked'' else ''unlocked'') ''locked''
                        (''user '' @ username @ '' is locked'') (''user '' @ username @ '' is not locked''))"

definition user_check :: check where
  "user_check h raw =
     params_of [(''username'', FStr []), (''check'', FStr [])] raw ''user_check: invalid params: %w''
     (\<lambda>p. let username = str_of p ''username''; kind = str_of p ''check'' in
      checked [fail_if (username = []) ''user_check: username is required'',
               fail_if (kind \<noteq> ''exists'' \<and> kind \<noteq> ''locked'') ''user_check: check must be 'exists' or 'locked', got %q'']
       (Inr (if kind = ''exists'' then checkExists h username else checkLocked h username)))"

subsection \<open>Containers\<close>

definition cgroup_check :: check where
  "cgroup_check h raw =
     Inr (case h_Stat h ''/sys/fs/cgroup/cgroup.controllers'' of
            Inr _ \<Rightarrow> new_result h StatusPass ''v2'' ''v2'' ''cgroup v2 (unified hierarchy) detected''
          | Inl _ \<Rightarrow>
              (case h_Stat h ''/sys/fs/cgroup/cpu'' of
                 Inr _ \<Rightarrow> new_result h StatusPass ''v1'' ''v1'' ''cgroup v1 (legacy hierarchy) detected''
               | Inl _ \<Rightarrow> error_result h ''unable to detect cgroup version: no cgroup markers found''))"

text \<open>The value of a key in the first line of the form key = value.\<close>

definition toml_line :: "string \<Rightarrow> string \<Rightarrow> string option" where
  "toml_line key line =
     (let trimmed = TrimSpace line
      in if HasPrefix trimmed ''#'' \<or> HasPrefix trimmed ''//'' then None
         else case Cut trimmed ''='' of
                None \<Rightarrow> None
              | Some (k, v) \<Rightarrow> if TrimSpace k = key then Some (Trim_char (CHR 0x22) (TrimSpace v)) else None)"

definition containerd_check :: check where
  "containerd_check h raw =
     params_of [(''key'', FStr []), (''expected'', FStr [])] raw ''containerd_check: invalid params: %w''
     (\<lambda>p. let key = str_of p ''key''; expected = str_of p ''expected'' in
      checked [fail_if (key = []) ''containerd_check: key is required'']
       (Inr (case h_ReadFile h ''/etc/containerd/config.toml'' of
               Inl e \<Rightarrow> error_result h (''failed to read /etc/containerd/config.toml: '' @ io_text e)
             | Inr data \<Rightarrow>
                 (case List.find (\<lambda>l. toml_line key l \<noteq> None) (split_on (CHR 0x0A) data) of
                    None \<Rightarrow> new_result h StatusFail ''key_not_found'' expected
                              (''containerd key '' @ Quote key @ '' not found in config.toml'')
                  | Some l \<Rightarrow>
                      (let actual = the (toml_line key l)
                       in compared h actual expected (''containerd '' @ key @ '' = '' @ actual @ '' (expected)'')
                            (''containerd '' @ key @ '' = '' @ actual @ '', expected '' @ expected))))))"

text \<open>\<open>json.Unmarshal\<close> into a \<open>map[string]any\<close>.\<close>

definition unmarshal_map :: "string \<Rightarrow> goval gomap option" where
  "unmarshal_map data =
     (case parse_json data of
        Some JNull \<Rightarrow> Some []
      | Some (JObj ms) \<Rightarrow> (case json_any (JObj ms) of Some (GMap m) \<Rightarrow> Some m | _ \<Rightarrow> None)
      | _ \<Rightarrow> None)"

definition docker_check :: check where
  "docker_check h raw =
     params_of [(''check'', FStr []), (''key'', FStr []), (''expected'', FStr [])] raw ''docker_check: invalid params: %w''
     (\<lambda>p. let key = str_of p ''key''; expected = str_of p ''expected'';
              notFound = new_result h StatusFail ''key_not_found'' expected (''docker key '' @ Quote key @ '' not found in daemon.json'') in
      checked [fail_if (key = []) ''docker_check: key is required'']
       (Inr (case h_ReadFile h ''/etc/docker/daemon.json'' of
               Inl e \<Rightarrow> error_result h (''failed to read /etc/docker/daemon.json: '' @ io_text e)
             | Inr data \<Rightarrow>
                 if \<not> Contains data (Quote key) then notFound
                 else (case unmarshal_map data of
                   None \<Rightarrow> error_result h ''failed to parse /etc/docker/daemon.json: %v''
                 | Some config \<Rightarrow>
                     (case map_of config key of
                        None \<Rightarrow> notFound
                      | Some val \<Rightarrow>
                          (let actual = fmt_v (h_fmt_float h) val
                           in compared h actual expected (''docker '' @ key @ '' = '' @ actual @ '' (expected)'')
                                (''docker '' @ key @ '' = '' @ actual @ '', expected '' @ expected)))))))"

definition runtimeSockets :: "string gomap" where
  "runtimeSockets = [(''containerd'', ''/var/run/containerd/containerd.sock''), (''cri-o'', ''/var/run/crio/crio.sock''),
     (''docker'', ''/var/run/docker.sock'')]"

definition container_runtime_check :: check where
  "container_runtime_check h raw =
     params_of [(''runtime'', FStr []), (''expected'', FStr [])] raw ''container_runtime_check: invalid params: %w''
     (\<lambda>p. let runtime = str_of p ''runtime'';
              expected = (if str_of p ''expected'' = [] then ''available'' else str_of p ''expected'');
              answer = (\<lambda>actual. compared h actual expected (''container runtime '' @ runtime @ '' is '' @ actual @ '' (expected)'')
                                   (''container runtime '' @ runtime @ '' is '' @ actual @ '', expected '' @ expected)) in
      checked [fail_if (runtime = []) ''container_runtime_check: runtime is required'']
       (case map_of runtimeSockets runtime of
          None \<Rightarrow> Inl ''container_runtime_check: unknown runtime %q (supported: docker, containerd, cri-o)''
        | Some socketPath \<Rightarrow>
            Inr (case h_Stat h socketPath of
                   Inr _ \<Rightarrow> answer ''available''
                 | Inl e \<Rightarrow> if IsNotExist e then answer ''not_available''
                            else error_result h (''failed to stat '' @ socketPath @ '': '' @ io_text e))))"

subsection \<open>Where the checks read\<close>

text \<open>A path below a directory, and a machine that shows only files below it.\<close>

definition below :: "string \<Rightarrow> string \<Rightarrow> bool" where
  "below dir p = (HasPrefix p dir \<and> ''..'' \<notin> set (split_on (CHR ''/'') p))"

definition confine :: "string \<Rightarrow> machine \<Rightarrow> machine" where
  "confine dir h =
     \<lparr>h_ReadFile = (\<lambda>p. if below dir p then h_ReadFile h p else Inl (IoError ''confined'')),
      h_Open = (\<lambda>p. if below dir p then h_Open h p else Inl (IoError ''confined'')),
      h_Stat = (\<lambda>p. Inl (IoError ''confined'')), h_Lstat = (\<lambda>p. Inl (IoError ''confined'')),
      h_Output = (\<lambda>c. ([], Some (ExecError ''confined''))), h_Uname = Inl ''confined'', h_since = h_since h,
      h_fmt_float = h_fmt_float h\<rparr>"

lemma split_on_Contains: "w \<in> set (split_on c s) \<Longrightarrow> Contains s w"
proof (induction s arbitrary: w)
  case (Cons x s)
  obtain u us where u: "split_on c s = u # us" by (cases "split_on c s") auto
  show ?case
  proof (cases "x = c")
    case False
    have "\<exists>t. s = u @ t" using join_split_on [of c s] u by (cases us) auto
    then have "HasPrefix (x # s) (x # u)" by (auto simp: HasPrefix_iff)
    moreover have "w = x # u \<or> w \<in> set (split_on c s)" using Cons.prems False u by auto
    ultimately show ?thesis using Cons.IH by auto
  qed (use Cons in \<open>auto simp: HasPrefix_def\<close>)
qed simp

lemma below_append:
  assumes "\<not> Contains f ''..''" "dir = d @ ''/''" "''..'' \<notin> set (split_on (CHR ''/'') d)"
  shows "below dir (dir @ f)"
  using assms split_on_Contains [of "''..''" "CHR ''/''" f] split_on_append [of "CHR ''/''" d f]
  by (auto simp: below_def HasPrefix_def)

lemma below_Clean:
  assumes "IsAbs p" "HasPrefix (path_Clean p) dir"
  shows "below dir (path_Clean p)"
proof -
  have "''..'' \<notin> set (split_on (CHR ''/'') (join_with ''/'' (abs_comps p)))"
  proof (cases "abs_comps p = []")
    case False
    then have "split_on (CHR ''/'') (join_with ''/'' (abs_comps p)) = abs_comps p"
      using abs_comps_plain(2) by (rule split_join)
    then show ?thesis using abs_comps_plain(1) [of p] by (auto simp: list_all_iff plain_comp_def)
  qed simp
  then show ?thesis using assms by (simp add: below_def Clean_abs)
qed

lemma checked_cong: "(first_err es = None \<Longrightarrow> a = b) \<Longrightarrow> checked es a = checked es b"
  by (cases "first_err es") (simp_all add: checked_def)

lemma params_cong: "(\<And>p. f p = g p) \<Longrightarrow> params_of z raw m f = params_of z raw m g"
  by (simp add: params_of_def split: option.split)

lemma results_confined [simp]:
  "error_result (confine dir h) m = error_result h m" "compared (confine dir h) a e p f = compared h a e p f"
  "new_result (confine dir h) s a e m = new_result h s a e m"
  by (simp_all add: error_result_def compared_def new_result_def confine_def)

lemma reads_confined [simp]:
  "below dir p \<Longrightarrow> h_ReadFile (confine dir h) p = h_ReadFile h p" "below dir p \<Longrightarrow> h_Open (confine dir h) p = h_Open h p"
  by (simp_all add: confine_def)

lemma network_param_confined: "network_param_check (confine ''/proc/sys/'' h) raw = network_param_check h raw"
  unfolding network_param_check_def Let_def
proof (intro params_cong checked_cong, goal_cases)
  case (1 p)
  then have "below ''/proc/sys/'' (path_Clean (sysctlKeyToProcPath (str_of p ''key'')))"
    by (intro below_Clean) (auto simp: IsAbs_def sysctlKeyToProcPath_def HasPrefix_def)
  then show ?case by (simp split: sum.split)
qed

lemma cron_confined: "cron_check (confine ''/var/spool/cron/crontabs/'' h) raw = cron_check h raw"
  unfolding cron_check_def Let_def
proof (intro params_cong checked_cong, goal_cases)
  case (1 p)
  then have "below ''/var/spool/cron/crontabs/'' (''/var/spool/cron/crontabs/'' @ str_of p ''user'')"
    by (intro below_append [of _ _ "''/var/spool/cron/crontabs''"]) simp_all
  then have "countCronEntries (confine ''/var/spool/cron/crontabs/'' h) (str_of p ''user'') = countCronEntries h (str_of p ''user'')"
    by (simp only: countCronEntries_def Let_def reads_confined)
  then show ?case by (simp split: sum.split)
qed

lemma pam_confined: "pam_check (confine ''/etc/pam.d/'' h) raw = pam_check h raw"
  unfolding pam_check_def Let_def
proof (intro params_cong checked_cong, goal_cases)
  case (1 p)
  have "pamModuleInFile (confine ''/etc/pam.d/'' h) m f = pamModuleInFile h m f" for m f
  proof (cases "Contains (path_Clean f) ''..''")
    case False
    then have "below ''/etc/pam.d/'' (''/etc/pam.d/'' @ path_Clean f)"
      by (intro below_append [of _ _ "''/etc/pam.d''"]) simp_all
    then show ?thesis by (simp only: pamModuleInFile_def Let_def reads_confined)
  qed (simp add: pamModuleInFile_def)
  then show ?case by (simp split: sum.split)
qed

text \<open>C27: three checks stay in their directory: the check of a network parameter, of a crontab and of a PAM
  file, whatever parameters the platform sends, give on every machine the same answer as on one that shows
  nothing but the files below \<open>/proc/sys\<close>, \<open>/var/spool/cron/crontabs\<close> and \<open>/etc/pam.d\<close>, by paths without
  \<open>..\<close>.\<close>

theorem checks_stay_below:
  "network_param_check h raw = network_param_check (confine ''/proc/sys/'' h) raw
   \<and> cron_check h raw = cron_check (confine ''/var/spool/cron/crontabs/'' h) raw
   \<and> pam_check h raw = pam_check (confine ''/etc/pam.d/'' h) raw"
  by (simp only: network_param_confined cron_confined pam_confined)

lemma sysctl_dots:
  assumes "IsAbs f"
  shows "path_Clean (''/proc/sys/../..'' @ f) = path_Clean f"
proof -
  obtain t where f: "f = CHR ''/'' # t" using assms by (auto simp: IsAbs_def HasPrefix_iff)
  have "split_on (CHR ''/'') (''/proc/sys/../..'' @ f) = [[], ''proc'', ''sys'', ''..'', ''..''] @ split_on (CHR ''/'') t"
    using split_on_append [of "CHR ''/''" "''/proc/sys/../..''" t] by (simp add: f)
  then have "abs_comps (''/proc/sys/../..'' @ f) = abs_comps f" by (simp add: abs_comps_def f)
  then show ?thesis using Clean_abs [of "''/proc/sys/../..'' @ f"] Clean_abs [OF assms] by (simp add: IsAbs_def HasPrefix_def)
qed

text \<open>C40: a sysctl check reads any file: for every absolute and clean path f, a check of the path
  \<open>/proc/sys/../..\<close> followed by f passes the test of the prefix, names the file f, and reports the
  contents of that file, without the white space around them, to the platform.\<close>

theorem sysctl_reads_anywhere:
  assumes "IsAbs f" "path_Clean f = f"
    and "Unmarshal [(''path'', FStr []), (''expected'', FStr [])] raw = Some p"
    and "str_of p ''path'' = ''/proc/sys/../..'' @ f"
    and "h_ReadFile h (''/proc/sys/../..'' @ f) = Inr data"
  shows "path_Clean (''/proc/sys/../..'' @ f) = f
    \<and> (\<exists>r. sysctl_check h raw = Inr r \<and> cr_ActualValue r = TrimSpace data)"
proof
  show "path_Clean (''/proc/sys/../..'' @ f) = f" using assms(1,2) by (simp only: sysctl_dots)
  show "\<exists>r. sysctl_check h raw = Inr r \<and> cr_ActualValue r = TrimSpace data"
    unfolding sysctl_check_def params_of_def using assms(3-5)
    by (simp add: checked_def Let_def fail_if_def HasPrefix_def compared_def new_result_def first_err.simps)
qed

definition leaky :: machine where
  "leaky = \<lparr>h_ReadFile = (\<lambda>p. if path_Clean p = ''/etc/shadow'' then Inr ''root:$6$x:1:'' else Inl (NotExist [])),
     h_Open = (\<lambda>_. Inl (NotExist [])), h_Stat = (\<lambda>_. Inl (NotExist [])), h_Lstat = (\<lambda>_. Inl (NotExist [])),
     h_Output = (\<lambda>_. ([], None)), h_Uname = Inr [], h_since = 1, h_fmt_float = (\<lambda>_. [])\<rparr>"

theorem sysctl_reads_anywhere_witness:
  "\<exists>r. sysctl_check leaky (''{'' @ Quote ''path'' @ '': '' @ Quote ''/proc/sys/../../etc/shadow'' @ ''}'') = Inr r \<and> cr_ActualValue r = ''root:$6$x:1:''"
proof -
  let ?p = "[(''path'', FStr ''/proc/sys/../../etc/shadow''), (''expected'', FStr [])]"
  have "Unmarshal [(''path'', FStr []), (''expected'', FStr [])] (''{'' @ Quote ''path'' @ '': '' @ Quote ''/proc/sys/../../etc/shadow'' @ ''}'') = Some ?p"
    by code_simp
  moreover have "h_ReadFile leaky (''/proc/sys/../..'' @ ''/etc/shadow'') = Inr ''root:$6$x:1:''" by code_simp
  moreover have "TrimSpace ''root:$6$x:1:'' = ''root:$6$x:1:''" "IsAbs ''/etc/shadow''" "path_Clean ''/etc/shadow'' = ''/etc/shadow''"
    "str_of ?p ''path'' = ''/proc/sys/../..'' @ ''/etc/shadow''" by code_simp+
  ultimately show ?thesis
    using sysctl_reads_anywhere [of "''/etc/shadow''" _ ?p leaky "''root:$6$x:1:''"] by metis
qed

subsection \<open>What a result says\<close>

definition verdict :: "bool \<Rightarrow> CheckResult \<Rightarrow> bool" where
  "verdict compares r \<longleftrightarrow> cr_Severity r = SeverityInfo \<and>
     (case cr_Status r of
        StatusPass \<Rightarrow> compares \<longrightarrow> cr_ActualValue r = cr_ExpectedValue r
      | StatusFail \<Rightarrow> cr_ActualValue r \<noteq> cr_ExpectedValue r \<or> cr_ActualValue r = ''key_not_found''
      | StatusError \<Rightarrow> True
      | _ \<Rightarrow> False)"

definition sound :: "bool \<Rightarrow> CheckResult result \<Rightarrow> bool" where
  "sound compares x = (case x of Inl e \<Rightarrow> True | Inr r \<Rightarrow> verdict compares r)"

lemma verdicts [simp]:
  "verdict b (compared h a e p f)" "verdict b (error_result h m)" "verdict False (new_result h StatusPass a e m)"
  "verdict b (new_result h StatusPass a a m)" "verdict b (new_result h StatusFail ''key_not_found'' e m)"
  "a \<noteq> e \<Longrightarrow> verdict b (new_result h StatusFail a e m)"
  by (simp_all add: verdict_def compared_def error_result_def new_result_def)

lemma sound_simps [simp]: "sound b (Inl e)" "sound b (Inr r) = verdict b r"
  by (simp_all add: sound_def)

lemma sound_checked: "sound b r \<Longrightarrow> sound b (checked es r)"
  by (simp add: checked_def split: option.split)

lemma sound_params: "(\<And>p. sound b (k p)) \<Longrightarrow> sound b (params_of z raw m k)"
  by (simp add: params_of_def split: option.split)

lemma sticky_differ:
  "a @ '' (sticky='' @ (if s then ''present'' else ''absent'') @ '')'' \<noteq> e @ '' (sticky='' @ fmt_bool b @ '')''"
  by (cases s; cases b) (auto simp: fmt_bool_def dest!: arg_cong [where f = rev])

lemma verdict_sticky:
  "verdict c (new_result h StatusFail (a @ '' (sticky='' @ (if s then ''present'' else ''absent'') @ '')'')
     (e @ '' (sticky='' @ fmt_bool b @ '')'') m)"
  by (intro verdicts(6) sticky_differ)

lemmas sound_intros = sound_params sound_checked

lemma kernel_sound:
  "sound True (boot_param_check h raw)"
  "sound True (kernel_module_check h raw)"
  "sound False (kernel_version_check h raw)"
  "sound True (sysctl_check h raw)"
proof -
  show "sound True (boot_param_check h raw)"
    unfolding boot_param_check_def Let_def
    by (intro sound_intros, simp split: sum.split)
  show "sound True (kernel_module_check h raw)"
    unfolding kernel_module_check_def Let_def
    by (intro sound_intros, simp split: sum.split)
  show "sound False (kernel_version_check h raw)"
    unfolding kernel_version_check_def Let_def
    by (simp split: sum.split)
  show "sound True (sysctl_check h raw)"
    unfolding sysctl_check_def Let_def
    by (intro sound_intros, simp split: sum.split)
qed

lemma filesystem_sound:
  "sound True (dir_perm_check h raw)"
  "sound True (file_exist_check h raw)"
  "sound True (file_perm_check h raw)"
  "sound True (mount_option_check h raw)"
proof -
  show "sound True (dir_perm_check h raw)"
    unfolding dir_perm_check_def Let_def
    by (intro sound_intros)
       (simp only: sound_simps if_distrib [of "verdict True"] verdicts verdict_sticky if_cancel simp_thms split: sum.split option.split)
  show "sound True (file_exist_check h raw)"
    unfolding file_exist_check_def Let_def
    by (intro sound_intros, simp split: sum.split)
  show "sound True (file_perm_check h raw)"
    unfolding file_perm_check_def Let_def
    by (intro sound_intros, simp split: sum.split)
  show "sound True (mount_option_check h raw)"
    unfolding mount_option_check_def Let_def
    by (intro sound_intros, simp split: sum.split)
qed

lemma network_sound:
  "sound True (iptables_check h raw)"
  "sound True (network_param_check h raw)"
  "sound True (port_check h raw)"
  "sound True (ssh_config_check h raw)"
proof -
  show "sound True (iptables_check h raw)"
    unfolding iptables_check_def Let_def
    by (intro sound_intros, simp split: sum.split)
  show "sound True (network_param_check h raw)"
    unfolding network_param_check_def Let_def
    by (intro sound_intros, simp split: sum.split)
  show "sound True (port_check h raw)"
    unfolding port_check_def Let_def
    by (intro sound_intros, simp split: sum.split)
  show "sound True (ssh_config_check h raw)"
    unfolding ssh_config_check_def Let_def
    by (intro sound_intros, simp split: sum.split)
qed

lemma service_sound:
  "sound False (cron_check h raw)"
  "sound True (pam_check h raw)"
  "sound True (service_check h raw)"
  "sound True (user_check h raw)"
proof -
  show "sound False (cron_check h raw)"
    unfolding cron_check_def Let_def
    by (intro sound_intros, simp split: sum.split)
  show "sound True (pam_check h raw)"
    unfolding pam_check_def Let_def
    by (intro sound_intros, simp split: sum.split)
  show "sound True (service_check h raw)"
    unfolding service_check_def Let_def
    by (intro sound_intros, simp split: sum.split prod.split)
  show "sound True (user_check h raw)"
    unfolding user_check_def Let_def checkExists_def checkLocked_def
    by (intro sound_intros, simp split: sum.split)
qed

lemma container_sound:
  "sound True (cgroup_check h raw)"
  "sound True (containerd_check h raw)"
  "sound True (docker_check h raw)"
  "sound True (container_runtime_check h raw)"
proof -
  show "sound True (cgroup_check h raw)"
    unfolding cgroup_check_def Let_def
    by (simp split: sum.split)
  show "sound True (containerd_check h raw)"
    unfolding containerd_check_def Let_def
    by (intro sound_intros, simp split: sum.split option.split)
  show "sound True (docker_check h raw)"
    unfolding docker_check_def Let_def
    by (intro sound_intros, simp split: sum.split option.split)
  show "sound True (container_runtime_check h raw)"
    unfolding container_runtime_check_def Let_def
    by (intro sound_intros, simp split: sum.split option.split)
qed

subsection \<open>What two checks do not see\<close>

text \<open>The mode of a file leaves out the setuid bit, which the mode of a directory shows.\<close>

lemma file_perm_no_setuid: "Perm (m OR ModeSetuid) = Perm m"
  by (simp add: Perm_def ModeSetuid_def bit.conj_disj_distrib2)

lemma dir_mode_setuid: "formatDirMode 493 = ''0755''" "formatDirMode (493 OR ModeSetuid) = ''4755''"
  by (simp_all add: formatDirMode_def Perm_def ModeSetuid_def ModeSetgid_def ModeSticky_def fmt_04o_def digit_def) code_simp+

text \<open>A line of \<open>sshd_config\<close> with a tab after its keyword is not seen.\<close>

lemma sshd_tab_unseen: "sshd_line ''permitrootlogin'' (''PermitRootLogin'' @ [CHR 0x09] @ ''yes'') val = val"
proof -
  have "TrimSpace (''PermitRootLogin'' @ [CHR 0x09] @ ''yes'') = ''PermitRootLogin'' @ [CHR 0x09] @ ''yes''" by code_simp
  then show ?thesis by (simp add: sshd_line_def HasPrefix_def)
qed

end
