(* ===== verification/Check_Executor.thy ===== *)
theory Check_Executor
imports Checks Agent_Tasks
begin

text \<open>
  The registry and the executor of the compliance checks, and what the agent does with them:
  \<open>checker/registry.go\<close>, \<open>executor.go\<close> and the conversions of \<open>types.go\<close>, the capabilities an agent
  registers with and the messages its health check handler sends (\<open>app/agent.go\<close>).
\<close>

subsection \<open>Registry\<close>

record Checker =
  ck_Type :: string
  ck_Category :: string
  ck_Check :: check

type_synonym Registry = "Checker gomap"

definition chk_Register :: "Checker \<Rightarrow> Registry \<Rightarrow> Registry" where
  "chk_Register c r = map_put (ck_Type c) c r"

definition chk_Get :: "Registry \<Rightarrow> string \<Rightarrow> Checker option" where
  "chk_Get r typ = map_of r typ"

definition chk_Types :: "Registry \<Rightarrow> string list" where
  "chk_Types r = map fst r"

text \<open>The \<open>init\<close> functions of the subpackages.\<close>

definition checkers :: "Checker list" where
  "checkers = map (\<lambda>(t, c, f). \<lparr>ck_Type = t, ck_Category = c, ck_Check = f\<rparr>)
     [(''cgroup_check'', ''container'', cgroup_check), (''containerd_check'', ''container'', containerd_check),
      (''docker_check'', ''container'', docker_check), (''container_runtime_check'', ''container'', container_runtime_check),
      (''dir_perm_check'', ''filesystem'', dir_perm_check), (''file_exist_check'', ''filesystem'', file_exist_check),
      (''file_perm_check'', ''filesystem'', file_perm_check), (''mount_option_check'', ''filesystem'', mount_option_check),
      (''boot_param_check'', ''kernel'', boot_param_check), (''kernel_module_check'', ''kernel'', kernel_module_check),
      (''kernel_version_check'', ''kernel'', kernel_version_check), (''sysctl_check'', ''kernel'', sysctl_check),
      (''iptables_check'', ''network'', iptables_check), (''network_param_check'', ''network'', network_param_check),
      (''port_check'', ''network'', port_check), (''ssh_config_check'', ''network'', ssh_config_check),
      (''cron_check'', ''service'', cron_check), (''pam_check'', ''service'', pam_check),
      (''service_check'', ''service'', service_check), (''user_check'', ''service'', user_check)]"

definition DefaultRegistry :: Registry where
  "DefaultRegistry = fold chk_Register checkers []"

text \<open>The capabilities an agent names when it registers with the platform.\<close>

definition agent_capabilities :: "Registry \<Rightarrow> string list" where
  "agent_capabilities reg = ''health_check'' # map (\<lambda>typ. ''checker:'' @ typ) (chk_Types reg)"

subsection \<open>Messages\<close>

record CheckItem =
  ci_Id :: string
  ci_Type :: string
  ci_Name :: string
  ci_Params :: string
  ci_Severity :: int

record HealthCheckRequest =
  hr_RequestId :: string
  hr_Items :: "CheckItem list"

record pb_CheckResult =
  pc_ItemId :: string
  pc_Type :: string
  pc_Name :: string
  pc_Status :: int
  pc_ActualValue :: string
  pc_ExpectedValue :: string
  pc_Message :: string
  pc_Remediation :: string
  pc_Severity :: int
  pc_DurationMs :: int

record CheckSummary =
  cs_Total :: int
  cs_Pass :: int
  cs_Fail :: int
  cs_Warn :: int
  cs_Error :: int
  cs_Skip :: int
  cs_TotalDurationMs :: int

record HealthCheckResult =
  hc_RequestId :: string
  hc_Results :: "pb_CheckResult list"
  hc_Summary :: "CheckSummary option"
  hc_Completed :: bool

fun status_ToProto :: "CheckStatus \<Rightarrow> int" where
  "status_ToProto StatusPass = 0"
| "status_ToProto StatusFail = 1"
| "status_ToProto StatusWarn = 2"
| "status_ToProto StatusError = 3"
| "status_ToProto StatusSkip = 4"

definition severity_ToProto :: "CheckSeverity \<Rightarrow> int" where
  "severity_ToProto s = (if 0 \<le> s \<and> s \<le> 4 then s else 0)"

definition Milliseconds :: "duration \<Rightarrow> int" where
  "Milliseconds d = quot64 d Millisecond"

definition result_ToProto :: "CheckResult \<Rightarrow> pb_CheckResult" where
  "result_ToProto r =
     \<lparr>pc_ItemId = cr_ItemID r, pc_Type = cr_Type r, pc_Name = cr_Name r, pc_Status = status_ToProto (cr_Status r),
      pc_ActualValue = cr_ActualValue r, pc_ExpectedValue = cr_ExpectedValue r, pc_Message = cr_Message r,
      pc_Remediation = cr_Remediation r, pc_Severity = severity_ToProto (cr_Severity r),
      pc_DurationMs = Milliseconds (cr_Duration r)\<rparr>"

definition inc32 :: "int \<Rightarrow> int" where "inc32 n = wrap32 (n + 1)"

definition tally_result :: "CheckResult \<Rightarrow> CheckSummary \<Rightarrow> CheckSummary" where
  "tally_result r s =
     (case cr_Status r of
        StatusPass \<Rightarrow> s\<lparr>cs_Pass := inc32 (cs_Pass s)\<rparr>
      | StatusFail \<Rightarrow> s\<lparr>cs_Fail := inc32 (cs_Fail s)\<rparr>
      | StatusWarn \<Rightarrow> s\<lparr>cs_Warn := inc32 (cs_Warn s)\<rparr>
      | StatusError \<Rightarrow> s\<lparr>cs_Error := inc32 (cs_Error s)\<rparr>
      | StatusSkip \<Rightarrow> s\<lparr>cs_Skip := inc32 (cs_Skip s)\<rparr>)"

definition BuildSummary :: "CheckResult list \<Rightarrow> duration \<Rightarrow> CheckSummary" where
  "BuildSummary results totalDuration =
     fold tally_result results
       \<lparr>cs_Total = wrap32 (int (length results)), cs_Pass = 0, cs_Fail = 0, cs_Warn = 0, cs_Error = 0, cs_Skip = 0,
        cs_TotalDurationMs = Milliseconds totalDuration\<rparr>"

subsection \<open>Executor\<close>

definition failed_item :: "CheckItem \<Rightarrow> string \<Rightarrow> duration \<Rightarrow> CheckResult" where
  "failed_item item msg since =
     \<lparr>cr_ItemID = ci_Id item, cr_Type = ci_Type item, cr_Name = ci_Name item, cr_Status = StatusError, cr_ActualValue = [],
      cr_ExpectedValue = [], cr_Message = msg, cr_Remediation = [], cr_Severity = ci_Severity item, cr_Duration = since\<rparr>"

definition executeOne :: "Registry \<Rightarrow> machine \<Rightarrow> duration \<Rightarrow> CheckItem \<Rightarrow> CheckResult" where
  "executeOne reg h since item =
     (case chk_Get reg (ci_Type item) of
        None \<Rightarrow> failed_item item (''unknown checker type: '' @ ci_Type item) since
      | Some c \<Rightarrow>
          (case ck_Check c h (ci_Params item) of
             Inl e \<Rightarrow> failed_item item (''check execution error: '' @ e) since
           | Inr result \<Rightarrow>
               result\<lparr>cr_ItemID := ci_Id item, cr_Type := ci_Type item, cr_Name := ci_Name item,
                      cr_Duration := if cr_Duration result = 0 then since else cr_Duration result\<rparr>))"

text \<open>
  The messages \<open>Execute\<close> gives to its callback, in order, and its error. The i-th item finds the
  machine \<open>fst (env i)\<close> and takes \<open>snd (env i)\<close>. The time limit of the request ends commands that run
  for too long, which is an answer of the machine.
\<close>

definition chk_Execute :: "Registry \<Rightarrow> (nat \<Rightarrow> machine \<times> duration) \<Rightarrow> duration \<Rightarrow> HealthCheckRequest \<Rightarrow> err \<times> HealthCheckResult list" where
  "chk_Execute reg env total_time req =
     (let results = map (\<lambda>(i, item). executeOne reg (fst (env i)) (snd (env i)) item) (List.enumerate 0 (hr_Items req));
          protoResults = map result_ToProto results
      in (None,
          map (\<lambda>r. \<lparr>hc_RequestId = hr_RequestId req, hc_Results = [r], hc_Summary = None, hc_Completed = False\<rparr>) protoResults
          @ [\<lparr>hc_RequestId = hr_RequestId req, hc_Results = protoResults,
               hc_Summary = Some (BuildSummary results total_time), hc_Completed = True\<rparr>]))"

text \<open>The health check handler of the agent: what it sends, its error and the state after it.\<close>

definition health_check_request :: "Config \<Rightarrow> (nat \<Rightarrow> machine \<times> duration) \<Rightarrow> duration \<Rightarrow> HealthCheckRequest \<Rightarrow> agent_run
    \<Rightarrow> HealthCheckResult list \<times> err \<times> agent_run" where
  "health_check_request cfg env total_time req st =
     (let out = chk_Execute DefaultRegistry env total_time req
      in (if ar_shuttingDown st \<or> \<not> chk_Enabled (cfg_Checker cfg) then [] else snd out,
          health_request_handler cfg (fst out) (hr_RequestId req) st))"

subsection \<open>Every item is answered\<close>

definition count_status :: "CheckStatus \<Rightarrow> CheckResult list \<Rightarrow> int" where
  "count_status s rs = int (length (filter (\<lambda>r. cr_Status r = s) rs))"

lemma inc32_add: "inc32 (wrap32 a) = wrap32 (a + 1)"
  by (simp add: inc32_def wrap32_def mod_simps algebra_simps)

lemma wrap32_id: "0 \<le> x \<Longrightarrow> x < 2 ^ 31 \<Longrightarrow> wrap32 x = x"
  by (simp add: wrap32_def)

lemma count_status_simps [simp]:
  "count_status s [] = 0" "count_status s (r # rs) = (if cr_Status r = s then 1 else 0) + count_status s rs"
  by (simp_all add: count_status_def)

lemma count_fold:
  "fold tally_result rs \<lparr>cs_Total = t, cs_Pass = wrap32 p, cs_Fail = wrap32 f, cs_Warn = wrap32 w, cs_Error = wrap32 e,
     cs_Skip = wrap32 k, cs_TotalDurationMs = d\<rparr>
   = \<lparr>cs_Total = t, cs_Pass = wrap32 (p + count_status StatusPass rs), cs_Fail = wrap32 (f + count_status StatusFail rs),
      cs_Warn = wrap32 (w + count_status StatusWarn rs), cs_Error = wrap32 (e + count_status StatusError rs),
      cs_Skip = wrap32 (k + count_status StatusSkip rs), cs_TotalDurationMs = d\<rparr>"
proof (induction rs arbitrary: p f w e k)
  case (Cons r rs)
  show ?case by (cases "cr_Status r") (simp_all add: tally_result_def [of r] inc32_add Cons.IH add.assoc)
qed simp

lemma count_status_bounds: "0 \<le> count_status s rs" "count_status s rs \<le> int (length rs)"
  by (simp_all add: count_status_def)

lemma count_status_total:
  "count_status StatusPass rs + count_status StatusFail rs + count_status StatusWarn rs + count_status StatusError rs
   + count_status StatusSkip rs = int (length rs)"
proof (induction rs)
  case (Cons r rs)
  then show ?case by (cases "cr_Status r") simp_all
qed simp

lemma BuildSummary_counts:
  assumes "length rs < 2 ^ 31"
  shows "BuildSummary rs d = \<lparr>cs_Total = int (length rs), cs_Pass = count_status StatusPass rs, cs_Fail = count_status StatusFail rs,
    cs_Warn = count_status StatusWarn rs, cs_Error = count_status StatusError rs, cs_Skip = count_status StatusSkip rs,
    cs_TotalDurationMs = Milliseconds d\<rparr>"
proof -
  have w: "wrap32 (count_status s rs) = count_status s rs" for s
    using count_status_bounds [of s rs] assms by (intro wrap32_id) auto
  have z: "wrap32 0 = 0" "wrap32 (int (length rs)) = int (length rs)" using assms by (auto intro: wrap32_id)
  show ?thesis
    using count_fold [of rs "int (length rs)" 0 0 0 0 0 "Milliseconds d"] by (simp add: BuildSummary_def z w)
qed

lemma status_zero: "pc_Status (result_ToProto r) = 0 \<longleftrightarrow> cr_Status r = StatusPass"
  by (cases "cr_Status r") (simp_all add: result_ToProto_def)

lemma executeOne_names:
  "cr_ItemID (executeOne reg h d item) = ci_Id item" "cr_Type (executeOne reg h d item) = ci_Type item"
  "cr_Name (executeOne reg h d item) = ci_Name item"
  by (simp_all add: executeOne_def failed_item_def split: option.split sum.split)

text \<open>C25: every item of a health check is answered: while the agent is not shutting down and the checker is
  enabled, the handler sends for a request of n items n + 1 messages with the identifier of the request. The
  i-th of the first n is not marked as the last one and has one result, with the identifier, the type and the
  name of the i-th item; the last one is marked, has the results of all the others in the same order, and its
  summary counts n results, which are those that passed, failed, warned, gave an error or were skipped.\<close>

theorem health_items_answered:
  assumes "\<not> ar_shuttingDown st" "chk_Enabled (cfg_Checker cfg)" "length (hr_Items req) < 2 ^ 31"
  shows "\<exists>msgs final sum e st'. health_check_request cfg env d req st = (msgs @ [final], e, st')
    \<and> length msgs = length (hr_Items req)
    \<and> list_all (\<lambda>m. hc_RequestId m = hr_RequestId req) (msgs @ [final])
    \<and> list_all2 (\<lambda>item m. \<not> hc_Completed m \<and> (\<exists>r. hc_Results m = [r] \<and> pc_ItemId r = ci_Id item
         \<and> pc_Type r = ci_Type item \<and> pc_Name r = ci_Name item)) (hr_Items req) msgs
    \<and> hc_Completed final \<and> hc_Results final = concat (map hc_Results msgs)
    \<and> hc_Summary final = Some sum \<and> cs_Total sum = int (length (hr_Items req))
    \<and> cs_Pass sum + cs_Fail sum + cs_Warn sum + cs_Error sum + cs_Skip sum = cs_Total sum
    \<and> cs_Pass sum = int (length (filter (\<lambda>r. pc_Status r = 0) (hc_Results final)))"
proof -
  define rs where "rs = map (\<lambda>(i, item). executeOne DefaultRegistry (fst (env i)) (snd (env i)) item) (List.enumerate 0 (hr_Items req))"
  have len: "length rs = length (hr_Items req)" by (simp add: rs_def)
  have names: "list_all2 (\<lambda>item r. cr_ItemID r = ci_Id item \<and> cr_Type r = ci_Type item \<and> cr_Name r = ci_Name item) (hr_Items req) rs"
    by (simp add: rs_def list_all2_conv_all_nth nth_enumerate_eq executeOne_names)
  define msg where "msg = (\<lambda>r. \<lparr>hc_RequestId = hr_RequestId req, hc_Results = [result_ToProto r], hc_Summary = None, hc_Completed = False\<rparr>)"
  let ?f = "\<lparr>hc_RequestId = hr_RequestId req, hc_Results = map result_ToProto rs, hc_Summary = Some (BuildSummary rs d), hc_Completed = True\<rparr>"
  obtain e st' where h: "health_check_request cfg env d req st = (map msg rs @ [?f], e, st')"
    using assms(1,2) unfolding health_check_request_def chk_Execute_def Let_def rs_def [symmetric]
    by (cases "health_request_handler cfg None (hr_RequestId req) st") (simp add: msg_def comp_def)
  have sum: "cs_Total (BuildSummary rs d) = int (length (hr_Items req))" "cs_Pass (BuildSummary rs d) = count_status StatusPass rs"
    "cs_Pass (BuildSummary rs d) + cs_Fail (BuildSummary rs d) + cs_Warn (BuildSummary rs d) + cs_Error (BuildSummary rs d)
      + cs_Skip (BuildSummary rs d) = cs_Total (BuildSummary rs d)"
    using assms(3) count_status_total [of rs] by (simp_all add: BuildSummary_counts len)
  have all: "concat (map hc_Results (map msg rs)) = map result_ToProto rs" by (induction rs) (simp_all add: msg_def)
  have pass: "int (length (filter (\<lambda>r. pc_Status r = 0) (map result_ToProto rs))) = count_status StatusPass rs"
    by (simp add: count_status_def filter_map comp_def status_zero)
  have each: "list_all2 (\<lambda>item m. \<not> hc_Completed m \<and> (\<exists>r. hc_Results m = [r] \<and> pc_ItemId r = ci_Id item
         \<and> pc_Type r = ci_Type item \<and> pc_Name r = ci_Name item)) (hr_Items req) (map msg rs)"
    unfolding list_all2_map2 using names by (rule list_all2_mono) (simp add: msg_def result_ToProto_def)
  show ?thesis
  proof (intro exI conjI)
    show "health_check_request cfg env d req st = (map msg rs @ [?f], e, st')" by (rule h)
    show "cs_Pass (BuildSummary rs d) = int (length (filter (\<lambda>r. pc_Status r = 0) (hc_Results ?f)))" using sum(2) pass by simp
  qed (use sum each all len in \<open>simp_all add: msg_def list_all_iff\<close>)
qed

definition quiet_machine :: machine where
  "quiet_machine = \<lparr>h_ReadFile = (\<lambda>p. if p = ''/proc/sys/net/ipv4/ip_forward'' then Inr (''0'' @ [CHR 0x0A]) else Inl (NotExist [])),
     h_Open = (\<lambda>_. Inl (NotExist [])), h_Stat = (\<lambda>_. Inl (NotExist [])), h_Lstat = (\<lambda>_. Inl (NotExist [])),
     h_Output = (\<lambda>_. ([], None)), h_Uname = Inr ''6.1.0'', h_since = 1, h_fmt_float = (\<lambda>_. [])\<rparr>"

definition example_item :: "string \<Rightarrow> CheckItem" where
  "example_item typ = \<lparr>ci_Id = ''c1'', ci_Type = typ, ci_Name = ''forwarding'',
     ci_Params = ''{'' @ Quote ''key'' @ '':'' @ Quote ''net.ipv4.ip_forward'' @ '','' @ Quote ''expected'' @ '':'' @ Quote ''0'' @ ''}'',
     ci_Severity = 3\<rparr>"

definition example_request :: HealthCheckRequest where
  "example_request = \<lparr>hr_RequestId = ''r1'', hr_Items = [example_item ''network_param_check'', example_item ''kernel_version_check'']\<rparr>"

theorem health_items_answered_witness:
  "\<exists>msgs final sum e st'. health_check_request (example_config\<lparr>cfg_Checker := (cfg_Checker example_config)\<lparr>chk_Enabled := True\<rparr>\<rparr>)
       (\<lambda>_. (quiet_machine, 1)) 2 example_request idle_run = (msgs @ [final], e, st')
     \<and> length msgs = 2 \<and> hc_Completed final \<and> hc_Summary final = Some sum \<and> cs_Total sum = 2"
proof -
  have n: "length (hr_Items example_request) = 2" by (simp add: example_request_def)
  have "\<not> ar_shuttingDown idle_run" by (simp add: idle_run_def)
  from health_items_answered [OF this, of "example_config\<lparr>cfg_Checker := (cfg_Checker example_config)\<lparr>chk_Enabled := True\<rparr>\<rparr>"
      example_request "\<lambda>_. (quiet_machine, 1)" 2]
  show ?thesis unfolding n by auto
qed

subsection \<open>What the executor reports of a check\<close>

lemma registry_ok: "map_ok DefaultRegistry"
proof -
  have "map_ok (fold chk_Register cs reg)" if "map_ok reg" for cs reg
    using that by (induction cs arbitrary: reg) (auto simp: chk_Register_def intro: inv_intros)
  then show ?thesis by (simp add: DefaultRegistry_def)
qed

lemma registry_sources: "chk_Get DefaultRegistry t = Some c \<Longrightarrow> c \<in> set checkers \<and> ck_Type c = t"
proof -
  have "map_of (fold chk_Register cs reg) t = Some c \<Longrightarrow> map_of reg t = Some c \<or> c \<in> set cs \<and> ck_Type c = t" for cs reg
  proof (induction cs arbitrary: reg)
    case (Cons x cs)
    from Cons.IH [of "chk_Register x reg"] Cons.prems show ?case by (auto simp: chk_Register_def split: if_splits)
  qed simp
  from this [of checkers "[]"] show "chk_Get DefaultRegistry t = Some c \<Longrightarrow> c \<in> set checkers \<and> ck_Type c = t"
    by (simp add: DefaultRegistry_def chk_Get_def)
qed

lemma registry_Get: "chk_Get DefaultRegistry t \<noteq> None \<longleftrightarrow> t \<in> set (chk_Types DefaultRegistry)"
  by (force simp: chk_Get_def chk_Types_def map_of_eq_None_iff)

definition plain_types :: "string list" where
  "plain_types = [''kernel_version_check'', ''cron_check'']"

lemma checkers_sound: "c \<in> set checkers \<Longrightarrow> sound (ck_Type c \<notin> set plain_types) (ck_Check c h raw)"
proof -
  have "list_all (\<lambda>c. sound (ck_Type c \<notin> set plain_types) (ck_Check c h raw)) checkers"
    by (simp add: checkers_def plain_types_def kernel_sound filesystem_sound network_sound service_sound container_sound)
  then show "c \<in> set checkers \<Longrightarrow> sound (ck_Type c \<notin> set plain_types) (ck_Check c h raw)" by (simp add: list_all_iff)
qed

lemma executeOne_cases:
  "cr_Status (executeOne DefaultRegistry h d item) = StatusError
   \<or> (\<exists>r. verdict (ci_Type item \<notin> set plain_types) r
        \<and> executeOne DefaultRegistry h d item = r\<lparr>cr_ItemID := ci_Id item, cr_Type := ci_Type item, cr_Name := ci_Name item,
             cr_Duration := if cr_Duration r = 0 then d else cr_Duration r\<rparr>)"
proof (cases "chk_Get DefaultRegistry (ci_Type item)")
  case (Some c)
  then have c: "c \<in> set checkers" "ck_Type c = ci_Type item" using registry_sources [OF Some] by blast+
  have sound: "sound (ci_Type item \<notin> set plain_types) (ck_Check c h (ci_Params item))"
    using checkers_sound [OF c(1), of h "ci_Params item"] unfolding c(2) .
  show ?thesis
  proof (cases "ck_Check c h (ci_Params item)")
    case (Inr r)
    then have "verdict (ci_Type item \<notin> set plain_types) r" using sound by simp
    with Some Inr show ?thesis by (intro disjI2 exI [of _ r]) (simp add: executeOne_def)
  qed (simp add: executeOne_def failed_item_def Some)
qed (simp add: executeOne_def failed_item_def)

text \<open>The types an agent offers to the platform are the ones it has a check for.\<close>

lemma capabilities_match: "''checker:'' @ t \<in> set (agent_capabilities DefaultRegistry) \<longleftrightarrow> chk_Get DefaultRegistry t \<noteq> None"
  using registry_Get [of t] by (auto simp: agent_capabilities_def)

text \<open>C26: the verdict of a check is the comparison it made: every item gives a result that passed, failed or is an
  error; one that passed has the expected value as its actual value, unless the type only reports a value (the
  kernel version and the cron entries), and one that failed has another value or did not find its key. The
  severity the platform asked for comes back only with an error: a check that passed or failed is reported with the
  severity info, whatever the item says.\<close>

theorem check_verdicts:
  assumes "r = executeOne DefaultRegistry h d item"
  shows "cr_Status r \<in> {StatusPass, StatusFail, StatusError}
    \<and> (cr_Status r = StatusPass \<and> ci_Type item \<notin> set plain_types \<longrightarrow> cr_ActualValue r = cr_ExpectedValue r)
    \<and> (cr_Status r = StatusFail \<longrightarrow> cr_ActualValue r \<noteq> cr_ExpectedValue r \<or> cr_ActualValue r = ''key_not_found'')
    \<and> (cr_Status r \<noteq> StatusError \<longrightarrow> severity_ToProto (cr_Severity r) = 0)"
  using executeOne_cases [of h d item]
proof
  assume "cr_Status (executeOne DefaultRegistry h d item) = StatusError"
  then show ?thesis by (simp add: assms)
next
  assume "\<exists>r. verdict (ci_Type item \<notin> set plain_types) r
    \<and> executeOne DefaultRegistry h d item = r\<lparr>cr_ItemID := ci_Id item, cr_Type := ci_Type item, cr_Name := ci_Name item,
        cr_Duration := if cr_Duration r = 0 then d else cr_Duration r\<rparr>"
  then obtain r' where v: "verdict (ci_Type item \<notin> set plain_types) r'" and
    r: "r = r'\<lparr>cr_ItemID := ci_Id item, cr_Type := ci_Type item, cr_Name := ci_Name item,
        cr_Duration := if cr_Duration r' = 0 then d else cr_Duration r'\<rparr>" unfolding assms by blast
  from v show ?thesis
    by (cases "cr_Status r'") (simp_all add: r verdict_def severity_ToProto_def SeverityInfo_def)
qed

lemma forwarding_checked:
  "executeOne DefaultRegistry quiet_machine 1 (example_item ''network_param_check'') =
     \<lparr>cr_ItemID = ''c1'', cr_Type = ''network_param_check'', cr_Name = ''forwarding'', cr_Status = StatusPass, cr_ActualValue = ''0'',
      cr_ExpectedValue = ''0'', cr_Message = ''network param net.ipv4.ip_forward = 0 (expected)'', cr_Remediation = [],
      cr_Severity = 0, cr_Duration = 1\<rparr>"
  by code_simp

theorem check_verdicts_witness:
  "\<exists>r. r = executeOne DefaultRegistry quiet_machine 1 (example_item ''network_param_check'') \<and> cr_Status r = StatusPass
     \<and> cr_ActualValue r = cr_ExpectedValue r \<and> ci_Severity (example_item ''network_param_check'') = 3
     \<and> severity_ToProto (cr_Severity r) = 0"
proof -
  let ?i = "example_item ''network_param_check''"
  have "ci_Type ?i \<notin> set plain_types" by (simp add: example_item_def plain_types_def)
  moreover have "cr_Status (executeOne DefaultRegistry quiet_machine 1 ?i) = StatusPass" by (simp add: forwarding_checked)
  ultimately show ?thesis
    using check_verdicts [of "executeOne DefaultRegistry quiet_machine 1 ?i" quiet_machine 1 ?i] by (simp add: example_item_def)
qed

end
