(* ===== verification/Tail_Input.thy ===== *)
theory Tail_Input
imports Go_Text Metrics Plugin_Manifest
begin

text \<open>
  The input that follows files (\<open>collector/inputs/tail\<close>): its configuration, the offsets it keeps, one
  round over its files, and the cursor files. The file system is a parameter: the matches of a glob
  pattern, the contents of a file with the error a read ends with, and the size \<open>Stat\<close> reports.
\<close>

record TailInput =
  tl_Files :: "string list"
  tl_WatchMethod :: string
  tl_FromBeginning :: bool
  tl_CursorPersistPath :: string
  tl_MaxLineBytes :: int
  tl_offsets :: "int gomap"

record Cursor =
  cu_Path :: string
  cu_Offset :: int
  cu_Inode :: int

subsection \<open>Configuration\<close>

text \<open>The conversion of a float64 to an int as amd64 does it.\<close>

definition int_of_f64 :: "float64 \<Rightarrow> int" where
  "int_of_f64 x = (case x of
     Fin r \<Rightarrow> (let i = (if r \<ge> 0 then \<lfloor>r\<rfloor> else \<lceil>r\<rceil>) in if - (2 ^ 63) \<le> i \<and> i < 2 ^ 63 then i else - (2 ^ 63))
   | _ \<Rightarrow> - (2 ^ 63))"

definition cfg_number :: "string \<Rightarrow> goval \<Rightarrow> int result" where
  "cfg_number msg v = (case v of GInt n \<Rightarrow> Inr n | GInt64 n \<Rightarrow> Inr n | GFloat64 x \<Rightarrow> Inr (int_of_f64 x) | _ \<Rightarrow> Inl msg)"

definition cfg_files :: "goval gomap \<Rightarrow> string list result" where
  "cfg_files cfg =
     (case map_of cfg ''files'' of
        None \<Rightarrow> Inr []
      | Some v \<Rightarrow> (case as_list v of None \<Rightarrow> Inl ''tail: files must be a list, got %T''
                   | Some vs \<Rightarrow> string_entries ''tail: file entry must be a string, got %T'' vs))"

definition cfg_watch :: "goval gomap \<Rightarrow> err" where
  "cfg_watch cfg =
     (case map_of cfg ''watch_method'' of
        None \<Rightarrow> None
      | Some v \<Rightarrow> (case as_string v of None \<Rightarrow> Some ''tail: watch_method must be a string, got %T''
                   | Some s \<Rightarrow> fail_if (s \<noteq> ''poll'') ''tail: unsupported watch_method %q (supported: poll)''))"

text \<open>
  \<open>entries\<close> are the files of the cursor directory in the order of their names, each with whether it
  is a directory and the cursor it decodes to; no entries where the directory cannot be read.
\<close>

definition loadPersistedCursors :: "(string \<times> bool \<times> Cursor option) list \<Rightarrow> int gomap \<Rightarrow> int gomap" where
  "loadPersistedCursors entries offsets =
     fold (\<lambda>(name, dir, c) m. if dir \<or> \<not> HasSuffix name ''.cursor'' then m
            else case c of None \<Rightarrow> m | Some cur \<Rightarrow> map_put (cu_Path cur) (cu_Offset cur) m) entries offsets"

definition tail_Init :: "(string \<Rightarrow> (string \<times> bool \<times> Cursor option) list) \<Rightarrow> goval gomap \<Rightarrow> TailInput result" where
  "tail_Init dir cfg =
     (case cfg_files cfg of
        Inl e \<Rightarrow> Inl e
      | Inr files \<Rightarrow>
          (case cfg_watch cfg of
             Some e \<Rightarrow> Inl e
           | None \<Rightarrow>
               (case (case map_of cfg ''from_beginning'' of None \<Rightarrow> Inr False | Some (GBool b) \<Rightarrow> Inr b
                        | Some _ \<Rightarrow> Inl ''tail: from_beginning must be a bool, got %T'') of
                  Inl e \<Rightarrow> Inl e
                | Inr fromBeginning \<Rightarrow>
                    (case (case map_of cfg ''cursor_persist_path'' of None \<Rightarrow> Inr [] | Some (GString s) \<Rightarrow> Inr s
                             | Some _ \<Rightarrow> Inl ''tail: cursor_persist_path must be a string, got %T'') of
                       Inl e \<Rightarrow> Inl e
                     | Inr persist \<Rightarrow>
                         (case (case map_of cfg ''max_line_bytes'' of None \<Rightarrow> Inr 65536
                                  | Some v \<Rightarrow> cfg_number ''tail: max_line_bytes must be a number, got %T'' v) of
                            Inl e \<Rightarrow> Inl e
                          | Inr maxLine \<Rightarrow>
                              Inr \<lparr>tl_Files = files, tl_WatchMethod = ''poll'', tl_FromBeginning = fromBeginning,
                                   tl_CursorPersistPath = persist, tl_MaxLineBytes = maxLine,
                                   tl_offsets = if persist = [] then [] else loadPersistedCursors (dir persist) []\<rparr>)))))"

subsection \<open>One round\<close>

record files =
  fs_Glob :: "string \<Rightarrow> string slice result"
  fs_Open :: "string \<Rightarrow> string + string \<times> err"
  fs_Stat :: "string \<Rightarrow> int result"
  fs_cancelled :: "string \<Rightarrow> err"

fun expandGlobs :: "files \<Rightarrow> string list \<Rightarrow> string list result" where
  "expandGlobs fs [] = Inr []"
| "expandGlobs fs (pattern # ps) =
     (case fs_Glob fs pattern of
        Inl e \<Rightarrow> Inl ''invalid glob %q: %w''
      | Inr matches \<Rightarrow>
          (case expandGlobs fs ps of
             Inl e \<Rightarrow> Inl e
           | Inr rest \<Rightarrow> Inr ((case matches of None \<Rightarrow> [pattern] | Some ms \<Rightarrow> ms) @ rest)))"

definition line_metric :: "string \<Rightarrow> time \<Rightarrow> string \<Rightarrow> accumulator \<Rightarrow> accumulator" where
  "line_metric path now line acc = AddGauge now ''tail'' [(''file'', path)] [(''message'', GString line)] acc"

definition max_line :: "TailInput \<Rightarrow> nat" where
  "max_line t = (if tl_MaxLineBytes t > 0 then nat (tl_MaxLineBytes t) else 65536)"

definition offset_of :: "TailInput \<Rightarrow> string \<Rightarrow> int" where
  "offset_of t path = (case map_of (tl_offsets t) path of None \<Rightarrow> 0 | Some n \<Rightarrow> n)"

definition set_offset :: "string \<Rightarrow> int \<Rightarrow> TailInput \<Rightarrow> TailInput" where
  "set_offset path n t = t\<lparr>tl_offsets := map_put path n (tl_offsets t)\<rparr>"

definition gatherFile :: "files \<Rightarrow> time \<Rightarrow> string \<Rightarrow> TailInput \<times> accumulator \<Rightarrow> err \<times> TailInput \<times> accumulator" where
  "gatherFile fs now path s =
     (let t = fst s; acc = snd s in
      case fs_Open fs path of
        Inl e \<Rightarrow> (Some (''tail: open %s: '' @ e), s)
      | Inr (data, rd) \<Rightarrow>
          (let offset = offset_of t path in
           if \<not> tl_FromBeginning t \<and> offset = 0 then
             (case fs_Stat fs path of
                Inl e \<Rightarrow> (Some (''tail: stat %s: '' @ e), s)
              | Inr sz \<Rightarrow> (None, set_offset path sz t, acc))
           else if offset < 0 then (Some ''tail: seek %s: invalid argument'', s)
           else
             (case Scan_max (max_line t) (drop (nat offset) data, rd) of
                (lines, e) \<Rightarrow>
                  (let acc' = fold (line_metric path now) lines acc
                   in case e of
                        Some m \<Rightarrow> (Some (''tail: scan %s: '' @ m), t, acc')
                      | None \<Rightarrow> (None, set_offset path (max offset (int (length data))) t, acc')))))"

fun gather_files :: "files \<Rightarrow> time \<Rightarrow> string list \<Rightarrow> TailInput \<times> accumulator \<Rightarrow> err \<times> TailInput \<times> accumulator" where
  "gather_files fs now [] s = (None, s)"
| "gather_files fs now (path # ps) s =
     (case fs_cancelled fs path of
        Some e \<Rightarrow> (Some e, s)
      | None \<Rightarrow> (case gatherFile fs now path s of
                   (Some e, s') \<Rightarrow> (Some e, s')
                 | (None, s') \<Rightarrow> gather_files fs now ps s'))"

definition sanitizePath :: "string \<Rightarrow> string" where
  "sanitizePath path = map (\<lambda>c. if c = CHR ''/'' \<or> c = CHR '':'' \<or> c = CHR '' '' then CHR ''_'' else c) path"

definition cursorFilename :: "string \<Rightarrow> string \<Rightarrow> string" where
  "cursorFilename cursorDir filePath = path_Join [cursorDir, sanitizePath filePath @ ''.cursor'']"

text \<open>\<open>saved\<close> says which cursor files can be written; the map of written files is the result.\<close>

definition save_cursors :: "(string \<Rightarrow> bool) \<Rightarrow> TailInput \<Rightarrow> Cursor gomap \<Rightarrow> Cursor gomap" where
  "save_cursors saved t disk =
     fold (\<lambda>(path, offset) d. let f = cursorFilename (tl_CursorPersistPath t) path
             in if saved f then map_put f \<lparr>cu_Path = path, cu_Offset = offset, cu_Inode = 0\<rparr> d else d) (tl_offsets t) disk"

definition tail_Gather :: "files \<Rightarrow> (string \<Rightarrow> bool) \<Rightarrow> time \<Rightarrow> TailInput \<Rightarrow> accumulator \<Rightarrow> Cursor gomap
    \<Rightarrow> err \<times> TailInput \<times> accumulator \<times> Cursor gomap" where
  "tail_Gather fs saved now t acc disk =
     (case expandGlobs fs (tl_Files t) of
        Inl e \<Rightarrow> (Some (''tail: expanding globs: '' @ e), t, acc, disk)
      | Inr paths \<Rightarrow>
          (case gather_files fs now paths (t, acc) of
             (Some e, t', acc') \<Rightarrow> (Some e, t', acc', disk)
           | (None, t', acc') \<Rightarrow>
               (None, t', acc', if tl_CursorPersistPath t' = [] then disk else save_cursors saved t' disk)))"

subsection \<open>Following a file\<close>

text \<open>A file of complete lines, the messages of the metrics a round gives, and rounds on a file that grows.\<close>

definition lines_text :: "string list \<Rightarrow> string" where
  "lines_text ls = concat (map (\<lambda>l. l @ [CHR 0x0A]) ls)"

definition plain_line :: "nat \<Rightarrow> string \<Rightarrow> bool" where
  "plain_line m l \<longleftrightarrow> CHR 0x0A \<notin> set l \<and> \<not> HasSuffix l [CHR 0x0D] \<and> length l < m"

definition one_file :: "string \<Rightarrow> files" where
  "one_file data = \<lparr>fs_Glob = (\<lambda>_. Inr None), fs_Open = (\<lambda>_. Inr (data, None)), fs_Stat = (\<lambda>_. Inr (int (length data))),
     fs_cancelled = (\<lambda>_. None)\<rparr>"

definition tail_messages :: "Metric list \<Rightarrow> goval list" where
  "tail_messages ms = map (\<lambda>m. the (map_of (Fields m) ''message'')) ms"

fun tail_rounds :: "string \<Rightarrow> time \<Rightarrow> int \<Rightarrow> string list \<Rightarrow> string \<Rightarrow> TailInput \<Rightarrow> goval list \<times> TailInput" where
  "tail_rounds path now room [] data t = ([], t)"
| "tail_rounds path now room (c # cs) data t =
     (case gatherFile (one_file (data @ c)) now path (t, \<lparr>acc_metrics = [], acc_maxSize = room\<rparr>) of
        (e, t', acc) \<Rightarrow> (case tail_rounds path now room cs (data @ c) t' of
                           (ms, t'') \<Rightarrow> (tail_messages (acc_metrics acc) @ ms, t'')))"

lemma split_line: "CHR 0x0A \<notin> set l \<Longrightarrow> split_on (CHR 0x0A) (l @ CHR 0x0A # s) = l # split_on (CHR 0x0A) s"
  using split_on_append [of "CHR 0x0A" l s] by (simp add: split_on_noc)

lemma text_lines_cons: "CHR 0x0A \<notin> set l \<Longrightarrow> text_lines (l @ CHR 0x0A # s) = l # text_lines s"
  by (simp add: text_lines_def split_line Let_def)

lemma text_lines_text: "\<forall>l \<in> set ls. CHR 0x0A \<notin> set l \<Longrightarrow> text_lines (lines_text ls @ s) = ls @ text_lines s"
  by (induction ls) (simp_all add: lines_text_def text_lines_cons)

lemma text_lines_nil [simp]: "text_lines [] = []"
  by (simp add: text_lines_def)

lemma drop_cr_id: "\<not> HasSuffix l [CHR 0x0D] \<Longrightarrow> drop_cr l = l"
  by (simp add: drop_cr_def TrimSuffix_def)



lemma offset_set [simp]: "offset_of (set_offset path n t) path = n" "tl_FromBeginning (set_offset path n t) = tl_FromBeginning t"
  "max_line (set_offset path n t) = max_line t"
  by (simp_all add: offset_of_def set_offset_def max_line_def)




text \<open>A line over the limit stops the tail input for good: when complete lines are followed by a line of at least the
  configured size, a round ends with an error, delivers the lines before the long one, and leaves the offset where it
  was, so that every later round delivers the same lines again and nothing after them.\<close>

theorem tail_long_line_repeats:
  assumes "offset_of t path = int (length data)" "tl_FromBeginning t \<or> data \<noteq> []" "list_all (plain_line (max_line t)) ls"
    and "CHR 0x0A \<notin> set long" "max_line t \<le> length long" "fs_Open fs path = Inr (data @ lines_text ls @ long @ CHR 0x0A # rest, None)"
  shows "gatherFile fs now path (t, acc)
    = (Some ''tail: scan %s: bufio.Scanner: token too long'', t, fold (line_metric path now) ls acc)"
proof -
  have lines: "text_lines (lines_text ls @ long @ CHR 0x0A # rest) = ls @ long # text_lines rest"
    using assms(3,4) by (subst text_lines_text) (auto simp: list_all_iff plain_line_def text_lines_cons)
  have "takeWhile (\<lambda>l. length l < max_line t) (ls @ long # text_lines rest) = ls"
    using assms(3,5) by (subst takeWhile_append2) (auto simp: list_all_iff plain_line_def)
  moreover have "map drop_cr ls = ls" using assms(3) by (auto simp: map_idI list_all_iff plain_line_def drop_cr_id)
  ultimately have "Scan_max (max_line t) (lines_text ls @ long @ CHR 0x0A # rest, None) = (ls, Some ''bufio.Scanner: token too long'')"
    by (simp add: Scan_max_def lines)
  moreover have "\<not> (\<not> tl_FromBeginning t \<and> offset_of t path = 0)" using assms(1,2) by auto
  ultimately show ?thesis using assms(1,6) by (auto simp: gatherFile_def Let_def)
qed

theorem tail_long_line_repeats_witness:
  "gatherFile (one_file (lines_text [''ok''] @ ''0123456789'' @ [CHR 0x0A])) 0 ''/a''
     (\<lparr>tl_Files = [''/a''], tl_WatchMethod = ''poll'', tl_FromBeginning = True, tl_CursorPersistPath = [], tl_MaxLineBytes = 8, tl_offsets = []\<rparr>, \<lparr>acc_metrics = [], acc_maxSize = 100\<rparr>)
   = (Some ''tail: scan %s: bufio.Scanner: token too long'',
      \<lparr>tl_Files = [''/a''], tl_WatchMethod = ''poll'', tl_FromBeginning = True, tl_CursorPersistPath = [], tl_MaxLineBytes = 8, tl_offsets = []\<rparr>,
      line_metric ''/a'' 0 ''ok'' \<lparr>acc_metrics = [], acc_maxSize = 100\<rparr>)"
  using tail_long_line_repeats [of "\<lparr>tl_Files = [''/a''], tl_WatchMethod = ''poll'', tl_FromBeginning = True, tl_CursorPersistPath = [],
       tl_MaxLineBytes = 8, tl_offsets = []\<rparr>" "''/a''" "[]" "[''ok'']" "''0123456789''"
       "one_file (lines_text [''ok''] @ ''0123456789'' @ [CHR 0x0A])" "[]" 0 "\<lparr>acc_metrics = [], acc_maxSize = 100\<rparr>"]
  by (simp add: offset_of_def max_line_def plain_line_def HasSuffix_def HasPrefix_def one_file_def)

text \<open>What the first lines of a file that was empty at the first round come to: they are skipped.\<close>

lemma empty_file_skips_lines:
  assumes "\<not> tl_FromBeginning t" "offset_of t path = 0"
  shows "tail_rounds path now room [[], c] [] t = ([], set_offset path (int (length c)) (set_offset path 0 t))"
  using assms by (simp add: gatherFile_def Let_def one_file_def tail_messages_def)

text \<open>Different files can share a cursor file.\<close>

lemma cursor_collision: "cursorFilename d ''/var/log/a_b'' = cursorFilename d ''/var/log/a/b''"
  by (simp add: cursorFilename_def sanitizePath_def)

end
