(* ===== verification/Syslog_Input.thy ===== *)
theory Syslog_Input
imports Tail_Input
begin

text \<open>
  The syslog input (\<open>collector/inputs/syslog\<close>): \<open>time.Parse\<close> for the three layouts it uses, the parser
  of messages and the metrics they give. None is a panic: a slice expression out of range, which ends
  the process, since no goroutine of the input recovers.
\<close>

subsection \<open>Time stamps\<close>

definition isLeap :: "int \<Rightarrow> bool" where
  "isLeap y = (y mod 4 = 0 \<and> (y mod 100 \<noteq> 0 \<or> y mod 400 = 0))"

definition daysIn :: "int \<Rightarrow> int \<Rightarrow> int" where
  "daysIn m y = (if m = 2 then (if isLeap y then 29 else 28) else if m \<in> {4, 6, 9, 11} then 30 else 31)"

text \<open>The days from the first of January of the year 1970; the year starts in March here.\<close>

definition days_of :: "int \<Rightarrow> int \<Rightarrow> int \<Rightarrow> int" where
  "days_of y m d =
     (let y' = (if m \<le> 2 then y - 1 else y); mp = (m + 9) mod 12;
          doy = (153 * mp + 2) div 5 + d - 1
      in 365 * y' + y' div 4 - y' div 100 + y' div 400 + doy - 719468)"

record civil =
  cv_year :: int
  cv_month :: int
  cv_day :: int
  cv_hour :: int
  cv_min :: int
  cv_sec :: int
  cv_nsec :: int
  cv_zone :: int

definition instant :: "civil \<Rightarrow> time" where
  "instant c = (((days_of (cv_year c) (cv_month c) (cv_day c) * 24 + cv_hour c) * 60 + cv_min c) * 60 + cv_sec c - cv_zone c) * 10 ^ 9 + cv_nsec c"

text \<open>A number of two digits, or of one where that is allowed.\<close>

definition getnum :: "bool \<Rightarrow> string \<Rightarrow> (int \<times> string) option" where
  "getnum fixed s =
     (case s of
        [] \<Rightarrow> None
      | c # t \<Rightarrow>
          if \<not> is_digit c then None
          else (case t of
                  d # u \<Rightarrow> if is_digit d then Some (digit_val c * 10 + digit_val d, u)
                            else if fixed then None else Some (digit_val c, t)
                | [] \<Rightarrow> if fixed then None else Some (digit_val c, t)))"

definition in_range :: "int \<Rightarrow> int \<Rightarrow> (int \<times> string) option \<Rightarrow> (int \<times> string) option" where
  "in_range lo hi r = (case r of Some (n, s) \<Rightarrow> if lo \<le> n \<and> n \<le> hi then Some (n, s) else None | None \<Rightarrow> None)"

definition skip_char :: "char \<Rightarrow> string \<Rightarrow> string option" where
  "skip_char c s = (if s \<noteq> [] \<and> hd s = c then Some (tl s) else None)"

text \<open>A run of spaces in a layout stands for any run of spaces, or for the end.\<close>

definition skip_spaces :: "string \<Rightarrow> string option" where
  "skip_spaces s = (if s \<noteq> [] \<and> hd s \<noteq> CHR '' '' then None else Some (dropWhile (\<lambda>c. c = CHR '' '') s))"

text \<open>A fraction of a second of at least one digit, of which nine count.\<close>

definition frac_second :: "string \<Rightarrow> int \<times> string" where
  "frac_second s =
     (if length s < 2 \<or> hd s \<notin> set ''.,'' \<or> \<not> is_digit (s ! 1) then (0, s)
      else (let ds = takeWhile is_digit (tl s); n = take 9 ds
            in (digits_value n * 10 ^ (9 - length n), drop (1 + length ds) s)))"

definition clock :: "string \<Rightarrow> (int \<times> int \<times> int \<times> int \<times> string) option" where
  "clock s =
     (case in_range 0 23 (getnum False s) of
        None \<Rightarrow> None
      | Some (hour, s1) \<Rightarrow>
          (case skip_char (CHR '':'') s1 of
             None \<Rightarrow> None
           | Some s2 \<Rightarrow>
               (case in_range 0 59 (getnum True s2) of
                  None \<Rightarrow> None
                | Some (minute, s3) \<Rightarrow>
                    (case skip_char (CHR '':'') s3 of
                       None \<Rightarrow> None
                     | Some s4 \<Rightarrow>
                         (case in_range 0 59 (getnum True s4) of
                            None \<Rightarrow> None
                          | Some (sec, s5) \<Rightarrow> (case frac_second s5 of (ns, r) \<Rightarrow> Some (hour, minute, sec, ns, r)))))))"

text \<open>Names of months match without regard to case.\<close>

definition shortMonthNames :: "string list" where
  "shortMonthNames = [''jan'', ''feb'', ''mar'', ''apr'', ''may'', ''jun'', ''jul'', ''aug'', ''sep'', ''oct'', ''nov'', ''dec'']"

definition lookup_month :: "string \<Rightarrow> (int \<times> string) option" where
  "lookup_month s =
     (case List.find (\<lambda>(i, n). ToLower (take 3 s) = n) (List.enumerate 1 shortMonthNames) of
        None \<Rightarrow> None | Some (i, n) \<Rightarrow> Some (int i, drop 3 s))"

text \<open>
  The layouts \<open>Jan  2 15:04:05\<close> and \<open>Jan 2 15:04:05\<close>, which accept the same texts: the day is a number
  of one or two digits after any spaces. There is no year in them, and the year of the result is 0.
\<close>

definition parse_stamp :: "string \<Rightarrow> time option" where
  "parse_stamp s =
     (case lookup_month s of
        None \<Rightarrow> None
      | Some (month, s1) \<Rightarrow>
          (case skip_spaces s1 of
             None \<Rightarrow> None
           | Some s2 \<Rightarrow>
               (case getnum False s2 of
                  None \<Rightarrow> None
                | Some (day, s3) \<Rightarrow>
                    (case skip_spaces s3 of
                       None \<Rightarrow> None
                     | Some s4 \<Rightarrow>
                         (case clock s4 of
                            None \<Rightarrow> None
                          | Some (hour, minute, sec, ns, r) \<Rightarrow>
                              if r \<noteq> [] \<or> day < 1 \<or> day > daysIn month 0 then None
                              else Some (instant \<lparr>cv_year = 0, cv_month = month, cv_day = day, cv_hour = hour, cv_min = minute,
                                           cv_sec = sec, cv_nsec = ns, cv_zone = 0\<rparr>))))))"

definition parse_zone :: "string \<Rightarrow> (int \<times> string) option" where
  "parse_zone s =
     (if s \<noteq> [] \<and> hd s = CHR ''Z'' then Some (0, tl s)
      else if length s < 6 \<or> s ! 3 \<noteq> CHR '':'' then None
      else (case (getnum True (take 2 (drop 1 s)), getnum True (take 2 (drop 4 s))) of
              (Some (hr, _), Some (mm, _)) \<Rightarrow>
                if hr > 24 \<or> mm > 60 then None
                else if hd s = CHR ''+'' then Some ((hr * 60 + mm) * 60, drop 6 s)
                else if hd s = CHR ''-'' then Some (- ((hr * 60 + mm) * 60), drop 6 s)
                else None
            | _ \<Rightarrow> None))"

text \<open>The layout \<open>time.RFC3339Nano\<close>.\<close>

definition parse_date :: "string \<Rightarrow> (int \<times> int \<times> int \<times> string) option" where
  "parse_date s =
     (if length s < 4 \<or> \<not> list_all is_digit (take 4 s) then None
      else
        (case skip_char (CHR ''-'') (drop 4 s) of
           None \<Rightarrow> None
         | Some s1 \<Rightarrow>
             (case in_range 1 12 (getnum True s1) of
                None \<Rightarrow> None
              | Some (month, s2) \<Rightarrow>
                  (case skip_char (CHR ''-'') s2 of
                     None \<Rightarrow> None
                   | Some s3 \<Rightarrow> (case getnum True s3 of None \<Rightarrow> None
                               | Some (day, r) \<Rightarrow> Some (digits_value (take 4 s), month, day, r))))))"

definition parse_rfc3339 :: "string \<Rightarrow> time option" where
  "parse_rfc3339 s =
     (case parse_date s of
        None \<Rightarrow> None
      | Some (year, month, day, s1) \<Rightarrow>
          (case skip_char (CHR ''T'') s1 of
             None \<Rightarrow> None
           | Some s2 \<Rightarrow>
               (case clock s2 of
                  None \<Rightarrow> None
                | Some (hour, minute, sec, ns, s3) \<Rightarrow>
                    (case parse_zone s3 of
                       None \<Rightarrow> None
                     | Some (zone, r) \<Rightarrow>
                         if r \<noteq> [] \<or> day < 1 \<or> day > daysIn month year then None
                         else Some (instant \<lparr>cv_year = year, cv_month = month, cv_day = day, cv_hour = hour, cv_min = minute,
                                      cv_sec = sec, cv_nsec = ns, cv_zone = zone\<rparr>)))))"

subsection \<open>Messages\<close>

record Message =
  sm_Facility :: int
  sm_Severity :: int
  sm_Timestamp :: time
  sm_Hostname :: string
  sm_AppName :: string
  sm_ProcID :: string
  sm_MsgID :: string
  sm_Message :: string

text \<open>Go's \<open>/\<close> and \<open>%\<close> truncate.\<close>

definition decodePriority :: "int \<Rightarrow> int \<times> int" where
  "decodePriority pri = (quot64 pri 8, pri - 8 * quot64 pri 8)"

text \<open>What is before and after the first occurrence of a byte.\<close>

definition cut_byte :: "char \<Rightarrow> string \<Rightarrow> (string \<times> string) option" where
  "cut_byte c s = (if c \<in> set s then Some (takeWhile (\<lambda>x. x \<noteq> c) s, tl (dropWhile (\<lambda>x. x \<noteq> c) s)) else None)"

definition skip_space :: "string \<Rightarrow> string" where
  "skip_space s = (if s \<noteq> [] \<and> hd s = CHR '' '' then tl s else s)"

definition skip_structured :: "string \<Rightarrow> string" where
  "skip_structured s =
     (if s \<noteq> [] \<and> hd s = CHR ''-'' then skip_space (tl s)
      else (case cut_byte (CHR '']'') s of None \<Rightarrow> s | Some (_, r) \<Rightarrow> skip_space r))"

definition word_then :: "string \<Rightarrow> string \<Rightarrow> (string \<Rightarrow> string \<Rightarrow> Message result) \<Rightarrow> Message result" where
  "word_then msg s k = (case cut_byte (CHR '' '') s of None \<Rightarrow> Inl msg | Some (w, r) \<Rightarrow> k w r)"

definition parseRFC5424 :: "string \<Rightarrow> Message \<Rightarrow> Message result" where
  "parseRFC5424 s m =
     word_then ''syslog 5424: missing version'' s (\<lambda>version s1.
     word_then ''syslog 5424: missing timestamp'' s1 (\<lambda>ts s2.
     word_then ''syslog 5424: missing hostname'' s2 (\<lambda>host s3.
     word_then ''syslog 5424: missing appname'' s3 (\<lambda>app s4.
     word_then ''syslog 5424: missing procid'' s4 (\<lambda>proc s5.
     word_then ''syslog 5424: missing msgid'' s5 (\<lambda>msgid s6.
       Inr (m\<lparr>sm_Timestamp := (case parse_rfc3339 ts of None \<Rightarrow> sm_Timestamp m | Some t \<Rightarrow> t),
              sm_Hostname := host, sm_AppName := app, sm_ProcID := proc, sm_MsgID := msgid,
              sm_Message := skip_structured s6\<rparr>)))))))"

text \<open>\<open>data[n:]\<close>\<close>

definition slice_from :: "nat \<Rightarrow> string \<Rightarrow> string option" where
  "slice_from n s = (if n \<le> length s then Some (drop n s) else None)"

definition parse3164_body :: "string \<Rightarrow> Message \<Rightarrow> Message result" where
  "parse3164_body s m =
     word_then ''syslog 3164: missing hostname'' s (\<lambda>host s1.
       (case cut_byte (CHR '':'') s1 of
          None \<Rightarrow> Inr (m\<lparr>sm_Hostname := host, sm_Message := s1\<rparr>)
        | Some (appPart, s2) \<Rightarrow>
            Inr (m\<lparr>sm_Hostname := host,
                   sm_AppName := takeWhile (\<lambda>c. c \<noteq> CHR ''['') appPart,
                   sm_ProcID := (case cut_byte (CHR ''['') appPart of
                                   None \<Rightarrow> sm_ProcID m
                                 | Some (_, r) \<Rightarrow> (case cut_byte (CHR '']'') r of None \<Rightarrow> sm_ProcID m | Some (pid, _) \<Rightarrow> pid)),
                   sm_Message := skip_space s2\<rparr>)))"

definition parseRFC3164 :: "string \<Rightarrow> Message \<Rightarrow> Message result option" where
  "parseRFC3164 s m =
     (if length s < 15 then Some (Inl ''syslog 3164: too short'')
      else
        (case parse_stamp (take 15 s) of
           Some ts \<Rightarrow> map_option (\<lambda>r. parse3164_body r (m\<lparr>sm_Timestamp := ts\<rparr>)) (slice_from 16 s)
         | None \<Rightarrow>
             (case parse_stamp (take 14 s) of
                Some ts \<Rightarrow> map_option (\<lambda>r. parse3164_body r (m\<lparr>sm_Timestamp := ts\<rparr>)) (slice_from 15 s)
              | None \<Rightarrow> Some (Inl ''syslog 3164: cannot parse timestamp''))))"

definition no_message :: Message where
  "no_message = \<lparr>sm_Facility = 0, sm_Severity = 0, sm_Timestamp = zero_time, sm_Hostname = [], sm_AppName = [], sm_ProcID = [],
     sm_MsgID = [], sm_Message = []\<rparr>"

definition syslog_Parse :: "string \<Rightarrow> Message result option" where
  "syslog_Parse s =
     (if s = [] \<or> hd s \<noteq> CHR ''<'' then Some (Inl ''syslog: missing priority'')
      else
        (case cut_byte (CHR ''>'') s of
           None \<Rightarrow> Some (Inl ''syslog: unclosed priority'')
         | Some (p, rest) \<Rightarrow>
             (case Atoi (tl p) of
                None \<Rightarrow> Some (Inl ''syslog: invalid priority: %w'')
              | Some pri \<Rightarrow>
                  (let m = no_message\<lparr>sm_Facility := fst (decodePriority pri), sm_Severity := snd (decodePriority pri)\<rparr>
                   in if rest = [] then Some (Inl ''syslog: empty message after priority'')
                      else if is_digit (hd rest) then Some (parseRFC5424 rest m)
                      else parseRFC3164 rest m))))"

subsection \<open>The input\<close>

record SyslogInput =
  sy_ListenAddr :: string
  sy_Protocol :: string
  sy_MaxConnections :: int
  sy_parseErrors :: int

definition message_metric :: "time \<Rightarrow> Message \<Rightarrow> accumulator \<Rightarrow> accumulator" where
  "message_metric now m acc =
     (let tags = [(''app'', sm_AppName m), (''host'', sm_Hostname m)];
          flds = [(''facility'', GInt (sm_Facility m)), (''message'', GString (sm_Message m)), (''pid'', GString (sm_ProcID m)),
                  (''severity'', GInt (sm_Severity m))]
      in if sm_Timestamp m \<noteq> zero_time then AddGaugeWithTimestamp ''syslog'' tags flds (sm_Timestamp m) acc
         else AddGauge now ''syslog'' tags flds acc)"

definition processMessage :: "time \<Rightarrow> string \<Rightarrow> SyslogInput \<times> accumulator \<Rightarrow> (SyslogInput \<times> accumulator) option" where
  "processMessage now data s =
     (case syslog_Parse data of
        None \<Rightarrow> None
      | Some (Inl e) \<Rightarrow> Some ((fst s)\<lparr>sy_parseErrors := wrap64 (sy_parseErrors (fst s) + 1)\<rparr>, snd s)
      | Some (Inr m) \<Rightarrow> Some (fst s, message_metric now m (snd s)))"

text \<open>A sequence of messages, up to a panic; empty ones are skipped.\<close>

fun process_all :: "time \<Rightarrow> string list \<Rightarrow> SyslogInput \<times> accumulator \<Rightarrow> (SyslogInput \<times> accumulator) option" where
  "process_all now [] s = Some s"
| "process_all now (d # ds) s =
     (if d = [] then process_all now ds s
      else case processMessage now d s of None \<Rightarrow> None | Some s' \<Rightarrow> process_all now ds s')"

definition handleTCPConn :: "time \<Rightarrow> string \<times> err \<Rightarrow> SyslogInput \<times> accumulator \<Rightarrow> (err \<times> SyslogInput \<times> accumulator) option" where
  "handleTCPConn now conn s =
     (case Scan conn of (lines, e) \<Rightarrow> map_option (\<lambda>s'. (e, s')) (process_all now lines s))"

definition gatherUDP :: "time \<Rightarrow> string list \<Rightarrow> SyslogInput \<times> accumulator \<Rightarrow> (SyslogInput \<times> accumulator) option" where
  "gatherUDP now datagrams s = process_all now datagrams s"

definition syslog_Init :: "goval gomap \<Rightarrow> SyslogInput result" where
  "syslog_Init cfg =
     (case (case map_of cfg ''listen_addr'' of None \<Rightarrow> Inr ''0.0.0.0:514'' | Some (GString a) \<Rightarrow> Inr a
              | Some _ \<Rightarrow> Inl ''syslog: listen_addr must be a string, got %T'') of
        Inl e \<Rightarrow> Inl e
      | Inr addr \<Rightarrow>
          (case (case map_of cfg ''protocol'' of None \<Rightarrow> Inr ''tcp''
                   | Some (GString p) \<Rightarrow> if p \<noteq> ''tcp'' \<and> p \<noteq> ''udp'' then Inl ''syslog: unsupported protocol %q (supported: tcp, udp)'' else Inr p
                   | Some _ \<Rightarrow> Inl ''syslog: protocol must be a string, got %T'') of
             Inl e \<Rightarrow> Inl e
           | Inr proto \<Rightarrow>
               (case (case map_of cfg ''max_connections'' of None \<Rightarrow> Inr 100
                        | Some v \<Rightarrow> cfg_number ''syslog: max_connections must be a number, got %T'' v) of
                  Inl e \<Rightarrow> Inl e
                | Inr n \<Rightarrow> Inr \<lparr>sy_ListenAddr = addr, sy_Protocol = proto, sy_MaxConnections = n, sy_parseErrors = 0\<rparr>)))"

subsection \<open>When the parser panics\<close>

lemma cut_byte_Some:
  "cut_byte c s = Some (a, b) \<longleftrightarrow> s = a @ c # b \<and> c \<notin> set a"
proof
  assume *: "cut_byte c s = Some (a, b)"
  then have c: "c \<in> set s" and a: "a = takeWhile (\<lambda>x. x \<noteq> c) s" and b: "b = tl (dropWhile (\<lambda>x. x \<noteq> c) s)"
    by (auto simp: cut_byte_def split: if_splits)
  from c have "dropWhile (\<lambda>x. x \<noteq> c) s \<noteq> []" by (simp add: dropWhile_eq_Nil_conv)
  moreover from this have "hd (dropWhile (\<lambda>x. x \<noteq> c) s) = c" by (metis (mono_tags) hd_dropWhile)
  ultimately have "dropWhile (\<lambda>x. x \<noteq> c) s = c # b" by (metis b list.collapse)
  then have "s = a @ c # b" using takeWhile_dropWhile_id [of "\<lambda>x. x \<noteq> c" s] by (simp add: a)
  moreover have "c \<notin> set a" using set_takeWhileD [of c "\<lambda>x. x \<noteq> c" s] by (auto simp: a)
  ultimately show "s = a @ c # b \<and> c \<notin> set a" by blast
next
  assume "s = a @ c # b \<and> c \<notin> set a"
  moreover from this have "\<forall>x \<in> set a. x \<noteq> c" by auto
  ultimately show "cut_byte c s = Some (a, b)" by (auto simp: cut_byte_def takeWhile_append2 dropWhile_append2)
qed

lemma lookup_month_range: "lookup_month s = Some (m, r) \<Longrightarrow> 1 \<le> m \<and> m \<le> 12 \<and> \<not> is_digit (hd s) \<and> s \<noteq> []"
proof -
  assume "lookup_month s = Some (m, r)"
  then obtain i n where f: "List.find (\<lambda>(i, n). ToLower (take 3 s) = n) (List.enumerate 1 shortMonthNames) = Some (i, n)" "m = int i"
    by (auto simp: lookup_month_def split: option.splits)
  then have i: "(i, n) \<in> set (List.enumerate 1 shortMonthNames)" "ToLower (take 3 s) = n"
    using f(1) by (auto simp: find_Some_iff) (metis nth_mem length_enumerate)
  have "\<forall>p \<in> set (List.enumerate 1 shortMonthNames). 1 \<le> fst p \<and> fst p \<le> 12 \<and> snd p \<noteq> [] \<and> \<not> is_digit (hd (snd p))"
    by code_simp
  with i(1) have n: "1 \<le> i" "i \<le> 12" "n \<noteq> []" "\<not> is_digit (hd n)" by auto
  obtain c t where s: "s = c # t" using i(2) n(3) by (cases s) (auto simp: ToLower_def)
  have "hd n = to_lower_char c" using i(2) s by (auto simp: ToLower_def)
  with n(4) have "\<not> is_digit c" by (auto simp: to_lower_char_def is_digit_def Let_def split: if_splits)
  with n f(2) s show ?thesis by simp
qed

lemma parse_stamp_letter: "parse_stamp s = Some t \<Longrightarrow> s \<noteq> [] \<and> \<not> is_digit (hd s)"
  using lookup_month_range by (auto simp: parse_stamp_def split: option.splits prod.splits)

lemma parse3164_panics: "parseRFC3164 s m = None \<longleftrightarrow> length s = 15 \<and> parse_stamp s \<noteq> None"
  by (auto simp: parseRFC3164_def slice_from_def split: option.splits)

text \<open>C34: the syslog parser panics on exactly one kind of message: a priority followed by a time stamp of fifteen bytes
  and nothing else. No other text makes it panic.\<close>

theorem syslog_panics_iff:
  "syslog_Parse s = None \<longleftrightarrow>
     (\<exists>pri n stamp. s = ''<'' @ pri @ ''>'' @ stamp \<and> CHR ''>'' \<notin> set pri \<and> Atoi pri = Some n
        \<and> length stamp = 15 \<and> parse_stamp stamp \<noteq> None)"
proof
  assume *: "syslog_Parse s = None"
  then obtain t p rest n where s: "s = CHR ''<'' # t" "cut_byte (CHR ''>'') s = Some (p, rest)" "Atoi (tl p) = Some n"
    "\<not> is_digit (hd rest)" "rest \<noteq> []" "length rest = 15" "parse_stamp rest \<noteq> None"
    by (cases s) (auto simp: syslog_Parse_def Let_def parse3164_panics split: if_splits option.splits)
  then have "s = p @ CHR ''>'' # rest" "CHR ''>'' \<notin> set p" by (auto simp: cut_byte_Some)
  moreover from this s(1) obtain q where "p = CHR ''<'' # q" by (cases p) auto
  ultimately show "\<exists>pri n stamp. s = ''<'' @ pri @ ''>'' @ stamp \<and> CHR ''>'' \<notin> set pri \<and> Atoi pri = Some n
      \<and> length stamp = 15 \<and> parse_stamp stamp \<noteq> None"
    using s by auto
next
  assume "\<exists>pri n stamp. s = ''<'' @ pri @ ''>'' @ stamp \<and> CHR ''>'' \<notin> set pri \<and> Atoi pri = Some n
      \<and> length stamp = 15 \<and> parse_stamp stamp \<noteq> None"
  then obtain pri n stamp t where s: "s = ''<'' @ pri @ ''>'' @ stamp" "CHR ''>'' \<notin> set pri" "Atoi pri = Some n" "length stamp = 15"
    "parse_stamp stamp = Some t" by blast
  have "cut_byte (CHR ''>'') s = Some (CHR ''<'' # pri, stamp)" using s(1,2) by (auto simp: cut_byte_Some)
  moreover have "stamp \<noteq> []" "\<not> is_digit (hd stamp)" using parse_stamp_letter [OF s(5)] by auto
  moreover have "parseRFC3164 stamp m = None" for m using s(4,5) by (simp add: parse3164_panics)
  ultimately show "syslog_Parse s = None" using s(1,3) by (simp add: syslog_Parse_def Let_def)
qed

text \<open>One such datagram ends the input, whatever came before it and whatever would follow.\<close>

lemma syslog_stamp_only: "syslog_Parse ''<13>Jan  2 15:04:05'' = None"
  by code_simp

lemma process_all_append:
  "process_all now (ds @ es) s = (case process_all now ds s of None \<Rightarrow> None | Some s' \<Rightarrow> process_all now es s')"
  by (induction ds arbitrary: s) (auto split: option.splits)

lemma stamp_only_ends_input: "gatherUDP now (ds @ ''<13>Jan  2 15:04:05'' # es) s = None"
  by (auto simp: gatherUDP_def process_all_append processMessage_def syslog_stamp_only split: option.splits)

subsection \<open>Time stamps without a year\<close>

lemma digits_value_bound: "list_all is_digit ds \<Longrightarrow> 0 \<le> digits_value ds \<and> digits_value ds < 10 ^ length ds"
proof (induction ds rule: rev_induct)
  case (snoc c ds)
  then have "0 \<le> digits_value ds" "digits_value ds < 10 ^ length ds" "is_digit c" by auto
  moreover have "(of_char c :: int) = int (of_char c)" by (simp only: of_nat_of_char)
  with calculation(3) have "0 \<le> digit_val c" "digit_val c \<le> 9" by (simp_all add: digit_val_def is_digit_def del: of_nat_of_char)
  moreover have "digits_value (ds @ [c]) = digits_value ds * 10 + digit_val c" by (simp add: digits_value_def)
  ultimately show ?case by simp
qed (simp add: digits_value_def)

lemma frac_second_bound: "frac_second s = (n, r) \<Longrightarrow> 0 \<le> n \<and> n < 10 ^ 9"
proof -
  assume f: "frac_second s = (n, r)"
  define ds where "ds = take 9 (takeWhile is_digit (tl s))"
  have d: "list_all is_digit ds" unfolding ds_def list_all_iff by (meson in_set_takeD set_takeWhileD)
  have l: "length ds \<le> 9" by (simp add: ds_def)
  have "n = 0 \<or> n = digits_value ds * 10 ^ (9 - length ds)"
    using f by (auto simp: frac_second_def Let_def ds_def split: if_splits)
  moreover have "digits_value ds * 10 ^ (9 - length ds) < 10 ^ length ds * 10 ^ (9 - length ds)"
    using digits_value_bound [OF d] by (intro mult_strict_right_mono) auto
  moreover have "(10 :: int) ^ length ds * 10 ^ (9 - length ds) = 10 ^ 9" using l by (simp flip: power_add)
  ultimately show ?thesis using digits_value_bound [OF d] by auto
qed

lemma clock_bounds:
  "clock s = Some (h, mi, se, ns, r) \<Longrightarrow> 0 \<le> h \<and> h \<le> 23 \<and> 0 \<le> mi \<and> mi \<le> 59 \<and> 0 \<le> se \<and> se \<le> 59 \<and> 0 \<le> ns \<and> ns < 10 ^ 9"
  using frac_second_bound by (auto simp: clock_def in_range_def split: option.splits prod.splits if_splits)

lemma days_year_zero:
  assumes "1 \<le> m" "m \<le> 12" "1 \<le> d" "d \<le> daysIn m 0"
  shows "days_of 0 m d < - 719162"
proof -
  have "m \<in> {1..12}" using assms(1,2) by simp
  then show ?thesis using assms(3,4) by (auto simp: simp_from_to days_of_def daysIn_def isLeap_def Let_def)
qed

lemma parse_stamp_year: "parse_stamp s = Some t \<Longrightarrow> t < zero_time"
proof -
  assume "parse_stamp s = Some t"
  then obtain m s1 d s4 h mi se ns where p: "lookup_month s = Some (m, s1)" "clock s4 = Some (h, mi, se, ns, [])"
    "1 \<le> d" "d \<le> daysIn m 0" "t = instant \<lparr>cv_year = 0, cv_month = m, cv_day = d, cv_hour = h, cv_min = mi, cv_sec = se, cv_nsec = ns, cv_zone = 0\<rparr>"
    by (auto simp: parse_stamp_def not_less split: option.splits prod.splits if_splits)
  have "days_of 0 m d \<le> - 719163" using days_year_zero lookup_month_range [OF p(1)] p(3,4) by force
  with clock_bounds [OF p(2)] show ?thesis by (simp add: p(5) instant_def zero_time_def)
qed

lemma body_stamp: "parse3164_body s m = Inr r \<Longrightarrow> sm_Timestamp r = sm_Timestamp m"
  by (auto simp: parse3164_body_def word_then_def split: option.splits prod.splits)

text \<open>Messages in the format of RFC 3164 get a time stamp of the year 0: a message whose priority is not followed by a
  digit and that is parsed has a time stamp before the first of January of the year 1, whenever it was sent.\<close>

theorem syslog_3164_year_zero:
  assumes "syslog_Parse (''<'' @ pri @ ''>'' @ rest) = Some (Inr m)" "CHR ''>'' \<notin> set pri" "\<not> is_digit (hd rest)"
  shows "sm_Timestamp m < zero_time"
proof -
  have "cut_byte (CHR ''>'') (CHR ''<'' # pri @ CHR ''>'' # rest) = Some (CHR ''<'' # pri, rest)"
    using assms(2) by (auto simp: cut_byte_Some)
  with assms(1,3) obtain m0 where "parseRFC3164 rest m0 = Some (Inr m)"
    by (auto simp: syslog_Parse_def Let_def split: option.splits if_splits)
  then obtain ts r m1 where "parse_stamp (take 15 rest) = Some ts \<or> parse_stamp (take 14 rest) = Some ts"
    "parse3164_body r (m1\<lparr>sm_Timestamp := ts\<rparr>) = Inr m"
    by (auto simp: parseRFC3164_def split: if_splits option.splits)
  then show ?thesis using parse_stamp_year body_stamp by fastforce
qed

theorem syslog_3164_year_zero_witness:
  "\<exists>m. syslog_Parse (''<'' @ ''34'' @ ''>'' @ ''Oct 11 22:14:15 mymachine su[7]: failed'') = Some (Inr m) \<and> sm_Timestamp m < zero_time
     \<and> sm_AppName m = ''su'' \<and> sm_ProcID m = ''7'' \<and> sm_Facility m = 4"
proof -
  let ?m = "\<lparr>sm_Facility = 4, sm_Severity = 2, sm_Timestamp = instant \<lparr>cv_year = 0, cv_month = 10, cv_day = 11, cv_hour = 22, cv_min = 14,
     cv_sec = 15, cv_nsec = 0, cv_zone = 0\<rparr>, sm_Hostname = ''mymachine'', sm_AppName = ''su'', sm_ProcID = ''7'', sm_MsgID = [],
     sm_Message = ''failed''\<rparr>"
  have p: "syslog_Parse (''<'' @ ''34'' @ ''>'' @ ''Oct 11 22:14:15 mymachine su[7]: failed'') = Some (Inr ?m)" by code_simp
  have "\<not> is_digit (hd ''Oct 11 22:14:15 mymachine su[7]: failed'')" by (simp add: is_digit_def)
  from syslog_3164_year_zero [OF p _ this] p show ?thesis by auto
qed

subsection \<open>Messages of RFC 5424\<close>

definition render5424 :: "string \<Rightarrow> string \<Rightarrow> string \<Rightarrow> string \<Rightarrow> string \<Rightarrow> string \<Rightarrow> string \<Rightarrow> string \<Rightarrow> string" where
  "render5424 pri version ts host app proc msgid msg =
     ''<'' @ pri @ ''>'' @ version @ '' '' @ ts @ '' '' @ host @ '' '' @ app @ '' '' @ proc @ '' '' @ msgid @ '' - '' @ msg"

lemma word_then_word: "CHR '' '' \<notin> set w \<Longrightarrow> word_then e (w @ CHR '' '' # r) k = k w r"
proof -
  assume "CHR '' '' \<notin> set w"
  then have "cut_byte (CHR '' '') (w @ CHR '' '' # r) = Some (w, r)" by (simp add: cut_byte_Some)
  then show ?thesis by (simp add: word_then_def)
qed

text \<open>C20: a message in the format of RFC 5424 without structured data is read back as it was written: the parser gives the
  host, the application, the process and the message identifier, the text with the spaces in it, the facility and the
  severity the priority stands for, and the time where the time stamp has the format of RFC 3339.\<close>

theorem syslog_5424_roundtrip:
  assumes "Atoi pri = Some n" "0 \<le> n" "CHR ''>'' \<notin> set pri" "version \<noteq> []" "is_digit (hd version)"
    and "list_all (\<lambda>w. CHR '' '' \<notin> set w) [version, ts, host, app, proc, msgid]"
  shows "syslog_Parse (render5424 pri version ts host app proc msgid msg) =
    Some (Inr \<lparr>sm_Facility = n div 8, sm_Severity = n mod 8, sm_Timestamp = (case parse_rfc3339 ts of None \<Rightarrow> zero_time | Some t \<Rightarrow> t),
      sm_Hostname = host, sm_AppName = app, sm_ProcID = proc, sm_MsgID = msgid, sm_Message = msg\<rparr>)"
proof -
  let ?rest = "version @ CHR '' '' # ts @ CHR '' '' # host @ CHR '' '' # app @ CHR '' '' # proc @ CHR '' '' # msgid @ CHR '' '' # CHR ''-'' # CHR '' '' # msg"
  have cut: "cut_byte (CHR ''>'') (CHR ''<'' # pri @ CHR ''>'' # ?rest) = Some (CHR ''<'' # pri, ?rest)"
    using assms(3) by (auto simp: cut_byte_Some)
  have pri: "fst (decodePriority n) = n div 8" "snd (decodePriority n) = n mod 8"
    using assms(2) by (simp_all add: decodePriority_def quot64_def minus_mult_div_eq_mod)
  have "hd ?rest = hd version" using assms(4) by (cases version) auto
  then show ?thesis
    using assms(1,4-6) by (simp add: render5424_def syslog_Parse_def cut Let_def pri parseRFC5424_def word_then_word skip_structured_def
        skip_space_def no_message_def split: option.split)
qed

theorem syslog_5424_roundtrip_witness:
  "syslog_Parse (render5424 ''165'' ''1'' ''2003-10-11T22:14:15.003Z'' ''host'' ''app'' ''42'' ''ID47'' ''a text'') =
    Some (Inr \<lparr>sm_Facility = 20, sm_Severity = 5, sm_Timestamp = 1065910455003000000, sm_Hostname = ''host'', sm_AppName = ''app'',
      sm_ProcID = ''42'', sm_MsgID = ''ID47'', sm_Message = ''a text''\<rparr>)"
proof -
  have "Atoi ''165'' = Some 165" "parse_rfc3339 ''2003-10-11T22:14:15.003Z'' = Some 1065910455003000000" "is_digit (hd ''1'')"
    by code_simp+
  with syslog_5424_roundtrip [of "''165''" 165 "''1''" "''2003-10-11T22:14:15.003Z''" "''host''" "''app''" "''42''" "''ID47''" "''a text''"]
  show ?thesis by simp
qed

text \<open>Of several structured data elements only the first is skipped.\<close>

lemma second_element_stays: "skip_structured ''[a x=1][b y=2] text'' = ''[b y=2] text''"
  by code_simp

end
