(* ===== verification/Plugin_Sdk.thy ===== *)
theory Plugin_Sdk
imports Go_Text Plugin_Gateway
begin

text \<open>
  The two plugin SDKs (\<open>sdk/plugin\<close> in Go, \<open>sdk/opsagent-plugin\<close> in Rust) as the plugin gateway talks to
  them: the JSON the gateway encodes for a request, what each SDK decodes of it and answers, and what
  the gateway decodes of the answer. The exchange is at the level of JSON values: both sides write
  one value on a line and read it back. A task handler of a plugin is a parameter.
\<close>

subsection \<open>Encoding and decoding of structs\<close>

text \<open>\<open>json.Marshal\<close> of an \<open>any\<close>; \<open>fmt\<close> formats a finite float64, None is an error.\<close>

fun json_of :: "(float64 \<Rightarrow> string) \<Rightarrow> goval \<Rightarrow> json option" where
  "json_of fmt GNil = Some JNull"
| "json_of fmt (GBool b) = Some (JBool b)"
| "json_of fmt (GString s) = Some (JStr s)"
| "json_of fmt (GFloat64 x) = (case x of Fin r \<Rightarrow> Some (JNum (fmt x)) | _ \<Rightarrow> None)"
| "json_of fmt (GFloat32 x) = (case x of Fin r \<Rightarrow> Some (JNum (fmt x)) | _ \<Rightarrow> None)"
| "json_of fmt (GList vs) = (let js = map (json_of fmt) vs in if None \<in> set js then None else Some (JArr (map the js)))"
| "json_of fmt (GMap m) = (let js = map (\<lambda>p. (fst p, json_of fmt (snd p))) m
     in if None \<in> snd ` set js then None else Some (JObj (map (\<lambda>p. (fst p, the (snd p))) js)))"
| "json_of fmt (GInt i) = Some (JNum (itoa i))"
| "json_of fmt (GInt32 i) = Some (JNum (itoa i))"
| "json_of fmt (GInt64 i) = Some (JNum (itoa i))"
| "json_of fmt (GUint i) = Some (JNum (itoa i))"
| "json_of fmt (GUint32 i) = Some (JNum (itoa i))"
| "json_of fmt (GUint64 i) = Some (JNum (itoa i))"

text \<open>
  \<open>json.Unmarshal\<close> of a value into a struct: each member sets the field whose name it matches, exactly
  or without regard to case; a setter that does not fit the type is an error; null changes nothing.
\<close>

type_synonym 's setter = "json \<Rightarrow> 's \<Rightarrow> 's option"

definition field_setter :: "(string \<times> 's setter) list \<Rightarrow> string \<Rightarrow> 's setter option" where
  "field_setter fs k =
     (case map_of fs k of
        Some f \<Rightarrow> Some f
      | None \<Rightarrow> map_option snd (List.find (\<lambda>p. fold_name (fst p) = fold_name k) fs))"

fun set_members :: "(string \<times> 's setter) list \<Rightarrow> (string \<times> json) list \<Rightarrow> 's \<Rightarrow> 's option" where
  "set_members fs [] s = Some s"
| "set_members fs ((k, j) # ms) s =
     (case field_setter fs k of
        None \<Rightarrow> set_members fs ms s
      | Some f \<Rightarrow> (case f j s of None \<Rightarrow> None | Some s' \<Rightarrow> set_members fs ms s'))"

definition decode_struct :: "(string \<times> 's setter) list \<Rightarrow> 's setter" where
  "decode_struct fs j s = (case j of JNull \<Rightarrow> Some s | JObj ms \<Rightarrow> set_members fs ms s | _ \<Rightarrow> None)"

definition set_string :: "(string \<Rightarrow> 's \<Rightarrow> 's) \<Rightarrow> 's setter" where
  "set_string f j s = (case j of JStr v \<Rightarrow> Some (f v s) | JNull \<Rightarrow> Some s | _ \<Rightarrow> None)"

definition set_int :: "(int \<Rightarrow> 's \<Rightarrow> 's) \<Rightarrow> 's setter" where
  "set_int f j s = (case j of JNum l \<Rightarrow> map_option (\<lambda>i. f i s) (Atoi l) | JNull \<Rightarrow> Some s | _ \<Rightarrow> None)"

definition set_bool :: "(bool \<Rightarrow> 's \<Rightarrow> 's) \<Rightarrow> 's setter" where
  "set_bool f j s = (case j of JBool b \<Rightarrow> Some (f b s) | JNull \<Rightarrow> Some s | _ \<Rightarrow> None)"

definition set_any :: "(goval \<Rightarrow> 's \<Rightarrow> 's) \<Rightarrow> 's setter" where
  "set_any f j s = map_option (\<lambda>v. f v s) (json_any j)"

definition set_map :: "(goval gomap option \<Rightarrow> 's \<Rightarrow> 's) \<Rightarrow> 's setter" where
  "set_map f j s = (case j of JNull \<Rightarrow> Some (f None s)
     | JObj ms \<Rightarrow> (case json_any j of Some (GMap m) \<Rightarrow> Some (f (Some m) s) | _ \<Rightarrow> None) | _ \<Rightarrow> None)"

text \<open>A pointer to a struct: null is nil, else a new struct is decoded.\<close>

definition set_ptr :: "'a setter \<Rightarrow> 'a \<Rightarrow> ('a option \<Rightarrow> 's \<Rightarrow> 's) \<Rightarrow> 's setter" where
  "set_ptr d zero f j s = (case j of JNull \<Rightarrow> Some (f None s) | _ \<Rightarrow> map_option (\<lambda>a. f (Some a) s) (d j zero))"

subsection \<open>The gateway's side\<close>

definition zero_request :: TaskRequest where
  "zero_request = \<lparr>tr_TaskID = [], tr_Type = [], tr_DeadlineMS = 0, tr_Payload = None,
     tr_Chunking = \<lparr>ck_Enabled = False, ck_MaxChunkBytes = 0, ck_MaxTotalBytes = 0\<rparr>\<rparr>"

definition chunking_json :: "ChunkingConfig \<Rightarrow> json" where
  "chunking_json c = JObj [(''enabled'', JBool (ck_Enabled c)), (''max_chunk_bytes'', JNum (itoa (ck_MaxChunkBytes c))),
     (''max_total_bytes'', JNum (itoa (ck_MaxTotalBytes c)))]"

definition task_json :: "(float64 \<Rightarrow> string) \<Rightarrow> TaskRequest \<Rightarrow> json option" where
  "task_json fmt r =
     (case (case tr_Payload r of None \<Rightarrow> Some JNull | Some m \<Rightarrow> json_of fmt (GMap m)) of
        None \<Rightarrow> None
      | Some payload \<Rightarrow>
          Some (JObj [(''task_id'', JStr (tr_TaskID r)), (''type'', JStr (tr_Type r)), (''deadline_ms'', JNum (itoa (tr_DeadlineMS r))),
            (''payload'', payload), (''chunking'', chunking_json (tr_Chunking r))]))"

definition request_json :: "(float64 \<Rightarrow> string) \<Rightarrow> rpcRequest \<Rightarrow> json option" where
  "request_json fmt q =
     (case task_json fmt (case rpq_Params q of None \<Rightarrow> zero_request | Some r \<Rightarrow> r) of
        None \<Rightarrow> None
      | Some params \<Rightarrow> Some (JObj [(''id'', JStr (rpq_ID q)), (''method'', JStr (rpq_Method q)), (''params'', params)]))"

definition zero_stats :: TaskStats where
  "zero_stats = \<lparr>ts_DurationMS = 0, ts_CPUMS = 0, ts_MemPeakBytes = 0\<rparr>"

definition zero_response :: TaskResponse where
  "zero_response = \<lparr>tp_TaskID = [], tp_Status = [], tp_Error = [], tp_Summary = [], tp_Chunks = [], tp_Stats = zero_stats\<rparr>"

definition decode_chunk :: "json \<Rightarrow> Chunk option" where
  "decode_chunk j =
     decode_struct [(''seq'', set_int (\<lambda>i c. c\<lparr>ch_Seq := i\<rparr>)), (''eof'', set_bool (\<lambda>b c. c\<lparr>ch_EOF := b\<rparr>)),
       (''data_b64'', set_string (\<lambda>v c. c\<lparr>ch_DataB64 := v\<rparr>))] j \<lparr>ch_Seq = 0, ch_EOF = False, ch_DataB64 = []\<rparr>"

definition set_chunks :: "TaskResponse setter" where
  "set_chunks j r =
     (case j of
        JNull \<Rightarrow> Some (r\<lparr>tp_Chunks := []\<rparr>)
      | JArr js \<Rightarrow> (let cs = map decode_chunk js in if None \<in> set cs then None else Some (r\<lparr>tp_Chunks := map the cs\<rparr>))
      | _ \<Rightarrow> None)"

definition set_stats :: "TaskResponse setter" where
  "set_stats j r =
     map_option (\<lambda>s. r\<lparr>tp_Stats := s\<rparr>)
       (decode_struct [(''duration_ms'', set_int (\<lambda>i s. s\<lparr>ts_DurationMS := i\<rparr>)), (''cpu_ms'', set_int (\<lambda>i s. s\<lparr>ts_CPUMS := i\<rparr>)),
          (''mem_peak_bytes'', set_int (\<lambda>i s. s\<lparr>ts_MemPeakBytes := i\<rparr>))] j (tp_Stats r))"

definition decode_task_response :: "TaskResponse setter" where
  "decode_task_response =
     decode_struct [(''task_id'', set_string (\<lambda>v r. r\<lparr>tp_TaskID := v\<rparr>)), (''status'', set_string (\<lambda>v r. r\<lparr>tp_Status := v\<rparr>)),
       (''error'', set_string (\<lambda>v r. r\<lparr>tp_Error := v\<rparr>)),
       (''summary'', set_map (\<lambda>m r. r\<lparr>tp_Summary := (case m of None \<Rightarrow> [] | Some m \<Rightarrow> m)\<rparr>)),
       (''chunks'', set_chunks), (''stats'', set_stats)]"

definition decode_error :: "rpcError setter" where
  "decode_error = decode_struct [(''code'', set_int (\<lambda>i e. e\<lparr>rpe_Code := i\<rparr>)), (''message'', set_string (\<lambda>v e. e\<lparr>rpe_Message := v\<rparr>))]"

definition decode_response :: "json \<Rightarrow> rpcResponse option" where
  "decode_response j =
     decode_struct [(''id'', \<lambda>j r. map_option (\<lambda>_. r) (json_any j)),
       (''result'', set_ptr decode_task_response zero_response (\<lambda>x r. r\<lparr>rps_Result := x\<rparr>)),
       (''error'', set_ptr decode_error \<lparr>rpe_Code = 0, rpe_Message = []\<rparr> (\<lambda>x r. r\<lparr>rps_Error := x\<rparr>))] j
       \<lparr>rps_Result = None, rps_Error = None\<rparr>"

text \<open>An exchange of the gateway with a plugin that answers a JSON value with a JSON value, or with nothing.\<close>

definition exchange :: "(float64 \<Rightarrow> string) \<Rightarrow> (json \<Rightarrow> json option) \<Rightarrow> rpc" where
  "exchange fmt plugin socketPath q =
     (case request_json fmt q of
        None \<Rightarrow> EncodeErr ''json: unsupported value''
      | Some j \<Rightarrow>
          (case plugin j of
             None \<Rightarrow> ReadErr ''EOF''
           | Some a \<Rightarrow> (case decode_response a of None \<Rightarrow> DecodeErr ''json: cannot unmarshal'' | Some r \<Rightarrow> Replied r)))"

subsection \<open>The Go SDK\<close>

record sdk_TaskRequest =
  sq_TaskID :: string
  sq_TaskType :: string
  sq_Params :: "goval gomap option"
  sq_Deadline :: int

record sdk_TaskResponse =
  sp_TaskID :: string
  sp_Status :: string
  sp_Data :: goval
  sp_Error :: string

record sdk_rpcRequest =
  sr_ID :: goval
  sr_Method :: string
  sr_Params :: sdk_TaskRequest

type_synonym sdk_handler = "sdk_TaskRequest \<Rightarrow> sdk_TaskResponse result"

definition sdk_decode :: "json \<Rightarrow> sdk_rpcRequest option" where
  "sdk_decode j =
     decode_struct [(''id'', set_any (\<lambda>v q. q\<lparr>sr_ID := v\<rparr>)), (''method'', set_string (\<lambda>v q. q\<lparr>sr_Method := v\<rparr>)),
       (''params'', \<lambda>j q. map_option (\<lambda>t. q\<lparr>sr_Params := t\<rparr>)
          (decode_struct [(''task_id'', set_string (\<lambda>v t. t\<lparr>sq_TaskID := v\<rparr>)), (''task_type'', set_string (\<lambda>v t. t\<lparr>sq_TaskType := v\<rparr>)),
             (''params'', set_map (\<lambda>m t. t\<lparr>sq_Params := m\<rparr>)), (''deadline_ms'', set_int (\<lambda>i t. t\<lparr>sq_Deadline := i\<rparr>))] j (sr_Params q)))] j
       \<lparr>sr_ID = GNil, sr_Method = [], sr_Params = \<lparr>sq_TaskID = [], sq_TaskType = [], sq_Params = None, sq_Deadline = 0\<rparr>\<rparr>"

text \<open>\<open>writeResult\<close> and \<open>writeError\<close>; nothing is written where the value cannot be encoded.\<close>

definition writeResult :: "(float64 \<Rightarrow> string) \<Rightarrow> goval \<Rightarrow> json option \<Rightarrow> json option" where
  "writeResult fmt i result =
     (case (json_of fmt i, result) of (Some a, Some r) \<Rightarrow> Some (JObj [(''id'', a), (''result'', r)]) | _ \<Rightarrow> None)"

definition writeError :: "(float64 \<Rightarrow> string) \<Rightarrow> goval \<Rightarrow> int \<Rightarrow> string \<Rightarrow> json option" where
  "writeError fmt i code msg =
     map_option (\<lambda>a. JObj [(''id'', a), (''error'', JObj [(''code'', JNum (itoa code)), (''message'', JStr msg)])]) (json_of fmt i)"

definition sdk_response_json :: "(float64 \<Rightarrow> string) \<Rightarrow> sdk_TaskResponse \<Rightarrow> json option" where
  "sdk_response_json fmt r =
     map_option (\<lambda>d. JObj ([(''task_id'', JStr (sp_TaskID r)), (''status'', JStr (sp_Status r))]
         @ (if sp_Data r = GNil then [] else [(''data'', d)]) @ (if sp_Error r = [] then [] else [(''error'', JStr (sp_Error r))])))
       (json_of fmt (sp_Data r))"

text \<open>One line of \<open>handleConnection\<close>.\<close>

definition sdk_answer :: "(float64 \<Rightarrow> string) \<Rightarrow> sdk_handler \<Rightarrow> json \<Rightarrow> json option" where
  "sdk_answer fmt handler j =
     (case sdk_decode j of
        None \<Rightarrow> writeError fmt (GInt 0) (-32700) ''parse error: %s''
      | Some req \<Rightarrow>
          if sr_Method req = ''ping'' then writeResult fmt (sr_ID req) (Some (JStr ''pong''))
          else if sr_Method req = ''execute_task'' then
            (case handler (sr_Params req) of
               Inl e \<Rightarrow> writeError fmt (sr_ID req) (-32000) e
             | Inr resp \<Rightarrow> writeResult fmt (sr_ID req) (sdk_response_json fmt resp))
          else writeError fmt (sr_ID req) (-32601) (''method not found: '' @ sr_Method req))"

subsection \<open>The Rust SDK\<close>

text \<open>
  \<open>serde\<close> decodes a struct from an object or from an array of its fields in order: a field without a default
  must be there and none may be there twice, a type that does not fit is an error, unknown members are ignored.
  The identifier is an \<open>i64\<close>; a minus zero is a float.
\<close>

definition serde_members :: "string list \<Rightarrow> json \<Rightarrow> (string \<times> json) list option" where
  "serde_members names j =
     (case j of
        JObj ms \<Rightarrow> if list_all (\<lambda>k. length (filter (\<lambda>p. fst p = k) ms) \<le> 1) names then Some ms else None
      | JArr js \<Rightarrow> if length js \<le> length names then Some (zip names js) else None
      | _ \<Rightarrow> None)"

datatype rsdk_error = RConfig string | RExecution string | RIo string | RJson string

record rsdk_TaskRequest =
  rq_task_id :: string
  rq_task_type :: string
  rq_params :: json
  rq_deadline_ms :: int

record rsdk_TaskResponse =
  rp_task_id :: string
  rp_status :: string
  rp_data :: "json option"
  rp_error :: "string option"

type_synonym rsdk_plugin = "rsdk_TaskRequest \<Rightarrow> rsdk_error + rsdk_TaskResponse"

definition default_task :: rsdk_TaskRequest where
  "default_task = \<lparr>rq_task_id = [], rq_task_type = [], rq_params = JNull, rq_deadline_ms = 0\<rparr>"

definition rsdk_string :: "(string \<times> json) list \<Rightarrow> string \<Rightarrow> string option" where
  "rsdk_string ms k = (case map_of ms k of None \<Rightarrow> Some [] | Some (JStr s) \<Rightarrow> Some s | _ \<Rightarrow> None)"

definition rsdk_int :: "json option \<Rightarrow> int option" where
  "rsdk_int j = (case j of Some (JNum l) \<Rightarrow> if l = ''-0'' then None else Atoi l | _ \<Rightarrow> None)"

definition rsdk_task :: "json \<Rightarrow> rsdk_TaskRequest option" where
  "rsdk_task j =
     (case serde_members [''task_id'', ''task_type'', ''params'', ''deadline_ms''] j of
        Some ms \<Rightarrow>
          (case (rsdk_string ms ''task_id'', rsdk_string ms ''task_type'',
                 case map_of ms ''deadline_ms'' of None \<Rightarrow> Some 0 | d \<Rightarrow> rsdk_int d) of
             (Some i, Some t, Some d) \<Rightarrow>
               Some \<lparr>rq_task_id = i, rq_task_type = t, rq_params = (case map_of ms ''params'' of None \<Rightarrow> JNull | Some v \<Rightarrow> v), rq_deadline_ms = d\<rparr>
           | _ \<Rightarrow> None)
      | _ \<Rightarrow> None)"

definition rsdk_decode :: "json \<Rightarrow> (int \<times> string \<times> rsdk_TaskRequest) option" where
  "rsdk_decode j =
     (case serde_members [''id'', ''method'', ''params''] j of
        Some ms \<Rightarrow>
          (case (rsdk_int (map_of ms ''id''), map_of ms ''method'', case map_of ms ''params'' of None \<Rightarrow> Some default_task | Some p \<Rightarrow> rsdk_task p) of
             (Some i, Some (JStr method), Some t) \<Rightarrow> Some (i, method, t)
           | _ \<Rightarrow> None)
      | _ \<Rightarrow> None)"

definition rsdk_success :: "int \<Rightarrow> json \<Rightarrow> json" where
  "rsdk_success i result = JObj [(''id'', JNum (itoa i)), (''result'', result)]"

definition rsdk_failure :: "int \<Rightarrow> int \<Rightarrow> string \<Rightarrow> json" where
  "rsdk_failure i code msg =
     JObj [(''id'', JNum (itoa i)), (''error'', JObj [(''code'', JNum (itoa code)), (''message'', JStr msg)])]"

definition rsdk_response_json :: "rsdk_TaskResponse \<Rightarrow> json" where
  "rsdk_response_json r =
     JObj ([(''task_id'', JStr (rp_task_id r)), (''status'', JStr (rp_status r))]
       @ (case rp_data r of None \<Rightarrow> [] | Some d \<Rightarrow> [(''data'', d)]) @ (case rp_error r of None \<Rightarrow> [] | Some e \<Rightarrow> [(''error'', JStr e)]))"

definition dispatch_request :: "rsdk_plugin \<Rightarrow> int \<times> string \<times> rsdk_TaskRequest \<Rightarrow> json" where
  "dispatch_request plugin req =
     (case req of (i, method, params) \<Rightarrow>
        if method = ''ping'' then rsdk_success i (JStr ''pong'')
        else if method = ''execute_task'' then
          (case plugin params of
             Inr resp \<Rightarrow> rsdk_success i (rsdk_response_json resp)
           | Inl (RConfig m) \<Rightarrow> rsdk_failure i (-32602) m
           | Inl (RExecution m) \<Rightarrow> rsdk_failure i (-32000) m
           | Inl (RIo m) \<Rightarrow> rsdk_failure i (-32603) (''IO error: '' @ m)
           | Inl (RJson m) \<Rightarrow> rsdk_failure i (-32700) (''JSON error: '' @ m))
        else rsdk_failure i (-32601) (''method not found: '' @ method))"

definition rsdk_answer :: "rsdk_plugin \<Rightarrow> json \<Rightarrow> json option" where
  "rsdk_answer plugin j =
     Some (case rsdk_decode j of
             None \<Rightarrow> rsdk_failure 0 (-32700) ''parse error: {}''
           | Some req \<Rightarrow> dispatch_request plugin req)"

subsection \<open>Numbers in JSON\<close>

lemma digit_digit: "n < 10 \<Longrightarrow> is_digit (digit n) \<and> digit_val (digit n) = int n"
proof -
  have "digit_val c = int (of_char c) - 48" for c by (simp only: digit_val_def of_nat_of_char)
  then show "n < 10 \<Longrightarrow> is_digit (digit n) \<and> digit_val (digit n) = int n" by (simp add: is_digit_def digit_def del: of_nat_of_char)
qed

lemma utoa_digits: "list_all is_digit (utoa n) \<and> utoa n \<noteq> [] \<and> digits_value (utoa n) = int n"
proof (induction n rule: utoa.induct)
  case (1 n)
  show ?case
  proof (cases "n < 10")
    case True
    then show ?thesis by (simp add: utoa.simps [of n] digit_digit digits_value_def)
  next
    case False
    then have u: "utoa n = utoa (n div 10) @ [digit (n mod 10)]" by (simp add: utoa.simps [of n])
    have "digits_value (utoa n) = digits_value (utoa (n div 10)) * 10 + int (n mod 10)"
      by (simp add: u digits_value_def digit_digit)
    moreover have "int n = int (n div 10) * 10 + int (n mod 10)" by presburger
    ultimately show ?thesis using 1 [OF False] by (simp add: u digit_digit)
  qed
qed

lemma Atoi_itoa:
  assumes "- (2 ^ 63) \<le> i" "i < 2 ^ 63"
  shows "Atoi (itoa i) = Some i"
proof -
  have ne: "\<not> HasPrefix (utoa n) ''-''" "\<not> HasPrefix (utoa n) ''+''" for n
    using utoa_digits [of n] by (cases "utoa n"; auto simp: HasPrefix_def is_digit_def)+
  show ?thesis
  proof (cases "i < 0")
    case True
    then show ?thesis using assms utoa_digits [of "nat (- i)"] by (simp add: itoa_def Atoi_def Let_def HasPrefix_def)
  next
    case False
    then show ?thesis using assms utoa_digits [of "nat i"] ne [of "nat i"] by (simp add: itoa_def Atoi_def Let_def)
  qed
qed

subsection \<open>What the SDKs make of a request of the gateway\<close>

lemmas decode_simps = decode_struct_def field_setter_def set_string_def set_int_def set_any_def set_map_def set_bool_def
  to_upper_char_def HasPrefix_def

lemma sdk_request:
  assumes "request_json fmt q = Some j" "r = (case rpq_Params q of None \<Rightarrow> zero_request | Some r \<Rightarrow> r)"
    and "- (2 ^ 63) \<le> tr_DeadlineMS r" "tr_DeadlineMS r < 2 ^ 63"
  shows "sdk_decode j = Some \<lparr>sr_ID = GString (rpq_ID q), sr_Method = rpq_Method q,
    sr_Params = \<lparr>sq_TaskID = tr_TaskID r, sq_TaskType = [], sq_Params = None, sq_Deadline = tr_DeadlineMS r\<rparr>\<rparr>"
proof -
  obtain payload where "j = JObj [(''id'', JStr (rpq_ID q)), (''method'', JStr (rpq_Method q)), (''params'',
      JObj [(''task_id'', JStr (tr_TaskID r)), (''type'', JStr (tr_Type r)), (''deadline_ms'', JNum (itoa (tr_DeadlineMS r))),
            (''payload'', payload), (''chunking'', chunking_json (tr_Chunking r))])]"
    using assms(1,2) by (auto simp: request_json_def task_json_def split: option.splits)
  then show ?thesis using Atoi_itoa [OF assms(3,4)] by (simp add: sdk_decode_def decode_simps)
qed

lemma rsdk_request: "request_json fmt q = Some j \<Longrightarrow> rsdk_decode j = None"
  by (auto simp: request_json_def rsdk_decode_def serde_members_def rsdk_int_def split: option.splits)

lemma ping_json: "\<exists>j. request_json fmt \<lparr>rpq_ID = ''ping'', rpq_Method = ''ping'', rpq_Params = None\<rparr> = Some j"
  by (simp add: request_json_def task_json_def zero_request_def)

lemma string_result_refused: "decode_response (JObj [(''id'', a), (''result'', JStr v)]) = None"
  by (simp add: decode_response_def decode_simps set_ptr_def decode_task_response_def split: option.split)

lemma sdk_ping:
  "Ping (exchange fmt (sdk_answer fmt h)) socket = Some ''decode ping response: json: cannot unmarshal''"
proof -
  let ?q = "\<lparr>rpq_ID = ''ping'', rpq_Method = ''ping'', rpq_Params = None\<rparr>"
  obtain j where j: "request_json fmt ?q = Some j" using ping_json by blast
  have "sdk_decode j = Some \<lparr>sr_ID = GString ''ping'', sr_Method = ''ping'',
      sr_Params = \<lparr>sq_TaskID = [], sq_TaskType = [], sq_Params = None, sq_Deadline = 0\<rparr>\<rparr>"
    using sdk_request [OF j refl] by (simp add: zero_request_def)
  then have "sdk_answer fmt h j = Some (JObj [(''id'', JStr ''ping''), (''result'', JStr ''pong'')])"
    by (simp add: sdk_answer_def writeResult_def)
  then show ?thesis by (simp add: Ping_def exchange_def j string_result_refused)
qed

lemma rsdk_refuses:
  assumes "request_json fmt q = Some j"
  shows "exchange fmt (rsdk_answer p) socket q
    = Replied \<lparr>rps_Result = None, rps_Error = Some \<lparr>rpe_Code = -32700, rpe_Message = ''parse error: {}''\<rparr>\<rparr>"
proof -
  have "Atoi (itoa (- 32700)) = Some (- 32700)" by (rule Atoi_itoa) simp_all
  moreover have "json_any (JNum (itoa 0)) \<noteq> None" by code_simp
  ultimately show ?thesis
    by (auto simp: exchange_def assms rsdk_answer_def rsdk_request [OF assms] rsdk_failure_def decode_response_def decode_simps set_ptr_def
        decode_error_def)
qed

lemma rsdk_ping: "Ping (exchange fmt (rsdk_answer p)) socket = Some ''ping error (%d): parse error: {}''"
proof -
  obtain j where "request_json fmt \<lparr>rpq_ID = ''ping'', rpq_Method = ''ping'', rpq_Params = None\<rparr> = Some j" using ping_json by blast
  from rsdk_refuses [OF this] show ?thesis by (simp add: Ping_def)
qed

text \<open>Plugins written with the SDKs do not get their tasks: of every request the gateway sends, a plugin with the Go SDK
  sees the task identifier and the deadline, but an empty task type and no parameters, whatever the request has,
  and a plugin with the Rust SDK answers every request with a parse error before its task handler is called.\<close>

theorem sdk_requests_lost:
  assumes "request_json fmt \<lparr>rpq_ID = tr_TaskID r, rpq_Method = ''execute_task'', rpq_Params = Some r\<rparr> = Some j"
    and "- (2 ^ 63) \<le> tr_DeadlineMS r" "tr_DeadlineMS r < 2 ^ 63"
  shows "map_option sr_Params (sdk_decode j)
      = Some \<lparr>sq_TaskID = tr_TaskID r, sq_TaskType = [], sq_Params = None, sq_Deadline = tr_DeadlineMS r\<rparr>
    \<and> rpc_ExecuteTask (exchange fmt (rsdk_answer p)) socket r = Inl ''plugin rpc error (%d): parse error: {}''"
  using sdk_request [OF assms(1) refl] assms(2,3) rsdk_refuses [OF assms(1)] by (simp add: rpc_ExecuteTask_def)

definition echo_request :: TaskRequest where
  "echo_request = \<lparr>tr_TaskID = ''t1'', tr_Type = ''say'', tr_DeadlineMS = 5000, tr_Payload = Some [(''text'', GString ''hello'')],
     tr_Chunking = \<lparr>ck_Enabled = True, ck_MaxChunkBytes = 1024, ck_MaxTotalBytes = 4096\<rparr>\<rparr>"

text \<open>C35: the gateway restarts every plugin that is written with an SDK, over and over: in every state it can get to, a
  plugin that runs and answers with the Go or the Rust SDK fails its health check, whatever its task handler is, and is
  stopped and loaded again; it then runs with a restart count of zero, so no limit on restarts ends this.\<close>

theorem sdk_plugins_restart_forever:
  fixes cfg :: GatewayConfig and ms :: "PluginManifest list" and envs :: "load_env list" and es :: "gw_event list"
  defines "s \<equiv> fold gw_step es (snd (gw_Start (Inr ms) envs (NewGateway cfg)))"
  assumes "distinct (map pm_Name ms)" and "map_of (gw_plugins s) n = Some p" "mp_Status p = PluginStatusRunning"
    and sdk: "he_rpc he = exchange fmt (sdk_answer fmt h) \<or> he_rpc he = exchange fmt (rsdk_answer pl)" and "\<not> he_done he"
    and "le_mkdir (he_load he) = None" "\<not> le_symlink (he_load he)" "le_binary (he_load he) = None"
      "le_start (he_load he) = None" "le_socket (he_load he) = None"
  shows "snd (healthCheck_one n he s) = snd (loadPlugin (he_load he) (mp_Manifest p) (stopPlugin n p s))
    \<and> (\<exists>p'. map_of (gw_plugins (snd (healthCheck_one n he s))) n = Some p'
      \<and> mp_Status p' = PluginStatusRunning \<and> mp_RestartCount p' = 0)"
proof -
  have "Ping (he_rpc he) client \<noteq> None" for client using sdk sdk_ping rsdk_ping by auto
  from restarts_never_counted [OF assms(2) assms(3,4) [unfolded s_def] this assms(6-11)] show ?thesis unfolding s_def by blast
qed

theorem sdk_plugins_restart_forever_witness:
  "\<exists>p'. map_of (gw_plugins (snd (healthCheck_one ''echo''
       \<lparr>he_now = 0, he_rpc = exchange (\<lambda>_. []) (sdk_answer (\<lambda>_. []) (\<lambda>r. Inl ''unknown'')), he_done = False, he_load = fine_env\<rparr>
       echo_state))) ''echo'' = Some p'
     \<and> mp_Status p' = PluginStatusRunning \<and> mp_RestartCount p' = 0"
proof -
  let ?he = "\<lparr>he_now = 0, he_rpc = exchange (\<lambda>_. []) (sdk_answer (\<lambda>_. []) (\<lambda>r. Inl ''unknown'')), he_done = False, he_load = fine_env\<rparr>"
  obtain p where p: "map_of (gw_plugins echo_state) ''echo'' = Some p" "mp_Status p = PluginStatusRunning"
    using echo_running(1) by blast
  have "snd (healthCheck_one ''echo'' ?he (fold gw_step [] echo_state))
        = snd (loadPlugin (he_load ?he) (mp_Manifest p) (stopPlugin ''echo'' p (fold gw_step [] echo_state)))
      \<and> (\<exists>p'. map_of (gw_plugins (snd (healthCheck_one ''echo'' ?he (fold gw_step [] echo_state)))) ''echo'' = Some p'
      \<and> mp_Status p' = PluginStatusRunning \<and> mp_RestartCount p' = 0)"
    unfolding echo_state_def
    by (rule sdk_plugins_restart_forever [OF echo_distinct, where fmt = "\<lambda>_. []" and h = "\<lambda>r. Inl ''unknown''" and pl = "\<lambda>r. Inl (RConfig [])"])
       (use p in \<open>simp_all add: echo_state_def echo_sel\<close>)
  then show ?thesis by auto
qed

theorem sdk_requests_lost_witness:
  "\<exists>j. request_json (\<lambda>_. []) \<lparr>rpq_ID = ''t1'', rpq_Method = ''execute_task'', rpq_Params = Some echo_request\<rparr> = Some j
     \<and> map_option sr_Params (sdk_decode j) = Some \<lparr>sq_TaskID = ''t1'', sq_TaskType = [], sq_Params = None, sq_Deadline = 5000\<rparr>"
proof -
  obtain j where j: "request_json (\<lambda>_. []) \<lparr>rpq_ID = ''t1'', rpq_Method = ''execute_task'', rpq_Params = Some echo_request\<rparr> = Some j"
    by (auto simp: request_json_def task_json_def echo_request_def Let_def)
  then show ?thesis
    using sdk_requests_lost [of "\<lambda>_. []" echo_request j "\<lambda>_. Inl (RConfig [])" "[]"] by (simp add: echo_request_def)
qed

end
