(* ===== verification/Rust_Runtime.thy ===== *)
theory Rust_Runtime
imports Plugin_Sdk
begin

text \<open>
  The Rust plugin runtime (\<open>rust-runtime/src\<close>): the chunks of an output, the registry of its plugins, the
  connection handler and two of its plugins, and the exchange of the agent's plugin runtime client
  (\<open>internal/pluginruntime\<close>) with it; also the chunks of the Go SDK. The base64 crate is the parameter
  \<open>encode\<close>; the walk over files, the probes and the eBPF plugin are plugins in the registry like any other.
\<close>

subsection \<open>Base64\<close>

text \<open>\<open>base64.StdEncoding\<close> of Go.\<close>

definition b64_char :: "nat \<Rightarrow> char" where
  "b64_char n = (''ABCDEFGHIJKLMNOPQRSTUVWXYZabcdefghijklmnopqrstuvwxyz0123456789+/'' ! n)"

fun b64 :: "string \<Rightarrow> string" where
  "b64 [] = []"
| "b64 [a] = (let x = of_char a in [b64_char (x div 4), b64_char (x mod 4 * 16), CHR ''='', CHR ''=''])"
| "b64 [a, b] = (let x = of_char a; y = of_char b
     in [b64_char (x div 4), b64_char (x mod 4 * 16 + y div 16), b64_char (y mod 16 * 4), CHR ''=''])"
| "b64 (a # b # c # s) = (let x = of_char a; y = of_char b; z = of_char c
     in [b64_char (x div 4), b64_char (x mod 4 * 16 + y div 16), b64_char (y mod 16 * 4 + z div 64), b64_char (z mod 64)]) @ b64 s"

lemma b64_length: "length (b64 s) = 4 * ((length s + 2) div 3)"
proof (induction s rule: b64.induct)
  case (4 a b c s)
  have "(length (a # b # c # s) + 2) div 3 = Suc ((length s + 2) div 3)" by simp
  with 4 show ?case by (simp add: Let_def)
qed (simp_all add: Let_def)

subsection \<open>chunking.rs and the chunks of the Go SDK\<close>

function parts :: "nat \<Rightarrow> string \<Rightarrow> string list" where
  "parts step s = (if s = [] \<or> step = 0 then [] else take step s # parts step (drop step s))"
  by pat_completeness auto
termination by (relation "measure (length \<circ> snd)") auto

declare parts.simps [simp del]

lemma parts_simps [simp]:
  "parts step [] = []" "parts 0 s = []" "s \<noteq> [] \<Longrightarrow> 0 < step \<Longrightarrow> parts step s = take step s # parts step (drop step s)"
  by (simp_all add: parts.simps [of step s] parts.simps [of step "[]"] parts.simps [of 0 s])

fun number_chunks :: "nat \<Rightarrow> string list \<Rightarrow> Chunk list" where
  "number_chunks seq [] = []"
| "number_chunks seq (p # ps) = \<lparr>ch_Seq = int seq, ch_EOF = (ps = []), ch_DataB64 = p\<rparr> # number_chunks (Suc seq) ps"

text \<open>The output the runtime is allowed to send.\<close>

definition capped :: "ChunkingConfig \<Rightarrow> string \<Rightarrow> string" where
  "capped config output =
     (if ck_MaxTotalBytes config > 0 \<and> int (length output) > ck_MaxTotalBytes config
      then take (nat (ck_MaxTotalBytes config)) output else output)"

definition chunk_output :: "(string \<Rightarrow> string) \<Rightarrow> string \<Rightarrow> ChunkingConfig \<Rightarrow> Chunk list" where
  "chunk_output encode output config =
     (if \<not> ck_Enabled config then [\<lparr>ch_Seq = 1, ch_EOF = True, ch_DataB64 = encode output\<rparr>]
      else
        (let bytes = capped config output;
             step = (if ck_MaxChunkBytes config = 0 then length bytes else nat (ck_MaxChunkBytes config))
         in number_chunks 1 (map encode (parts step bytes))))"

definition ChunkSize :: int where "ChunkSize = 256 * 1024"

definition ChunkOutput :: "string \<Rightarrow> int \<Rightarrow> Chunk slice" where
  "ChunkOutput output maxChunkBytes =
     (let m = (if maxChunkBytes \<le> 0 then ChunkSize else maxChunkBytes); encoded = b64 output
      in if int (length encoded) \<le> m then None else Some (number_chunks 0 (parts (nat m) encoded)))"

subsection \<open>Plugins\<close>

datatype PluginError = PConfig string | PExecution string | PResource string | PUnsupported string | PIo string

fun rpc_code :: "PluginError \<Rightarrow> int" where
  "rpc_code (PConfig _) = -32602"
| "rpc_code (PExecution _) = -32000"
| "rpc_code (PResource _) = -32001"
| "rpc_code (PUnsupported _) = -32002"
| "rpc_code (PIo _) = -32603"

fun err_string :: "PluginError \<Rightarrow> string" where
  "err_string (PConfig m) = ''Configuration error: '' @ m"
| "err_string (PExecution m) = ''Execution error: '' @ m"
| "err_string (PResource m) = ''Resource error: '' @ m"
| "err_string (PUnsupported m) = ''Unsupported on this system: '' @ m"
| "err_string (PIo m) = ''IO error: '' @ m"

record PluginResult =
  pr_status :: string
  pr_summary :: "json option"
  pr_output :: string

type_synonym rust_plugin = "json \<Rightarrow> PluginError + PluginResult"
type_synonym PluginRegistry = "rust_plugin gomap"

definition reg_register :: "string \<Rightarrow> rust_plugin \<Rightarrow> PluginRegistry \<Rightarrow> PluginRegistry" where
  "reg_register task_type plugin reg = map_put task_type plugin reg"

definition reg_dispatch :: "PluginRegistry \<Rightarrow> string \<Rightarrow> json \<Rightarrow> PluginError + PluginResult" where
  "reg_dispatch reg task_type payload =
     (case map_of reg task_type of
        Some plugin \<Rightarrow> plugin payload
      | None \<Rightarrow> Inl (PExecution (''unsupported task type: '' @ task_type)))"

text \<open>A \<open>serde_json::Value\<close> keeps the last of members of one name.\<close>

definition payload_str :: "json \<Rightarrow> string \<Rightarrow> string option" where
  "payload_str payload k = (case payload of JObj ms \<Rightarrow> (case map_of (rev ms) k of Some (JStr s) \<Rightarrow> Some s | _ \<Rightarrow> None) | _ \<Rightarrow> None)"

text \<open>The words \<open>error\<close> and \<open>warn\<close> are ASCII, and no rune outside ASCII has one of their letters as its lower case.\<close>

definition log_parse :: rust_plugin where
  "log_parse payload =
     (let text = (case payload_str payload ''text'' of None \<Rightarrow> [] | Some s \<Rightarrow> s);
          lines = map ToLower (text_lines text);
          count = (\<lambda>w. JNum (utoa (length (filter (\<lambda>l. Contains l w) lines))))
      in Inr \<lparr>pr_status = ''ok'',
           pr_summary = Some (JObj [(''error_count'', count ''error''), (''line_count'', JNum (utoa (length lines))), (''warning_count'', count ''warn'')]),
           pr_output = []\<rparr>)"

text \<open>\<open>up\<close> and \<open>low\<close> are the case mappings of the Rust standard library.\<close>

definition text_process :: "(string \<Rightarrow> string) \<Rightarrow> (string \<Rightarrow> string) \<Rightarrow> rust_plugin" where
  "text_process up low payload =
     (let text = (case payload_str payload ''text'' of None \<Rightarrow> [] | Some s \<Rightarrow> s);
          op = (case payload_str payload ''operation'' of None \<Rightarrow> ''uppercase'' | Some s \<Rightarrow> s);
          ok = (\<lambda>more out. Inr \<lparr>pr_status = ''ok'', pr_summary = Some (JObj ((''operation'', JStr op) # more)), pr_output = out\<rparr>)
      in if op = ''uppercase'' then ok [] (up text)
         else if op = ''lowercase'' then ok [] (low text)
         else if op = ''word_count'' then
           (let words = utoa (length (strings_Fields text)) in ok [(''word_count'', JNum words)] words)
         else Inl (PExecution (''unsupported operation: '' @ op)))"

definition build_registry :: "(string \<Rightarrow> string) \<Rightarrow> (string \<Rightarrow> string) \<Rightarrow> rust_plugin \<Rightarrow> rust_plugin \<Rightarrow> rust_plugin \<Rightarrow> rust_plugin \<Rightarrow> PluginRegistry" where
  "build_registry up low fs_scan conn_analyze local_probe ebpf_collect =
     fold (\<lambda>(t, p). reg_register t p)
       [(''plugin_fs_scan'', fs_scan), (''plugin_log_parse'', log_parse), (''plugin_text_process'', text_process up low),
        (''plugin_conn_analyze'', conn_analyze), (''plugin_local_probe'', local_probe), (''plugin_ebpf_collect'', ebpf_collect)] []"

subsection \<open>Connections\<close>

definition json_string :: "json option \<Rightarrow> string option" where
  "json_string j = (case j of Some (JStr s) \<Rightarrow> Some s | _ \<Rightarrow> None)"

definition json_usize :: "json option \<Rightarrow> int option" where
  "json_usize j =
     (case j of
        Some (JNum l) \<Rightarrow> if list_all is_digit l \<and> digits_value l < 2 ^ 64 then Some (digits_value l) else None
      | _ \<Rightarrow> None)"

definition decode_chunking :: "json option \<Rightarrow> ChunkingConfig option" where
  "decode_chunking j =
     (case Option.bind j (serde_members [''enabled'', ''max_chunk_bytes'', ''max_total_bytes'']) of
        Some ms \<Rightarrow>
          (case (map_of ms ''enabled'', json_usize (map_of ms ''max_chunk_bytes''), json_usize (map_of ms ''max_total_bytes'')) of
             (Some (JBool b), Some c, Some t) \<Rightarrow> Some \<lparr>ck_Enabled = b, ck_MaxChunkBytes = c, ck_MaxTotalBytes = t\<rparr>
           | _ \<Rightarrow> None)
      | _ \<Rightarrow> None)"

record rust_request =
  rr_id :: string
  rr_method :: string
  rr_task_id :: string
  rr_type :: string
  rr_deadline_ms :: int
  rr_payload :: json
  rr_chunking :: ChunkingConfig

definition decode_request :: "json \<Rightarrow> rust_request option" where
  "decode_request j =
     (case serde_members [''id'', ''method'', ''params''] j of
        Some ms \<Rightarrow>
          (case (json_string (map_of ms ''id''), json_string (map_of ms ''method''),
                 Option.bind (map_of ms ''params'') (serde_members [''task_id'', ''type'', ''deadline_ms'', ''payload'', ''chunking''])) of
             (Some i, Some method, Some ps) \<Rightarrow>
               (case (json_string (map_of ps ''task_id''), json_string (map_of ps ''type''), rsdk_int (map_of ps ''deadline_ms''),
                      map_of ps ''payload'', decode_chunking (map_of ps ''chunking'')) of
                  (Some t, Some ty, Some d, Some pl, Some c) \<Rightarrow>
                    Some \<lparr>rr_id = i, rr_method = method, rr_task_id = t, rr_type = ty, rr_deadline_ms = d, rr_payload = pl, rr_chunking = c\<rparr>
                | _ \<Rightarrow> None)
           | _ \<Rightarrow> None)
      | _ \<Rightarrow> None)"

definition chunk_json :: "Chunk \<Rightarrow> json" where
  "chunk_json c = JObj [(''seq'', JNum (itoa (ch_Seq c))), (''eof'', JBool (ch_EOF c)), (''data_b64'', JStr (ch_DataB64 c))]"

definition rust_error :: "string \<Rightarrow> int \<Rightarrow> string \<Rightarrow> json" where
  "rust_error i code msg = JObj [(''id'', JStr i), (''error'', JObj [(''code'', JNum (itoa code)), (''message'', JStr msg)])]"

definition rust_success :: "string \<Rightarrow> string \<Rightarrow> PluginResult \<Rightarrow> Chunk list \<Rightarrow> json" where
  "rust_success i task_id r chunks =
     JObj [(''id'', JStr i), (''result'',
       JObj ([(''task_id'', JStr task_id), (''status'', JStr (pr_status r))]
         @ (case pr_summary r of None \<Rightarrow> [] | Some s \<Rightarrow> [(''summary'', s)])
         @ (if chunks = [] then [] else [(''chunks'', JArr (map chunk_json chunks))])
         @ [(''stats'', JObj [(''duration_ms'', JNum ''0'')])]))]"

text \<open>A request that cannot be decoded ends the connection without an answer.\<close>

definition handle_connection :: "(string \<Rightarrow> string) \<Rightarrow> PluginRegistry \<Rightarrow> json \<Rightarrow> json option" where
  "handle_connection encode reg j =
     (case decode_request j of
        None \<Rightarrow> None
      | Some req \<Rightarrow>
          Some (if rr_method req \<noteq> ''execute_task'' then rust_error (rr_id req) (-32601) ''method not found''
                else (case reg_dispatch reg (rr_type req) (rr_payload req) of
                        Inl e \<Rightarrow> rust_error (rr_id req) (rpc_code e) (err_string e)
                      | Inr r \<Rightarrow> rust_success (rr_id req) (rr_task_id req) r (chunk_output encode (pr_output r) (rr_chunking req)))))"

subsection \<open>Chunks\<close>

lemma parts_laws:
  "0 < step \<Longrightarrow> concat (parts step s) = s"
  "p \<in> set (parts step s) \<Longrightarrow> p \<noteq> [] \<and> length p \<le> step"
  "length (parts step s) \<le> length s"
proof (induction step s rule: parts.induct)
  case (1 step s)
  { case 1 with "1.IH"(1) show ?case by (cases "s = []") simp_all }
  { case 2 with "1.IH"(2) show ?case by (cases "s = [] \<or> step = 0") (auto split: if_splits) }
  { case 3 with "1.IH"(3) show ?case by (cases "s = [] \<or> step = 0") (auto simp: neq_Nil_conv) }
qed

lemma parts_exact: "0 < step \<Longrightarrow> length s = k * step \<Longrightarrow> map length (parts step s) = replicate k step"
proof (induction k arbitrary: s)
  case (Suc k)
  then have "s \<noteq> []" "length (drop step s) = k * step" by auto
  with Suc show ?case by simp
qed simp

lemma number_data: "map ch_DataB64 (number_chunks n ps) = ps"
  by (induction n ps rule: number_chunks.induct) simp_all

lemma number_seq: "map ch_Seq (number_chunks n ps) = map int [n..<n + length ps]"
  by (induction n ps rule: number_chunks.induct) (simp_all add: upt_conv_Cons del: upt_Suc)

lemma number_length [simp]: "length (number_chunks n ps) = length ps"
  by (induction n ps rule: number_chunks.induct) simp_all

lemma number_eof: "map ch_EOF (number_chunks n ps) = map (\<lambda>i. Suc i = length ps) [0..<length ps]"
proof (induction n ps rule: number_chunks.induct)
  case (2 n p ps)
  have "[0..<length (p # ps)] = 0 # map Suc [0..<length ps]" by (simp add: map_Suc_upt upt_conv_Cons del: upt_Suc)
  with 2 show ?case by (auto simp del: upt_Suc)
qed simp

text \<open>The Go SDK cuts the encoded text, not the output: the chunks together are the encoding of the output.\<close>

lemma ChunkOutput_encoded:
  "ChunkOutput output m = Some cs \<Longrightarrow> concat (map ch_DataB64 cs) = b64 output
     \<and> map ch_Seq cs = map int [0..<length cs]"
  by (auto simp: ChunkOutput_def Let_def ChunkSize_def number_data number_seq parts_laws split: if_splits)


subsection \<open>The agent's client and the runtime\<close>

lemma itoa_plain: "itoa i \<noteq> ''-0''"
proof (cases "i < 0")
  case True
  have "digits_value ''0'' = 0" by code_simp
  with True utoa_digits [of "nat (- i)"] show ?thesis by (auto simp: itoa_def)
next
  case False
  have "\<not> is_digit (CHR ''-'')" by code_simp
  with False utoa_digits [of "nat i"] show ?thesis by (auto simp: itoa_def)
qed

lemma usize_itoa: "0 \<le> i \<Longrightarrow> i < 2 ^ 63 \<Longrightarrow> json_usize (Some (JNum (itoa i))) = Some i"
  using utoa_digits [of "nat i"] by (simp add: json_usize_def itoa_def)

lemma rust_request:
  assumes "request_json fmt \<lparr>rpq_ID = i, rpq_Method = method, rpq_Params = Some r\<rparr> = Some j"
    and "- (2 ^ 63) \<le> tr_DeadlineMS r" "tr_DeadlineMS r < 2 ^ 63"
    and "ck_MaxChunkBytes (tr_Chunking r) \<in> {0..<2 ^ 63}" "ck_MaxTotalBytes (tr_Chunking r) \<in> {0..<2 ^ 63}"
  shows "\<exists>payload. (case tr_Payload r of None \<Rightarrow> Some JNull | Some m \<Rightarrow> json_of fmt (GMap m)) = Some payload
    \<and> decode_request j = Some \<lparr>rr_id = i, rr_method = method, rr_task_id = tr_TaskID r, rr_type = tr_Type r,
        rr_deadline_ms = tr_DeadlineMS r, rr_payload = payload, rr_chunking = tr_Chunking r\<rparr>"
proof -
  obtain payload where p: "(case tr_Payload r of None \<Rightarrow> Some JNull | Some m \<Rightarrow> json_of fmt (GMap m)) = Some payload"
    and j: "j = JObj [(''id'', JStr i), (''method'', JStr method), (''params'',
      JObj [(''task_id'', JStr (tr_TaskID r)), (''type'', JStr (tr_Type r)), (''deadline_ms'', JNum (itoa (tr_DeadlineMS r))),
            (''payload'', payload), (''chunking'', chunking_json (tr_Chunking r))])]"
    using assms(1) by (auto simp: request_json_def task_json_def split: option.splits)
  have "decode_chunking (Some (chunking_json (tr_Chunking r))) = Some (tr_Chunking r)"
    using assms(4,5) usize_itoa by (simp add: decode_chunking_def chunking_json_def serde_members_def)
  then have "decode_request j = Some \<lparr>rr_id = i, rr_method = method, rr_task_id = tr_TaskID r, rr_type = tr_Type r,
        rr_deadline_ms = tr_DeadlineMS r, rr_payload = payload, rr_chunking = tr_Chunking r\<rparr>"
    using Atoi_itoa [OF assms(2,3)] itoa_plain by (simp add: j decode_request_def serde_members_def json_string_def rsdk_int_def)
  with p show ?thesis by blast
qed

lemma chunk_back: "ch_Seq c \<in> {0..<2 ^ 63} \<Longrightarrow> decode_chunk (chunk_json c) = Some c"
  using Atoi_itoa [of "ch_Seq c"] by (simp add: decode_chunk_def chunk_json_def decode_simps)

lemma chunks_back:
  assumes "list_all (\<lambda>c. ch_Seq c \<in> {0..<2 ^ 63}) cs"
  shows "set_chunks (JArr (map chunk_json cs)) r = Some (r\<lparr>tp_Chunks := cs\<rparr>)"
proof -
  have "map (decode_chunk \<circ> chunk_json) cs = map Some cs"
    using assms chunk_back by (simp add: list_all_iff)
  then show ?thesis by (auto simp: set_chunks_def Let_def simp del: map_eq_conv)
qed

text \<open>What a summary is after it was decoded into a Go map.\<close>

definition summary_map :: "json option \<Rightarrow> goval gomap option" where
  "summary_map summary =
     (case summary of
        Some (JObj ms) \<Rightarrow> (case json_any (JObj ms) of Some (GMap m) \<Rightarrow> Some m | _ \<Rightarrow> None)
      | Some JNull \<Rightarrow> Some []
      | None \<Rightarrow> Some []
      | _ \<Rightarrow> None)"

lemma summary_back:
  "summary_map (Some j) = Some m \<Longrightarrow> set_map (\<lambda>m r. r\<lparr>tp_Summary := (case m of None \<Rightarrow> [] | Some m \<Rightarrow> m)\<rparr>) j (a :: TaskResponse) = Some (a\<lparr>tp_Summary := m\<rparr>)"
  by (cases j) (auto simp: summary_map_def set_map_def simp del: json_any.simps split: option.splits goval.splits)

lemma success_back:
  assumes "list_all (\<lambda>c. ch_Seq c \<in> {0..<2 ^ 63}) cs" "summary_map (pr_summary r) = Some m"
  shows "decode_response (rust_success i t r cs) = Some \<lparr>rps_Result = Some \<lparr>tp_TaskID = t, tp_Status = pr_status r, tp_Error = [],
      tp_Summary = m, tp_Chunks = cs, tp_Stats = zero_stats\<rparr>, rps_Error = None\<rparr>"
proof -
  have zero: "Atoi ''0'' = Some 0" by code_simp
  have stats: "set_stats (JObj [(''duration_ms'', JNum ''0'')]) a = Some (a\<lparr>tp_Stats := (tp_Stats a)\<lparr>ts_DurationMS := 0\<rparr>\<rparr>)" for a
    by (simp add: set_stats_def decode_simps zero)
  note simps = rust_success_def decode_response_def decode_task_response_def decode_struct_def field_setter_def set_string_def set_ptr_def
    stats zero_response_def zero_stats_def
  show ?thesis
  proof (cases "pr_summary r")
    case None
    then show ?thesis using assms(2) chunks_back [OF assms(1)] by (cases "cs = []") (simp_all add: simps summary_map_def)
  next
    case (Some j)
    then show ?thesis
      using summary_back [of j m] assms(2) chunks_back [OF assms(1)] by (cases "cs = []") (simp_all add: simps)
  qed
qed

lemma error_back:
  assumes "- (2 ^ 63) \<le> code" "code < 2 ^ 63"
  shows "decode_response (rust_error i code msg) = Some \<lparr>rps_Result = None, rps_Error = Some \<lparr>rpe_Code = code, rpe_Message = msg\<rparr>\<rparr>"
  using Atoi_itoa [OF assms] by (simp add: rust_error_def decode_response_def decode_error_def decode_simps set_ptr_def)

text \<open>The request the client sends, and what the runtime's registry answers to it.\<close>

definition sent :: "RuntimeConfig \<Rightarrow> int \<Rightarrow> TaskRequest \<Rightarrow> TaskRequest" where
  "sent cfg dl req = runtime_request (rt_cfg (New_runtime cfg)) dl req"

definition runtime_answers ::
  "(float64 \<Rightarrow> string) \<Rightarrow> PluginRegistry \<Rightarrow> RuntimeConfig \<Rightarrow> int \<Rightarrow> TaskRequest \<Rightarrow> PluginError + PluginResult \<Rightarrow> bool" where
  "runtime_answers fmt reg cfg dl req res \<longleftrightarrow>
     rc_Enabled cfg \<and> tr_TaskID req \<noteq> [] \<and> tr_Type req \<noteq> []
     \<and> tr_DeadlineMS (sent cfg dl req) \<in> {- (2 ^ 63)..<2 ^ 63}
     \<and> ck_MaxChunkBytes (tr_Chunking (sent cfg dl req)) < 2 ^ 63 \<and> ck_MaxTotalBytes (tr_Chunking (sent cfg dl req)) < 2 ^ 63
     \<and> (case json_of fmt (GMap (the (tr_Payload (sent cfg dl req)))) of
          None \<Rightarrow> False
        | Some payload \<Rightarrow> reg_dispatch reg (tr_Type req) payload = res)"

lemma sent_sel:
  "tr_TaskID (sent cfg dl req) = tr_TaskID req" "tr_Type (sent cfg dl req) = tr_Type req" "tr_Payload (sent cfg dl req) \<noteq> None"
  "ck_Enabled (tr_Chunking (sent cfg dl req))"
  "0 < ck_MaxChunkBytes (tr_Chunking (sent cfg dl req))" "0 < ck_MaxTotalBytes (tr_Chunking (sent cfg dl req))"
  by (auto simp: sent_def runtime_request_def New_runtime_def split: option.split)

lemma runtime_replies:
  assumes "runtime_answers fmt reg cfg dl req res"
  shows "exchange fmt (handle_connection encode reg) socket \<lparr>rpq_ID = tr_TaskID req, rpq_Method = ''execute_task'', rpq_Params = Some (sent cfg dl req)\<rparr>
    = (case decode_response (case res of
           Inl e \<Rightarrow> rust_error (tr_TaskID req) (rpc_code e) (err_string e)
         | Inr r \<Rightarrow> rust_success (tr_TaskID req) (tr_TaskID req) r (chunk_output encode (pr_output r) (tr_Chunking (sent cfg dl req)))) of
         None \<Rightarrow> DecodeErr ''json: cannot unmarshal''
       | Some resp \<Rightarrow> Replied resp)"
proof -
  let ?r = "sent cfg dl req"
  let ?q = "\<lparr>rpq_ID = tr_TaskID req, rpq_Method = ''execute_task'', rpq_Params = Some ?r\<rparr>"
  obtain payload where p: "json_of fmt (GMap (the (tr_Payload ?r))) = Some payload" "reg_dispatch reg (tr_Type req) payload = res"
    using assms by (auto simp: runtime_answers_def simp del: json_of.simps split: option.splits)
  have e: "(case tr_Payload ?r of None \<Rightarrow> Some JNull | Some m \<Rightarrow> json_of fmt (GMap m)) = Some payload"
    using p(1) sent_sel(3) [of cfg dl req] by (auto simp del: json_of.simps)
  then obtain j where j: "request_json fmt ?q = Some j" by (simp add: request_json_def task_json_def)
  have "- (2 ^ 63) \<le> tr_DeadlineMS ?r" "tr_DeadlineMS ?r < 2 ^ 63"
    "ck_MaxChunkBytes (tr_Chunking ?r) \<in> {0..<2 ^ 63}" "ck_MaxTotalBytes (tr_Chunking ?r) \<in> {0..<2 ^ 63}"
    using assms sent_sel(5,6) [of cfg dl req] by (simp_all add: runtime_answers_def)
  from rust_request [OF j this] e
  have "decode_request j = Some \<lparr>rr_id = tr_TaskID req, rr_method = ''execute_task'', rr_task_id = tr_TaskID req, rr_type = tr_Type req,
        rr_deadline_ms = tr_DeadlineMS ?r, rr_payload = payload, rr_chunking = tr_Chunking ?r\<rparr>" by (simp add: sent_sel)
  then show ?thesis by (cases res) (simp_all add: exchange_def j handle_connection_def p(2))
qed

definition decoded_size :: "Chunk list \<Rightarrow> int" where
  "decoded_size cs = int (sum_list (map (DecodedLen \<circ> length \<circ> ch_DataB64) cs))"

lemma chunk_output_seq:
  "int (length output) < 2 ^ 63 - 1 \<Longrightarrow> list_all (\<lambda>c. ch_Seq c \<in> {0..<2 ^ 63}) (chunk_output encode output config)"
proof (cases "ck_Enabled config")
  case True
  assume len: "int (length output) < 2 ^ 63 - 1"
  have l: "length (parts k (capped config output)) \<le> length output" for k
    using parts_laws(3) [of k "capped config output"] by (rule order_trans) (simp add: capped_def)
  have "ch_Seq c \<in> {0..<2 ^ 63}" if "c \<in> set (number_chunks 1 (map encode (parts k (capped config output))))" for c k
  proof -
    have "ch_Seq c \<in> set (map ch_Seq (number_chunks 1 (map encode (parts k (capped config output)))))" using that by simp
    then show ?thesis using l [of k] len unfolding number_seq by auto
  qed
  with True show ?thesis by (simp add: chunk_output_def Let_def list_all_iff)
qed (simp add: chunk_output_def)

lemma runtime_result:
  fixes encode :: "string \<Rightarrow> string"
  assumes "runtime_answers fmt reg cfg dl req (Inr res)" "summary_map (pr_summary res) = Some m" "int (length (pr_output res)) < 2 ^ 63 - 1"
  defines "cs \<equiv> chunk_output encode (pr_output res) (tr_Chunking (sent cfg dl req))"
  shows "runtime_ExecuteTask (exchange fmt (handle_connection encode reg)) None dl req (New_runtime cfg)
    = (if decoded_size cs \<le> rc_MaxResultBytes (rt_cfg (New_runtime cfg))
       then Inr \<lparr>tp_TaskID = tr_TaskID req, tp_Status = pr_status res, tp_Error = [], tp_Summary = m, tp_Chunks = cs, tp_Stats = zero_stats\<rparr>
       else Inl ''plugin response exceeded max result bytes: %d > %d'')"
proof -
  let ?max = "rc_MaxResultBytes (rt_cfg (New_runtime cfg))"
  have pos: "0 < ?max" by (simp add: New_runtime_def)
  have dec: "decode_response (rust_success (tr_TaskID req) (tr_TaskID req) res cs) = Some \<lparr>rps_Result = Some \<lparr>tp_TaskID = tr_TaskID req,
      tp_Status = pr_status res, tp_Error = [], tp_Summary = m, tp_Chunks = cs, tp_Stats = zero_stats\<rparr>, rps_Error = None\<rparr>"
    unfolding cs_def by (rule success_back [OF chunk_output_seq [OF assms(3)] assms(2)])
  have loop: "chunk_loop b n xs = None \<or> chunk_loop b n xs = Some ''plugin response exceeded max result bytes: %d > %d''" for b n xs
    by (induction xs arbitrary: n) (simp_all add: Let_def)
  have v: "validateChunkSize r ?max = (if decoded_size (tp_Chunks r) \<le> ?max then None else Some ''plugin response exceeded max result bytes: %d > %d'')" for r
    using chunk_loop_None [of 0 ?max "tp_Chunks r"] loop [of ?max 0 "tp_Chunks r"] pos by (auto simp: validateChunkSize_def decoded_size_def)
  have "rc_Enabled (rt_cfg (New_runtime cfg))" "tr_TaskID req \<noteq> []" "tr_Type req \<noteq> []"
    using assms(1) by (simp_all add: runtime_answers_def New_runtime_def)
  then show ?thesis
    using runtime_replies [OF assms(1), of encode] dec v by (simp add: runtime_ExecuteTask_def Let_def flip: sent_def cs_def)
qed

text \<open>Base64, as far as the size check of the client relies on it.\<close>

locale base64 =
  fixes encode :: "string \<Rightarrow> string"
  assumes encode_length: "length (encode s) = 4 * ((length s + 2) div 3)"
begin

lemma decoded_len: "DecodedLen (length (encode p)) = 3 * ((length p + 2) div 3)"
  by (simp add: DecodedLen_def encode_length)

lemma decoded_numbered: "decoded_size (number_chunks n (map encode ps)) = int (\<Sum>p\<leftarrow>ps. 3 * ((length p + 2) div 3))"
  by (induction ps arbitrary: n) (simp_all add: decoded_size_def decoded_len)

lemma decoded_at_most: "decoded_size (number_chunks n (map encode ps)) \<le> int (length (concat ps) + 2 * length ps)"
  unfolding decoded_numbered by (induction ps) auto

lemma decoded_exact:
  assumes "map length ps = replicate k c" "c mod 3 \<noteq> 0" "0 < k"
  shows "int (k * c) < decoded_size (number_chunks n (map encode ps))"
proof -
  have "(\<Sum>p\<leftarrow>ps. 3 * ((length p + 2) div 3)) = sum_list (map (\<lambda>l. 3 * ((l + 2) div 3)) (map length ps))" by (simp add: o_def)
  also have "\<dots> = k * (3 * ((c + 2) div 3))" by (simp add: assms(1) sum_list_replicate)
  finally have "decoded_size (number_chunks n (map encode ps)) = int (k * (3 * ((c + 2) div 3)))" unfolding decoded_numbered by simp
  moreover have "c < 3 * ((c + 2) div 3)" using assms(2) by presburger
  ultimately show ?thesis using assms(3) by simp
qed

end

interpretation std: base64 b64
  by unfold_locales (rule b64_length)

lemma length_parts: "0 < step \<Longrightarrow> length (parts step s) = (length s + step - 1) div step"
proof (induction step s rule: parts.induct)
  case (1 step s)
  show ?case
  proof (cases "s = []")
    case False
    have "(length s + step - 1) div step = Suc ((length s - step + step - 1) div step)"
    proof (cases "length s < step")
      case True
      then have "(length s + step - 1) div step = 1" "(length s - step + step - 1) div step = 0"
        using False 1(2) by (cases s; force intro: div_nat_eqI)+
      then show ?thesis by simp
    next
      case False
      then show ?thesis using 1(2) by (simp add: div_if)
    qed
    with 1 False show ?thesis by simp
  qed (use 1 in simp)
qed

lemma chunk_output_sent:
  "chunk_output encode output (tr_Chunking (sent cfg dl req))
    = number_chunks 1 (map encode (parts (nat (ck_MaxChunkBytes (tr_Chunking (sent cfg dl req)))) (capped (tr_Chunking (sent cfg dl req)) output)))"
  using sent_sel(4,5) [of cfg dl req] by (simp add: chunk_output_def)

text \<open>C19: the agent gets the whole output of a task of the plugin runtime, in order: where the limit leaves room for the output and
  two bytes of padding per chunk, the call returns the status and the summary of the plugin, and chunks that are the encoded pieces
  of the output, each of at most the chunk size, numbered from one, only the last marked as the end.\<close>

theorem runtime_delivers_output:
  assumes "\<And>s. length (encode s) = 4 * ((length s + 2) div 3)"
    and "runtime_answers fmt reg cfg dl req (Inr res)" "summary_map (pr_summary res) = Some m"
    and "step = nat (ck_MaxChunkBytes (tr_Chunking (sent cfg dl req)))" "limit = rc_MaxResultBytes (rt_cfg (New_runtime cfg))"
    and "limit \<le> ck_MaxTotalBytes (tr_Chunking (sent cfg dl req))" "limit < 2 ^ 63"
    and "int (length (pr_output res) + 2 * ((length (pr_output res) + step - 1) div step)) \<le> limit"
  shows "\<exists>ps cs. runtime_ExecuteTask (exchange fmt (handle_connection encode reg)) None dl req (New_runtime cfg)
      = Inr \<lparr>tp_TaskID = tr_TaskID req, tp_Status = pr_status res, tp_Error = [], tp_Summary = m, tp_Chunks = cs, tp_Stats = zero_stats\<rparr>
    \<and> map ch_DataB64 cs = map encode ps \<and> concat ps = pr_output res \<and> list_all (\<lambda>p. p \<noteq> [] \<and> length p \<le> step) ps
    \<and> map ch_Seq cs = map int [1..<Suc (length ps)] \<and> map ch_EOF cs = map (\<lambda>i. Suc i = length ps) [0..<length ps]"
proof -
  have b: "base64 encode" using assms(1) by unfold_locales
  let ?c = "tr_Chunking (sent cfg dl req)"
  let ?ps = "parts step (pr_output res)"
  have step: "0 < step" using sent_sel(5) [of cfg dl req] assms(4) by simp
  have cap: "capped ?c (pr_output res) = pr_output res" using assms(6,8) by (simp add: capped_def)
  have cs: "chunk_output encode (pr_output res) ?c = number_chunks 1 (map encode ?ps)" using cap by (simp add: chunk_output_sent assms(4))
  have "decoded_size (number_chunks 1 (map encode ?ps)) \<le> limit"
    using base64.decoded_at_most [OF b, of 1 ?ps] assms(8) length_parts [OF step, of "pr_output res"] parts_laws(1) [OF step, of "pr_output res"]
    by simp
  moreover have "int (length (pr_output res)) < 2 ^ 63 - 1"
  proof (cases "pr_output res = []")
    case False
    then have "0 < (length (pr_output res) + step - 1) div step" using step by (cases "pr_output res") (simp_all add: div_greater_zero_iff)
    then show ?thesis using assms(7,8) by linarith
  qed simp
  ultimately have "runtime_ExecuteTask (exchange fmt (handle_connection encode reg)) None dl req (New_runtime cfg)
      = Inr \<lparr>tp_TaskID = tr_TaskID req, tp_Status = pr_status res, tp_Error = [], tp_Summary = m, tp_Chunks = number_chunks 1 (map encode ?ps), tp_Stats = zero_stats\<rparr>"
    using runtime_result [OF assms(2,3), of encode] assms(5) by (simp add: cs)
  moreover have "map ch_EOF (number_chunks 1 (map encode ?ps)) = map (\<lambda>i. Suc i = length ?ps) [0..<length ?ps]"
    using number_eof [of 1 "map encode ?ps"] by simp
  ultimately show ?thesis
    using parts_laws(1) [OF step] parts_laws(2) by (fastforce simp: number_data number_seq list_all_iff)
qed

text \<open>C36: output that the runtime cuts to the limit is refused: where the limit is a number of whole chunks and the chunk size is not a
  multiple of three, as the default sizes of 8 MiB and 256 KiB are, every output of at least the limit makes the call fail,
  though the runtime sent no more bytes than the limit.\<close>

theorem capped_output_refused:
  assumes "\<And>s. length (encode s) = 4 * ((length s + 2) div 3)"
    and "runtime_answers fmt reg cfg dl req (Inr res)" "summary_map (pr_summary res) = Some m"
    and "step = nat (ck_MaxChunkBytes (tr_Chunking (sent cfg dl req)))" "limit = rc_MaxResultBytes (rt_cfg (New_runtime cfg))"
    and "ck_MaxTotalBytes (tr_Chunking (sent cfg dl req)) = limit"
    and "limit = int (k * step)" "step mod 3 \<noteq> 0" "limit \<le> int (length (pr_output res))" "int (length (pr_output res)) < 2 ^ 63 - 1"
  shows "runtime_ExecuteTask (exchange fmt (handle_connection encode reg)) None dl req (New_runtime cfg)
      = Inl ''plugin response exceeded max result bytes: %d > %d''
    \<and> int (length (capped (tr_Chunking (sent cfg dl req)) (pr_output res))) = limit"
proof -
  have b: "base64 encode" using assms(1) by unfold_locales
  let ?c = "tr_Chunking (sent cfg dl req)"
  let ?o = "capped ?c (pr_output res)"
  have step: "0 < step" and pos: "0 < limit" using sent_sel(5,6) [of cfg dl req] assms(4,6) by simp_all
  have len: "int (length ?o) = limit" using assms(6,9) pos by (simp add: capped_def)
  then have "length ?o = k * step" using assms(7) by linarith
  from parts_exact [OF step this] have "int (k * step) < decoded_size (number_chunks 1 (map encode (parts step ?o)))"
    using base64.decoded_exact [OF b] assms(7,8) pos by (cases "k = 0") simp_all
  then have "limit < decoded_size (chunk_output encode (pr_output res) ?c)" by (simp add: chunk_output_sent assms(4,7))
  then show ?thesis using runtime_result [OF assms(2,3,10), of encode] assms(5) len by simp
qed

text \<open>A plugin that fails, or a type no plugin has, is an error of the call with the error's text.\<close>

lemma runtime_failure:
  assumes "runtime_answers fmt reg cfg dl req (Inl e)"
  shows "runtime_ExecuteTask (exchange fmt (handle_connection encode reg)) None dl req (New_runtime cfg)
    = Inl (''plugin rpc error (%d): '' @ err_string e)"
proof -
  have "- (2 ^ 63) \<le> rpc_code e" "rpc_code e < 2 ^ 63" by (cases e; simp)+
  from error_back [OF this] have "decode_response (rust_error (tr_TaskID req) (rpc_code e) (err_string e))
    = Some \<lparr>rps_Result = None, rps_Error = Some \<lparr>rpe_Code = rpc_code e, rpe_Message = err_string e\<rparr>\<rparr>" .
  moreover have "rc_Enabled (rt_cfg (New_runtime cfg))" "tr_TaskID req \<noteq> []" "tr_Type req \<noteq> []"
    using assms by (simp_all add: runtime_answers_def New_runtime_def)
  ultimately show ?thesis
    using runtime_replies [OF assms, of encode] by (simp add: runtime_ExecuteTask_def Let_def flip: sent_def)
qed

text \<open>The default sizes are of the refused kind.\<close>

lemma default_sizes:
  fixes dl :: int
  assumes "rc_MaxResultBytes cfg \<le> 0" "rc_ChunkSizeBytes cfg \<le> 0"
    "ck_MaxChunkBytes (tr_Chunking req) \<le> 0" "ck_MaxTotalBytes (tr_Chunking req) \<le> 0"
  defines "c \<equiv> tr_Chunking (sent cfg dl req)"
  shows "rc_MaxResultBytes (rt_cfg (New_runtime cfg)) = int (32 * nat (ck_MaxChunkBytes c))" "nat (ck_MaxChunkBytes c) mod 3 \<noteq> 0"
    "ck_MaxTotalBytes c = rc_MaxResultBytes (rt_cfg (New_runtime cfg))"
  using assms(1-4) by (simp_all add: c_def sent_def runtime_request_def New_runtime_def)

subsection \<open>Examples\<close>

definition probe_registry :: PluginRegistry where
  "probe_registry = (let none = (\<lambda>_. Inl (PUnsupported ''none'')) in build_registry ToUpper ToLower none none none none)"

definition upper_request :: TaskRequest where
  "upper_request = \<lparr>tr_TaskID = ''t1'', tr_Type = ''plugin_text_process'', tr_DeadlineMS = 5000, tr_Payload = Some [(''text'', GString ''hello'')],
     tr_Chunking = \<lparr>ck_Enabled = True, ck_MaxChunkBytes = 0, ck_MaxTotalBytes = 0\<rparr>\<rparr>"

definition small_runtime :: "int \<Rightarrow> int \<Rightarrow> RuntimeConfig" where
  "small_runtime limit chunk =
     \<lparr>rc_Enabled = True, rc_RuntimePath = [], rc_SocketPath = ''/run/p.sock'', rc_AutoStart = False, rc_StartupTimeout = 0,
      rc_RequestTimeout = 0, rc_MaxConcurrentTasks = 0, rc_MaxResultBytes = limit, rc_ChunkSizeBytes = chunk, rc_SandboxProfile = []\<rparr>"

definition upper_result :: PluginResult where
  "upper_result = \<lparr>pr_status = ''ok'', pr_summary = Some (JObj [(''operation'', JStr ''uppercase'')]), pr_output = ''HELLO''\<rparr>"

lemma upper_sent:
  "0 < limit \<Longrightarrow> 0 < chunk \<Longrightarrow> tr_Chunking (sent (small_runtime limit chunk) 0 upper_request)
     = \<lparr>ck_Enabled = True, ck_MaxChunkBytes = chunk, ck_MaxTotalBytes = limit\<rparr>"
  by (simp add: sent_def runtime_request_def New_runtime_def small_runtime_def upper_request_def)

lemma upper_answers:
  assumes "0 < limit" "0 < chunk" "limit < 2 ^ 63" "chunk < 2 ^ 63"
  shows "runtime_answers (\<lambda>_. []) probe_registry (small_runtime limit chunk) 0 upper_request (Inr upper_result)"
proof -
  have "reg_dispatch probe_registry ''plugin_text_process'' (JObj [(''text'', JStr ''hello'')]) = Inr upper_result" by code_simp
  moreover have "tr_Payload (sent (small_runtime limit chunk) 0 upper_request) = Some [(''text'', GString ''hello'')]"
    "tr_DeadlineMS (sent (small_runtime limit chunk) 0 upper_request) = 5000"
    by (simp_all add: sent_def runtime_request_def upper_request_def)
  moreover have "rc_Enabled (small_runtime limit chunk)" "tr_TaskID upper_request = ''t1''" "tr_Type upper_request = ''plugin_text_process''"
    by (simp_all add: small_runtime_def upper_request_def)
  ultimately show ?thesis using assms by (simp add: runtime_answers_def upper_sent Let_def)
qed

lemma upper_summary: "summary_map (pr_summary upper_result) = Some [(''operation'', GString ''uppercase'')]"
  by code_simp

theorem runtime_delivers_output_witness:
  "\<exists>ps cs. runtime_ExecuteTask (exchange (\<lambda>_. []) (handle_connection b64 probe_registry)) None 0 upper_request (New_runtime (small_runtime 16 2))
      = Inr \<lparr>tp_TaskID = ''t1'', tp_Status = ''ok'', tp_Error = [], tp_Summary = [(''operation'', GString ''uppercase'')], tp_Chunks = cs, tp_Stats = zero_stats\<rparr>
    \<and> map ch_DataB64 cs = map b64 ps \<and> concat ps = ''HELLO'' \<and> list_all (\<lambda>p. p \<noteq> [] \<and> length p \<le> 2) ps"
proof -
  have l: "16 = rc_MaxResultBytes (rt_cfg (New_runtime (small_runtime 16 2)))" by code_simp
  have "tr_TaskID upper_request = ''t1''" "pr_status upper_result = ''ok''" "pr_output upper_result = ''HELLO''"
    by (simp_all add: upper_request_def upper_result_def)
  then show ?thesis
    using runtime_delivers_output [of b64, OF b64_length upper_answers upper_summary refl l] by (auto simp: upper_sent)
qed

theorem capped_output_refused_witness:
  "runtime_ExecuteTask (exchange (\<lambda>_. []) (handle_connection b64 probe_registry)) None 0 upper_request (New_runtime (small_runtime 4 2))
     = Inl ''plugin response exceeded max result bytes: %d > %d''"
proof -
  have l: "4 = rc_MaxResultBytes (rt_cfg (New_runtime (small_runtime 4 2)))" by code_simp
  have "pr_output upper_result = ''HELLO''" by (simp add: upper_result_def)
  then show ?thesis
    using capped_output_refused [of b64, OF b64_length upper_answers upper_summary refl l, where k = 2] by (simp add: upper_sent)
qed

end
