(* ===== verification/Agent_Update.thy ===== *)
theory Agent_Update
imports Plugin_Manifest
begin

text \<open>
  The updater of the agent's binary (\<open>internal/updater\<close>) and the plugin marketplace (\<open>internal/marketplace\<close>) on a disk of
  files and directories. Each call into the operating system takes its error, if it has one, from the environment;
  the hash, the signature scheme and the YAML library are parameters.
\<close>

subsection \<open>The disk\<close>

text \<open>A file is its contents and its mode (384 is 0600, 493 is 0755); a path is as the program wrote it, cleaned, without symbolic links.\<close>

type_synonym disk_file = "string \<times> nat"
type_synonym files = "string \<rightharpoonup> disk_file"

definition os_Rename :: "err \<Rightarrow> string \<Rightarrow> string \<Rightarrow> files \<Rightarrow> err \<times> files" where
  "os_Rename e src dst fs =
     (case e of
        Some m \<Rightarrow> (Some m, fs)
      | None \<Rightarrow>
          (case fs src of
             None \<Rightarrow> (Some ''no such file or directory'', fs)
           | Some f \<Rightarrow> (None, if src = dst then fs else (fs(dst \<mapsto> f))(src := None))))"

definition os_Remove :: "bool \<Rightarrow> string \<Rightarrow> files \<Rightarrow> files" where
  "os_Remove fails p fs = (if fails then fs else fs(p := None))"

subsection \<open>updater.go\<close>

definition maxDownloadSize :: int where "maxDownloadSize = 500 * 1024 * 1024"

record UpdateRequest =
  ur_Version :: string
  ur_DownloadURL :: string
  ur_SHA256 :: string
  ur_Signature :: string

record Updater =
  up_currentPath :: string
  up_backupPath :: string
  up_downloadDir :: string
  up_publicKey :: string

text \<open>
  The response of the server, the name of the new temporary file or the error of creating it, and the errors of the
  calls that follow; a write that fails may have written a part.
\<close>

record update_env =
  ue_get :: "(int \<times> (string \<times> err)) result"
  ue_temp :: "string result"
  ue_write :: "(string \<times> string) option"
  ue_close :: err
  ue_chmod :: err
  ue_remove_fails :: bool
  ue_backup :: err
  ue_install :: err
  ue_restore :: err

definition up_download :: "(int \<times> (string \<times> err)) result \<Rightarrow> string result" where
  "up_download get =
     (case get of
        Inl e \<Rightarrow> Inl (''http get failed: '' @ e)
      | Inr (status, body, err) \<Rightarrow>
          if status \<noteq> 200 then Inl ''unexpected status code: %d''
          else
            (let data = take (nat (maxDownloadSize + 1)) body
             in if err \<noteq> None \<and> int (length body) \<le> maxDownloadSize then Inl (''reading response body failed: '' @ the err)
                else if int (length data) > maxDownloadSize then Inl ''download exceeds maximum size of %d bytes''
                else Inr data))"

definition verifyChecksum :: "(string \<Rightarrow> string) \<Rightarrow> string \<Rightarrow> string \<Rightarrow> err" where
  "verifyChecksum sha256 data expected = (if sha256 data \<noteq> expected then Some ''checksum mismatch: expected %s, got %s'' else None)"

text \<open>\<open>ed25519.Verify\<close> panics on a key that is not 32 bytes long, and refuses a signature that is not 64 bytes long.\<close>

definition verifySignature :: "(string \<Rightarrow> string \<Rightarrow> string \<Rightarrow> bool) \<Rightarrow> string \<Rightarrow> string \<Rightarrow> string \<Rightarrow> err option" where
  "verifySignature verify key data sig =
     (if length key \<noteq> 32 then None
      else Some (if length sig = 64 \<and> verify key data sig then None else Some ''ed25519 signature verification failed''))"

definition writeTemp :: "update_env \<Rightarrow> string \<Rightarrow> files \<Rightarrow> string result \<times> files" where
  "writeTemp env data fs =
     (case ue_temp env of
        Inl e \<Rightarrow> (Inl (''creating temp file failed: '' @ e), fs)
      | Inr tmp \<Rightarrow>
          (case ue_write env of
             Some (e, part) \<Rightarrow> (Inl (''writing temp file failed: '' @ e), os_Remove (ue_remove_fails env) tmp (fs(tmp \<mapsto> (part, 384))))
           | None \<Rightarrow>
               (let fs' = fs(tmp \<mapsto> (data, 384))
                in case ue_close env of
                     Some e \<Rightarrow> (Inl (''closing temp file failed: '' @ e), os_Remove (ue_remove_fails env) tmp fs')
                   | None \<Rightarrow>
                       (case ue_chmod env of
                          Some e \<Rightarrow> (Inl (''setting permissions failed: '' @ e), os_Remove (ue_remove_fails env) tmp fs')
                        | None \<Rightarrow> (Inr tmp, fs'(tmp \<mapsto> (data, 493)))))))"

definition up_swap :: "update_env \<Rightarrow> Updater \<Rightarrow> string \<Rightarrow> files \<Rightarrow> err \<times> files" where
  "up_swap env u newPath fs =
     (case os_Rename (ue_backup env) (up_currentPath u) (up_backupPath u) fs of
        (Some e, fs1) \<Rightarrow> (Some (''backing up current binary failed: '' @ e), fs1)
      | (None, fs1) \<Rightarrow>
          (case os_Rename (ue_install env) newPath (up_currentPath u) fs1 of
             (None, fs2) \<Rightarrow> (None, fs2)
           | (Some e, fs2) \<Rightarrow>
               (case os_Rename (ue_restore env) (up_backupPath u) (up_currentPath u) fs2 of
                  (Some e', fs3) \<Rightarrow> (Some ''installing new binary failed and rollback also failed: install=%w, rollback=%v'', fs3)
                | (None, fs3) \<Rightarrow> (Some (''installing new binary failed (backup restored): '' @ e), fs3))))"

text \<open>None is a panic.\<close>

definition up_Apply ::
  "(string \<Rightarrow> string) \<Rightarrow> (string \<Rightarrow> string \<Rightarrow> string \<Rightarrow> bool) \<Rightarrow> update_env \<Rightarrow> UpdateRequest \<Rightarrow> Updater \<Rightarrow> files \<Rightarrow> (err \<times> files) option" where
  "up_Apply sha256 verify env req u fs =
     (case up_download (ue_get env) of
        Inl e \<Rightarrow> Some (Some (''download failed: '' @ e), fs)
      | Inr data \<Rightarrow>
          (case verifyChecksum sha256 data (ur_SHA256 req) of
             Some e \<Rightarrow> Some (Some (''checksum verification failed: '' @ e), fs)
           | None \<Rightarrow>
               (case verifySignature verify (up_publicKey u) data (ur_Signature req) of
                  None \<Rightarrow> None
                | Some (Some e) \<Rightarrow> Some (Some (''signature verification failed: '' @ e), fs)
                | Some None \<Rightarrow>
                    Some (case writeTemp env data fs of
                            (Inl e, fs1) \<Rightarrow> (Some (''writing temp file failed: '' @ e), fs1)
                          | (Inr tmp, fs1) \<Rightarrow>
                              (case up_swap env u tmp fs1 of
                                 (Some e, fs2) \<Rightarrow> (Some (''swap failed: '' @ e), fs2)
                               | (None, fs2) \<Rightarrow> (None, fs2))))))"

definition up_Rollback :: "err \<Rightarrow> Updater \<Rightarrow> files \<Rightarrow> err \<times> files" where
  "up_Rollback e u fs =
     (if fs (up_backupPath u) = None then (Some ''backup not found: %w'', fs)
      else
        (case os_Rename e (up_backupPath u) (up_currentPath u) fs of
           (Some e, fs') \<Rightarrow> (Some (''rollback rename failed: '' @ e), fs')
         | (None, fs') \<Rightarrow> (None, fs')))"

subsection \<open>An update keeps the old binary\<close>

text \<open>What the updater relies on: there is a binary, the backup is another file, the temporary file is new.\<close>

definition update_ready :: "update_env \<Rightarrow> Updater \<Rightarrow> files \<Rightarrow> bool" where
  "update_ready env u fs \<longleftrightarrow>
     fs (up_currentPath u) \<noteq> None \<and> up_currentPath u \<noteq> up_backupPath u
     \<and> (case ue_temp env of Inl _ \<Rightarrow> True | Inr tmp \<Rightarrow> fs tmp = None \<and> tmp \<noteq> up_backupPath u)"







text \<open>An update that fails to put the new binary in its place uses up the backup of the update before, and leaves its temporary file.\<close>

lemma failed_update_uses_backup:
  assumes "update_ready env u fs" "up_download (ue_get env) = Inr data" "sha256 data = ur_SHA256 req" "length (up_publicKey u) = 32"
    and "length (ur_Signature req) = 64" "verify (up_publicKey u) data (ur_Signature req)"
    and "ue_temp env = Inr tmp" "ue_write env = None" "ue_close env = None" "ue_chmod env = None"
    and "ue_backup env = None" "ue_install env \<noteq> None" "ue_restore env = None"
  shows "\<exists>e fs'. up_Apply sha256 verify env req u fs = Some (Some e, fs') \<and> fs' tmp = Some (data, 493)
    \<and> fst (up_Rollback None u fs') = Some ''backup not found: %w''"
proof -
  obtain old m where o: "fs (up_currentPath u) = Some old" "ue_install env = Some m" using assms(1,12) by (auto simp: update_ready_def)
  let ?fs = "fs(tmp \<mapsto> (data, 493))"
  have ne: "tmp \<noteq> up_currentPath u" "tmp \<noteq> up_backupPath u" "up_currentPath u \<noteq> up_backupPath u"
    using assms(1,7) o by (auto simp: update_ready_def)
  have w: "writeTemp env data fs = (Inr tmp, ?fs)" using assms(7-10) by (simp add: writeTemp_def)
  obtain fs' where sw: "up_swap env u tmp ?fs = (Some (''installing new binary failed (backup restored): '' @ m), fs')"
      "fs' tmp = Some (data, 493)" "fs' (up_backupPath u) = None"
    using assms(11,13) o ne by (simp add: up_swap_def os_Rename_def)
  then have "up_Apply sha256 verify env req u fs = Some (Some (''swap failed: '' @ ''installing new binary failed (backup restored): '' @ m), fs')"
    using assms(2-6) w by (simp add: up_Apply_def verifyChecksum_def verifySignature_def)
  with sw(2,3) show ?thesis by (auto simp: up_Rollback_def)
qed

subsection \<open>registry.go\<close>

record PluginEntry =
  pe_Name :: string
  pe_Version :: string
  pe_Description :: string
  pe_Author :: string
  pe_Homepage :: string
  pe_Tags :: "string list"
  pe_DownloadURL :: string
  pe_Checksum :: string

record RegistryIndex =
  ri_Version :: string
  ri_UpdatedAt :: string
  ri_Plugins :: "PluginEntry list"

record Registry =
  rg_indexURL :: string
  rg_index :: "RegistryIndex option"

text \<open>The response of the server: its status and the decoded index.\<close>

definition fetchIndex :: "(int \<times> RegistryIndex result) result \<Rightarrow> Registry \<Rightarrow> err \<times> Registry" where
  "fetchIndex get r =
     (case get of
        Inl e \<Rightarrow> (Some (''fetch registry index: '' @ e), r)
      | Inr (status, body) \<Rightarrow>
          if status \<noteq> 200 then (Some ''fetch registry index: unexpected status %d'', r)
          else (case body of Inl e \<Rightarrow> (Some (''decode registry index: '' @ e), r) | Inr idx \<Rightarrow> (None, r\<lparr>rg_index := Some idx\<rparr>)))"

definition with_index :: "(int \<times> RegistryIndex result) result \<Rightarrow> (PluginEntry list \<Rightarrow> 'a result) \<Rightarrow> Registry \<Rightarrow> 'a result \<times> Registry" where
  "with_index get f r =
     (case (if rg_index r = None then fetchIndex get r else (None, r)) of
        (Some e, r') \<Rightarrow> (Inl e, r')
      | (None, r') \<Rightarrow> (f (case rg_index r' of None \<Rightarrow> [] | Some idx \<Rightarrow> ri_Plugins idx), r'))"

definition rg_Search :: "(int \<times> RegistryIndex result) result \<Rightarrow> string \<Rightarrow> Registry \<Rightarrow> PluginEntry list result \<times> Registry" where
  "rg_Search get query =
     (let q = ToLower query
      in with_index get (\<lambda>ps. Inr (filter (\<lambda>p. Contains (ToLower (pe_Name p)) q \<or> Contains (ToLower (pe_Description p)) q) ps)))"

definition rg_Get :: "(int \<times> RegistryIndex result) result \<Rightarrow> string \<Rightarrow> Registry \<Rightarrow> PluginEntry result \<times> Registry" where
  "rg_Get get name =
     with_index get (\<lambda>ps. case List.find (\<lambda>p. pe_Name p = name) ps of Some p \<Rightarrow> Inr p | None \<Rightarrow> Inl ''plugin %q not found'')"

subsection \<open>installer.go\<close>

record InstalledPlugin =
  ip_Name :: string
  ip_Version :: string
  ip_InstalledAt :: string

record disk =
  dk_files :: files
  dk_dirs :: "string list"

text \<open>All paths on the disk are absolute and cleaned. A call that fails may have done a part of its work.\<close>

definition dir_prefixes :: "string \<Rightarrow> string list" where
  "dir_prefixes p = map (\<lambda>i. if i = 0 then ''/'' else take i p) (filter (\<lambda>i. p ! i = CHR ''/'') [0..<length p]) @ [p]"

definition os_MkdirAll :: "(string \<times> string list) option \<Rightarrow> string \<Rightarrow> disk \<Rightarrow> err \<times> disk" where
  "os_MkdirAll e p d =
     (case e of
        Some (m, made) \<Rightarrow> (Some m, d\<lparr>dk_dirs := filter (\<lambda>q. q \<in> set (dir_prefixes p)) made @ dk_dirs d\<rparr>)
      | None \<Rightarrow> if \<exists>q\<in>set (dir_prefixes p). dk_files d q \<noteq> None then (Some ''not a directory'', d)
          else (None, d\<lparr>dk_dirs := dir_prefixes p @ dk_dirs d\<rparr>))"

text \<open>\<open>os.WriteFile\<close>; the mode of a file that is there stays, \<open>um\<close> applies the umask to the mode of a new one.\<close>

definition os_WriteFile :: "(nat \<Rightarrow> nat) \<Rightarrow> (string \<times> disk_file option) option \<Rightarrow> string \<Rightarrow> string \<Rightarrow> nat \<Rightarrow> disk \<Rightarrow> err \<times> disk" where
  "os_WriteFile um e p data mode d =
     (if p \<in> set (dk_dirs d) then (Some ''is a directory'', d)
      else if path_Dir p \<notin> set (dk_dirs d) then (Some ''no such file or directory'', d)
      else
        (case e of
           Some (m, left) \<Rightarrow> (Some m, d\<lparr>dk_files := (dk_files d)(p := left)\<rparr>)
         | None \<Rightarrow>
             (None, d\<lparr>dk_files := (dk_files d)(p \<mapsto> (data, case dk_files d p of None \<Rightarrow> um mode | Some f \<Rightarrow> snd f))\<rparr>)))"

definition path_below :: "string \<Rightarrow> string \<Rightarrow> bool" where
  "path_below p q \<longleftrightarrow> take (length (abs_comps p)) (abs_comps q) = abs_comps p"



record install_env =
  ie_mkdir :: "(string \<times> string list) option"
  ie_get :: "(int \<times> (string \<times> err)) result"
  ie_write :: "(string \<times> disk_file option) option"
  ie_meta :: "(string \<times> disk_file option) option"
  ie_now :: string

definition Install ::
  "(nat \<Rightarrow> nat) \<Rightarrow> (string \<Rightarrow> string) \<Rightarrow> (InstalledPlugin \<Rightarrow> string result) \<Rightarrow> install_env \<Rightarrow> string \<Rightarrow> PluginEntry \<Rightarrow> disk \<Rightarrow> err \<times> disk" where
  "Install um sha256 yaml env pluginsDir entry d =
     (if pe_Name entry = [] then (Some ''plugin name is required'', d)
      else if pe_DownloadURL entry = [] then (Some ''plugin download URL is required'', d)
      else
        (let pluginDir = path_Join [pluginsDir, pe_Name entry]
         in case os_MkdirAll (ie_mkdir env) pluginDir d of
              (Some e, d1) \<Rightarrow> (Some (''create plugin directory: '' @ e), d1)
            | (None, d1) \<Rightarrow>
                (case ie_get env of
                   Inl e \<Rightarrow> (Some (''download plugin %s: '' @ e), d1)
                 | Inr (status, data, readErr) \<Rightarrow>
                     if status \<noteq> 200 then (Some ''download plugin %s: unexpected status %d'', d1)
                     else if readErr \<noteq> None then (Some (''read plugin download: '' @ the readErr), d1)
                     else if pe_Checksum entry \<noteq> [] \<and> sha256 data \<noteq> pe_Checksum entry then
                       (Some ''checksum mismatch for plugin %s: expected %s, got %s'', d1)
                     else
                       (case os_WriteFile um (ie_write env) (path_Join [pluginDir, pe_Name entry]) data 493 d1 of
                          (Some e, d2) \<Rightarrow> (Some (''write plugin binary: '' @ e), d2)
                        | (None, d2) \<Rightarrow>
                            (case yaml \<lparr>ip_Name = pe_Name entry, ip_Version = pe_Version entry, ip_InstalledAt = ie_now env\<rparr> of
                               Inl e \<Rightarrow> (Some (''marshal plugin metadata: '' @ e), d2)
                             | Inr metaData \<Rightarrow>
                                 (case os_WriteFile um (ie_meta env) (path_Join [pluginDir, ''installed.yaml'']) metaData 420 d2 of
                                    (Some e, d3) \<Rightarrow> (Some (''write plugin metadata: '' @ e), d3)
                                  | (None, d3) \<Rightarrow> (None, d3)))))))"





subsection \<open>Plugins in their directories\<close>

definition abs_path :: "string list \<Rightarrow> string" where
  "abs_path cs = CHR ''/'' # join_with ''/'' cs"

definition plain_name :: "string \<Rightarrow> bool" where
  "plain_name n \<longleftrightarrow> plain_comp n \<and> CHR ''/'' \<notin> set n"

lemma clean_comps_append: "clean_comps rooted st (a @ b) = clean_comps rooted (rev (clean_comps rooted st a)) b"
  by (induction rooted st a rule: clean_comps.induct) (auto split: list.splits)

lemma clean_plain: "list_all plain_comp cs \<Longrightarrow> clean_comps rooted st cs = rev st @ cs"
  by (induction cs arbitrary: st) (auto simp: plain_comp_def)

lemma abs_comps_join: "abs_comps (p @ CHR ''/'' # q) = clean_comps True (rev (abs_comps p)) (split_on (CHR ''/'') q)"
  by (simp add: abs_comps_def split_on_append clean_comps_append)

lemma abs_comps_path: "list_all plain_name cs \<Longrightarrow> abs_comps (abs_path cs) = cs"
proof (cases "cs = []")
  case True
  then show ?thesis by (simp add: abs_comps_def abs_path_def)
next
  case False
  assume cs: "list_all plain_name cs"
  then have "split_on (CHR ''/'') (join_with ''/'' cs) = cs" using split_join [OF False] by (auto simp: list_all_iff plain_name_def)
  moreover have "abs_comps [] = []" by (simp add: abs_comps_def)
  ultimately show ?thesis
    using abs_comps_join [of "[]" "join_with ''/'' cs"] clean_plain [of cs True "[]"] cs
    by (simp add: abs_path_def list_all_iff plain_name_def)
qed

lemma abs_comps_names: "list_all plain_name (abs_comps p)"
  using abs_comps_plain [of p] by (simp add: list_all_iff plain_name_def)

lemma Clean_path: "IsAbs p \<Longrightarrow> path_Clean p = abs_path (abs_comps p)"
  by (simp add: Clean_abs abs_path_def)

lemma Join_path:
  assumes "IsAbs p" "q \<noteq> []"
  shows "path_Join [p, q] = abs_path (clean_comps True (rev (abs_comps p)) (split_on (CHR ''/'') q))"
proof -
  obtain t where "p = CHR ''/'' # t" using assms(1) by (auto simp: IsAbs_def HasPrefix_iff)
  then show ?thesis
    using assms Clean_path [of "p @ CHR ''/'' # q"] abs_comps_join [of p q] by (simp add: path_Join_def IsAbs_def HasPrefix_def)
qed

lemma Join_name: "IsAbs p \<Longrightarrow> plain_name n \<Longrightarrow> path_Join [p, n] = abs_path (abs_comps p @ [n])"
  using Join_path [of p n] by (simp add: plain_name_def plain_comp_def split_on_noc)

lemma IsAbs_path [simp]: "IsAbs (abs_path cs)"
  by (simp add: IsAbs_def abs_path_def HasPrefix_def)


lemma join_with_snoc: "join_with sep (cs @ [f]) = (if cs = [] then f else join_with sep cs @ sep @ f)"
  by (induction sep cs rule: join_with.induct) auto

lemma Dir_path:
  assumes "list_all plain_name cs" "plain_name f"
  shows "path_Dir (abs_path (cs @ [f])) = abs_path cs"
proof -
  have f: "takeWhile (\<lambda>c. c \<noteq> CHR ''/'') (rev f @ CHR ''/'' # x) = rev f" for x
    using assms(2) by (subst takeWhile_append2) (auto simp: plain_name_def)
  have e: "abs_path (cs @ [f]) = (if cs = [] then ''/'' else abs_path cs @ ''/'') @ f" by (simp add: abs_path_def join_with_snoc)
  then have "path_Dir (abs_path (cs @ [f])) = path_Clean (if cs = [] then ''/'' else abs_path cs @ ''/'')"
    unfolding path_Dir_def e by (simp add: after_slash_def f)
  also have "\<dots> = abs_path cs"
  proof (cases "cs = []")
    case True
    moreover have "path_Clean ''/'' = ''/''" by code_simp
    ultimately show ?thesis by (simp add: abs_path_def)
  next
    case False
    have "IsAbs (abs_path cs @ ''/'')" by (simp add: IsAbs_def abs_path_def HasPrefix_def)
    moreover have "abs_comps (abs_path cs @ ''/'') = cs"
      using abs_comps_join [of "abs_path cs" "[]"] abs_comps_path [OF assms(1)] by simp
    ultimately show ?thesis using False by (simp add: Clean_path)
  qed
  finally show ?thesis .
qed

lemma abs_path_inj: "list_all plain_name cs \<Longrightarrow> list_all plain_name ds \<Longrightarrow> abs_path cs = abs_path ds \<longleftrightarrow> cs = ds"
  using abs_comps_path by metis


lemma prefix_self: "p \<in> set (dir_prefixes p)"
  by (simp add: dir_prefixes_def)


lemma longer_no_prefix: "abs_path (cs @ [n]) \<notin> set (dir_prefixes (abs_path cs))" if "cs \<noteq> []"
proof -
  have "q \<in> set (dir_prefixes p) \<Longrightarrow> length q \<le> max 1 (length p)" for p q by (auto simp: dir_prefixes_def)
  moreover have "max 1 (length (abs_path cs)) < length (abs_path (cs @ [n]))" using that by (simp add: abs_path_def join_with_snoc)
  ultimately show ?thesis by (meson leD)
qed




text \<open>The name of a plugin can lead out of the plugins directory: for every plain name other than that of the plugins
  directory, an entry whose name goes up one level and then down twice by it is installed, when its files can be written, with its
  binary and its metadata outside the plugins directory.\<close>

theorem install_escapes:
  assumes "IsAbs dir" "abs_comps dir = cs @ [x]" "plain_name c" "c \<noteq> x" "pe_Name entry = ''../'' @ c @ ''/'' @ c" "c \<noteq> ''installed.yaml''"
    and "pe_DownloadURL entry \<noteq> []" "ie_get env = Inr (200, data, None)" "pe_Checksum entry = [] \<or> sha256 data = pe_Checksum entry"
    and "yaml \<lparr>ip_Name = pe_Name entry, ip_Version = pe_Version entry, ip_InstalledAt = ie_now env\<rparr> = Inr t"
    and "ie_mkdir env = None" "ie_write env = None" "ie_meta env = None"
    and free: "dk_files d = Map.empty" "abs_path (cs @ [c, c, c]) \<notin> set (dk_dirs d)" "abs_path (cs @ [c, c, ''installed.yaml'']) \<notin> set (dk_dirs d)"
  shows "\<exists>d' m1 m2. Install um sha256 yaml env dir entry d = (None, d')
    \<and> dk_files d' = [abs_path (cs @ [c, c, c]) \<mapsto> (data, m1), abs_path (cs @ [c, c, ''installed.yaml'']) \<mapsto> (t, m2)]
    \<and> \<not> path_below dir (abs_path (cs @ [c, c, c])) \<and> \<not> path_below dir (abs_path (cs @ [c, c, ''installed.yaml'']))"
proof -
  let ?n = "pe_Name entry" and ?p = "abs_path (cs @ [c, c])"
  have names: "list_all plain_name (cs @ [c, c])" "plain_name ''installed.yaml''" "?n \<noteq> []"
    using abs_comps_names [of dir] assms(2,3,5) by (simp_all add: plain_name_def plain_comp_def)
  have split: "split_on (CHR ''/'') ?n = [''..'', c, c]"
    using assms(3,5) split_on_append [of "CHR ''/''" "''..''"] split_on_append [of "CHR ''/''" c c]
    by (simp add: plain_name_def split_on_noc)
  have up: "clean_comps True (rev (ds @ [z])) [''..'', c, c] = ds @ [c, c]" if "plain_comp z" for ds z
    using assms(3) that by (simp add: plain_name_def plain_comp_def)
  have x: "plain_comp x" "plain_comp c" using abs_comps_names [of dir] assms(2,3) by (simp_all add: plain_name_def)
  have J: "path_Join [dir, ?n] = ?p" using Join_path [OF assms(1) names(3)] up [OF x(1), of cs] by (simp add: split assms(2))
  have J2: "path_Join [?p, ?n] = abs_path (cs @ [c, c, c])"
    using Join_path [OF IsAbs_path names(3), of "cs @ [c, c]"] up [OF x(2), of "cs @ [c]"] by (simp add: split abs_comps_path [OF names(1)])
  have J3: "path_Join [?p, ''installed.yaml''] = abs_path (cs @ [c, c, ''installed.yaml''])"
    using Join_name [OF IsAbs_path names(2), of "cs @ [c, c]"] by (simp add: abs_comps_path [OF names(1)])
  have D: "path_Dir (abs_path (cs @ [c, c, f])) = ?p" "abs_path (cs @ [c, c, f]) \<notin> set (dir_prefixes ?p)"
    "\<not> path_below dir (abs_path (cs @ [c, c, f]))" if "plain_name f" for f
    using Dir_path [OF names(1) that] longer_no_prefix [of "cs @ [c, c]" f] abs_comps_path [of "cs @ [c, c, f]"] names(1) that assms(2,4)
    by (simp_all add: path_below_def)
  have ne: "abs_path (cs @ [c, c, c]) \<noteq> abs_path (cs @ [c, c, ''installed.yaml''])"
    using abs_path_inj [of "cs @ [c, c, c]" "cs @ [c, c, ''installed.yaml'']"] names assms(6) by simp
  show ?thesis
    using assms(7-13) free D [OF assms(3)] D [OF names(2)] prefix_self [of ?p] names(3) ne
    by (auto simp: Install_def Let_def J J2 J3 os_MkdirAll_def os_WriteFile_def)
qed

subsection \<open>Examples\<close>





definition fine_install :: install_env where
  "fine_install = \<lparr>ie_mkdir = None, ie_get = Inr (200, ''bin'', None), ie_write = None, ie_meta = None, ie_now = ''2026''\<rparr>"

definition some_entry :: "string \<Rightarrow> PluginEntry" where
  "some_entry n = \<lparr>pe_Name = n, pe_Version = ''1'', pe_Description = [], pe_Author = [], pe_Homepage = [], pe_Tags = [],
     pe_DownloadURL = ''https://x'', pe_Checksum = ''nib''\<rparr>"

definition some_disk :: disk where
  "some_disk = \<lparr>dk_files = Map.empty, dk_dirs = [''/opt/plugins'', ''/opt'', ''/'']\<rparr>"

text \<open>A reader and a writer of metadata that agree.\<close>

definition plain_yaml :: "InstalledPlugin \<Rightarrow> string result" where
  "plain_yaml m = (if ip_Version m = ''1'' \<and> ip_InstalledAt m = ''2026'' then Inr (ip_Name m) else Inl ''other'')"



theorem install_escapes_witness:
  "\<exists>d' m1 m2. Install id rev plain_yaml fine_install ''/opt/plugins'' (some_entry ''../evil/evil'') some_disk = (None, d')
     \<and> dk_files d' = [''/opt/evil/evil/evil'' \<mapsto> (''bin'', m1), ''/opt/evil/evil/installed.yaml'' \<mapsto> (''../evil/evil'', m2)]"
proof -
  have p: "abs_path ([''opt''] @ [''evil'', ''evil'', ''evil'']) = ''/opt/evil/evil/evil''"
    "abs_path ([''opt''] @ [''evil'', ''evil'', ''installed.yaml'']) = ''/opt/evil/evil/installed.yaml''"
    by (simp_all add: abs_path_def)
  have "IsAbs ''/opt/plugins''" "plain_name ''evil''" "abs_comps ''/opt/plugins'' = [''opt''] @ [''plugins'']" by code_simp+
  then show ?thesis
    using install_escapes [of "''/opt/plugins''" "[''opt'']" "''plugins''" "''evil''" "some_entry ''../evil/evil''" fine_install "''bin''" rev
        plain_yaml "''../evil/evil''" some_disk id] unfolding p
    by (auto simp: some_entry_def fine_install_def some_disk_def plain_yaml_def)
qed

end
