(* ===== verification/Spec2Isabelle.thy ===== *)
theory Spec2Isabelle
imports Aggregators Processors Config Config_Reload Scheduler Server Agent_Reload Sandbox Grpc_Client Alerting Federation
  Tunnel_Gateway Agent_Tasks Agent_Run Check_Executor Syslog_Input Rust_Runtime Agent_Update
begin

text \<open>
  A verification development for OpsAgent, the agent of a fleet of hosts (Go under \<open>internal\<close> and \<open>cmd\<close>, the
  plugin SDKs under \<open>sdk\<close>, the Rust plugin runtime under \<open>rust-runtime\<close>). All paths below are relative to \<open>src\<close>.

  \<^bold>\<open>The program.\<close> The agent (\<open>internal/app/agent.go\<close>) reads a configuration, starts a collector whose inputs
  produce metrics that processors change and aggregators sum up, evaluates alert rules over them and sends them to the
  platform, with a cache for the time without a connection. It takes tasks from the platform, from its HTTP server and from
  plugins, runs commands and scripts with an executor or in a sandbox, checks the compliance of the host, relays
  tunnels to other hosts, and is one leaf or the hub of a federation. Most parts can be given a new configuration
  while they run.

  \<^bold>\<open>The theories.\<close> A record models a struct, a datatype an enumeration, a definition or function one Go or Rust
  function with the same name where Isabelle allows it (a prefix tells methods of one name apart: \<open>mc_Add\<close>, \<open>gw_Stop\<close>).

  \<^item> Go: \<open>Go_Prelude\<close> (errors, strings, maps, slices, cleaned paths), \<open>Float64\<close> (binary64 with rounding),
    \<open>Go_Values\<close> (\<open>any\<close>), \<open>Go_Strconv\<close> (numbers and durations in text), \<open>Go_Text\<close> (lines, fields, formatting, a JSON
    reader and the decoding of structs).
  \<^item> \<open>Interfaces\<close>: the contracts as locales (bounded first-in-first-out stores, keyed stores, windowed accumulators,
    machines with an invariant); \<open>Config_Reload\<close> adds that of a list of reloaders and \<open>Rust_Runtime\<close> that of base64. Each is
    interpreted in the theories of its providers.
  \<^item> Collector: \<open>Metrics\<close> (\<open>collector/metric.go\<close>, \<open>accumulator.go\<close>, \<open>buffer.go\<close>), \<open>Aggregators\<close>, \<open>Processors\<close>
    (delta and tagger), \<open>Scheduler\<close> (\<open>scheduler.go\<close>), \<open>Tail_Input\<close> and \<open>Syslog_Input\<close> (\<open>collector/inputs\<close>).
  \<^item> Configuration: \<open>Config_Types\<close>, \<open>Config\<close> (\<open>Load\<close>, \<open>Validate\<close>), \<open>Config_Reload\<close> (\<open>Diff\<close>, \<open>Apply\<close>),
    \<open>Agent_Reload\<close> (all reloaders of the agent as one system), \<open>Server\<close> (\<open>internal/server\<close>).
  \<^item> Execution: \<open>Executor\<close> (\<open>internal/executor\<close>), \<open>Sandbox\<close> (\<open>internal/sandbox\<close>), \<open>Agent_Tasks\<close> (\<open>internal/task\<close>, the
    task handlers and the messages of the platform), \<open>Agent_Run\<close> (start, event loop and shutdown), \<open>Checks\<close> and
    \<open>Check_Executor\<close> (\<open>internal/checker\<close>).
  \<^item> Plugins: \<open>Plugin_Manifest\<close>, \<open>Plugin_Gateway\<close> (\<open>internal/pluginruntime\<close>), \<open>Plugin_Sdk\<close> (both SDKs against the
    gateway), \<open>Rust_Runtime\<close> (the runtime against its client), \<open>Agent_Update\<close> (\<open>internal/updater\<close>, \<open>internal/marketplace\<close>).
  \<^item> Network: \<open>Grpc_Client\<close> (\<open>internal/grpcclient\<close>), \<open>Alerting\<close>, \<open>Federation\<close>, \<open>Tunnel_Gateway\<close> (\<open>internal/gateway\<close>).

  \<^bold>\<open>State and effects.\<close> A function that changes an object returns the changed record; an error is \<open>Some\<close> of its
  format string or the left of a sum; a panic is \<open>None\<close> of an option. Shared objects (tunnels) are addresses in a store.
  Goroutines that matter are step relations (\<open>life_step\<close> of the scheduler, \<open>tm_step\<close> of the active tasks) or sequences of
  events (\<open>gw_step\<close>, \<open>tg_step\<close>, \<open>hub_step\<close>, \<open>agent_step\<close>), one critical section at a time. Times are integers in
  nanoseconds; machine integers wrap where the code can overflow. Processes, files, sockets, clocks and third-party
  libraries are parameters, the latter with what the code relies on as hypotheses.

  \<^bold>\<open>What is shown.\<close>
  \<^item> Guards: whatever is run has passed the policy of the sandbox or the list of the executor, on every way into the agent
    (\<open>Sandbox\<close>, \<open>Agent_Tasks\<close>); the API stays behind its token through reloads (\<open>Server\<close>); compliance checks read below
    their directories (\<open>Checks\<close>); plugin binaries stay in theirs (\<open>Plugin_Manifest\<close>).
  \<^item> Invariants of long runs: plugins, tunnels, groups and reloaded parts stay in step with their tables
    (\<open>Plugin_Gateway\<close>, \<open>Tunnel_Gateway\<close>, \<open>Federation\<close>, \<open>Agent_Reload\<close>), the dispatcher has exactly the task types of the
    running plugins (\<open>Agent_Tasks\<close>), and the shutdown waits for tasks (\<open>Agent_Run\<close>).
  \<^item> Metrics: the cache refines a bounded queue and replay conserves it (\<open>Grpc_Client\<close>), flush and persistence bring the
    metrics through a restart (\<open>Agent_Run\<close>), aggregators report exactly their window (\<open>Aggregators\<close>, \<open>Scheduler\<close>), alerts
    are those of the history (\<open>Alerting\<close>), files are followed line by line (\<open>Tail_Input\<close>), syslog messages are read back as
    they were written (\<open>Syslog_Input\<close>).
  \<^item> Plugins and updates: every health item is answered (\<open>Check_Executor\<close>), the output of a task of the runtime arrives
    whole and in order (\<open>Rust_Runtime\<close>), an update keeps the old binary, an installed plugin is listed and can be
    removed (\<open>Agent_Update\<close>).
  \<^item> This theory: the stages of a canary, over the validation of the configuration and the selection of the federation.
  \<^item> Where the code does not do what it means to, a theorem says what it does: a reload that waits for itself
    (\<open>Scheduler\<close>), a reload that opens the metrics page (\<open>Server\<close>), a check that reads any file (\<open>Checks\<close>), a message that ends
    the agent (\<open>Syslog_Input\<close>), plugins that are restarted for ever (\<open>Plugin_Sdk\<close>), output that is cut and then refused
    (\<open>Rust_Runtime\<close>), an updater without a key (\<open>Agent_Update\<close>).

  \<^bold>\<open>Bounds and fuel.\<close> Loops are structural or have a measure. Two readers take fuel: \<open>ParseDuration\<close> the length of its
  text (\<open>parse_units_fuel\<close>) and the JSON reader twice the length and two (\<open>parse_json_fuel\<close>): more changes nothing. The bounds in the theorems are those of the code: \<open>2 ^ 53\<close> where counts pass through
  float64, \<open>2 ^ 63\<close> where a number is an int64, \<open>2 ^ 46\<close> agents in a canary stage.

  \<^bold>\<open>Not modelled.\<close> The other inputs, the outputs and discovery (they read devices and services of the machine or call
  libraries); log parsing and the regex processor (the regexp package); tracing, WASM plugins, templates, the HTTP reporter, the
  notifier and the pages of the server (libraries and I/O); generated protobuf code and the construction of its messages;
  the cgroup statistics, network set-up and audit log of the sandbox; the commands of the command line; the
  plugins of the Rust runtime that scan files or read \<open>/proc\<close>. Memory models below a critical section, such as reads without
  the mutex, are outside the model.
\<close>

text \<open>C31: the stages of a valid canary configuration grow: each selects a non-empty prefix of the agents, a
  later stage one that extends the earlier ones, and a stage of 100 percent selects them all.\<close>

theorem canary_stages_nested:
  fixes c :: Config
  defines "sts \<equiv> elems (canary_Stages (hub_Canary (fed_Hub (cfg_Federation c))))"
  assumes valid: "Validate c = None" "fed_Enabled (cfg_Federation c)" "agent_Mode (cfg_Agent c) = AgentModeHub"
    and agents: "agents \<noteq> []" "length agents \<le> 2 ^ 46"
    and ij: "i \<le> j" "j < length sts"
  shows "\<exists>a b. SelectSubset sts agents (int i) = Inr (take a agents) \<and> SelectSubset sts agents (int j) = Inr (take b agents)
    \<and> 1 \<le> a \<and> a \<le> b \<and> b \<le> length agents \<and> (stage_Percentage (sts ! j) \<noteq> 100 \<or> b = length agents)"
proof -
  let ?p = "stage_Percentage (sts ! i)" and ?q = "stage_Percentage (sts ! j)"
  have "sorted_wrt (<) (map stage_Percentage sts)" using Validate_stages(2) [OF valid] by (simp add: sts_def)
  then have pq: "?p \<le> ?q" using ij by (cases "i = j") (auto simp: sorted_wrt_iff_nth_less intro: less_imp_le)
  have "1 \<le> ?p" "?q \<le> 100"
    using Validate_stages(1) [OF valid] ij by (auto simp: sts_def)
  then have c: "1 \<le> canary_count (length agents) ?p" "canary_count (length agents) ?p \<le> canary_count (length agents) ?q"
      "canary_count (length agents) ?q \<le> int (length agents)" "canary_count (length agents) 100 = int (length agents)"
    using canary_count_props [of "length agents" ?p ?q] pq agents by simp_all
  show ?thesis
    by (rule exI [of _ "nat (canary_count (length agents) ?p)"], rule exI [of _ "nat (canary_count (length agents) ?q)"])
       (use c agents ij in \<open>auto simp: SelectSubset_def\<close>)
qed

definition example_stages :: Config where
  "example_stages = example_hub\<lparr>cfg_Federation := (cfg_Federation example_hub)\<lparr>fed_Enabled := True,
     fed_Hub := (fed_Hub (cfg_Federation example_hub))\<lparr>hub_Region := ''eu'',
       hub_Canary := \<lparr>canary_Strategy = ''percentage'',
         canary_Stages = Some [\<lparr>stage_Percentage = 10, stage_WaitSeconds = 60, stage_AutoRollback = True\<rparr>,
           \<lparr>stage_Percentage = 100, stage_WaitSeconds = 0, stage_AutoRollback = False\<rparr>]\<rparr>\<rparr>\<rparr>\<rparr>"

lemma example_blanks: "\<not> blank ''eu''" "\<not> blank '':9443''"
  by code_simp+

theorem canary_stages_nested_witness:
  "\<exists>a. SelectSubset (elems (canary_Stages (hub_Canary (fed_Hub (cfg_Federation example_stages))))) [''a'', ''b'', ''c''] 0
       = Inr (take a [''a'', ''b'', ''c'']) \<and> 1 \<le> a \<and> a \<le> 3
     \<and> SelectSubset (elems (canary_Stages (hub_Canary (fed_Hub (cfg_Federation example_stages))))) [''a'', ''b'', ''c''] 1
       = Inr [''a'', ''b'', ''c'']"
proof -
  have v: "Validate example_stages = None"
    by (simp add: validate_defs validate_hub_def Let_def example_blanks example_stages_def example_hub_def example_config_def
        example_trims HasPrefix_def)
  have "fed_Enabled (cfg_Federation example_stages)" "agent_Mode (cfg_Agent example_stages) = AgentModeHub"
    by (simp_all add: example_stages_def example_hub_def)
  from canary_stages_nested [OF v this, of "[''a'', ''b'', ''c'']" 0 1] show ?thesis
    by (auto simp: example_stages_def)
qed

end
